theory Spec2Isabelle
  imports
    Main
    "HOL-Library.Sublist"
    "HOL-Library.Char_ord"
    "HOL-Library.List_Lexorder"
    "HOL-Library.Product_Lexorder"
begin

section \<open>Exceptions\<close>

text \<open>
  Every \<^verbatim>\<open>raise\<close> of \<^verbatim>\<open>exchangelib/properties.py\<close> that the modelled functions can reach
  is a constructor of \<open>error\<close>; the exceptions Python itself raises (a missing dictionary
  key, a list index out of range, an unhashable value, a missing attribute, a zero slice
  step) are constructors too. A function that can raise returns \<open>error + 'a\<close>, with
  \<open>Inl\<close> for the exception.

  \<^item> \<open>DuplicateField n\<close>: \<^verbatim>\<open>ValueError('Field %r is a duplicate' % f)\<close>, \<open>n\<close> the name of \<open>f\<close>;
  \<^item> \<open>UnknownFieldName n\<close>: \<^verbatim>\<open>ValueError('Unknown field name %r' % field_name)\<close>;
  \<^item> \<open>InvalidKwargs msg\<close>: \<^verbatim>\<open>AttributeError("%s are invalid kwargs for this class" % ...)\<close>,
    \<open>msg\<close> the whole message;
  \<^item> \<open>InvalidAttribute k\<close>: \<^verbatim>\<open>AttributeError('%r is not a valid attribute. ...' % key)\<close>;
  \<^item> \<open>NoStandardBias\<close>: \<^verbatim>\<open>ValueError('No standard bias found in periods %s')\<close>;
  \<^item> \<open>NoValidTransition y\<close>: \<^verbatim>\<open>ValueError('No valid transition for year %s: %s')\<close>;
  \<^item> \<open>TransitionCount\<close>: \<^verbatim>\<open>ValueError('Expected 0-2 transitions in transitionsgroup %s')\<close>;
  \<^item> \<open>InvalidTransitionOffset\<close>: \<^verbatim>\<open>ValueError("'offset' value %s must be be between 0 and 24 hours")\<close>;
  \<^item> \<open>UnknownTransition\<close>: \<^verbatim>\<open>ValueError('Unknown transition: %s')\<close>;
  \<^item> \<open>NoMatchingTimezone\<close>: \<^verbatim>\<open>ValueError('No server timezones match this timezone definition')\<close>;
  \<^item> \<open>FieldError\<close>: whatever a field's own \<^verbatim>\<open>clean\<close> or \<^verbatim>\<open>from_xml\<close> raises (the field classes
    are declared in \<^verbatim>\<open>fields.py\<close>).
\<close>

datatype error =
    DuplicateField string
  | UnknownFieldName string
  | InvalidKwargs string
  | InvalidAttribute string
  | NoStandardBias
  | NoValidTransition int
  | TransitionCount
  | InvalidTransitionOffset
  | UnknownTransition
  | NoMatchingTimezone
  | FieldError string
  | KeyError
  | IndexError
  | TypeError
  | MissingAttribute string
  | SliceStepZero

definition rbind :: "error + 'a \<Rightarrow> ('a \<Rightarrow> error + 'b) \<Rightarrow> error + 'b" where
  "rbind m f = (case m of Inl e \<Rightarrow> Inl e | Inr x \<Rightarrow> f x)"

text \<open>A comprehension \<^verbatim>\<open>[f(x) for x in xs]\<close> whose body can raise: left to right, the
  first exception ends it.\<close>

primrec rmap :: "('a \<Rightarrow> error + 'b) \<Rightarrow> 'a list \<Rightarrow> error + 'b list" where
  "rmap f [] = Inr []"
| "rmap f (x # xs) =
     (case f x of Inl e \<Rightarrow> Inl e
      | Inr y \<Rightarrow> (case rmap f xs of Inl e \<Rightarrow> Inl e | Inr ys \<Rightarrow> Inr (y # ys)))"

section \<open>Field descriptors\<close>

text \<open>
  The field classes live in \<^verbatim>\<open>fields.py\<close>; \<^verbatim>\<open>properties.py\<close> reads of a field \<open>f\<close> its
  \<^verbatim>\<open>f.name\<close>, its \<^verbatim>\<open>f.is_list\<close>, whether it is an \<^verbatim>\<open>ExtendedPropertyField\<close> and whether it
  is an \<^verbatim>\<open>EnumField\<close>. A descriptor records exactly these.
\<close>

datatype field_kind = PlainField | EnumField | ExtendedPropertyField

record field =
  fname :: string
  is_list :: bool
  fkind :: field_kind

section \<open>Python list primitives used by the schema container\<close>

text \<open>\<^verbatim>\<open>list.insert(index, x)\<close>: a negative index counts from the end, and an index beyond
  either end is clamped to it.\<close>

definition list_insert :: "int \<Rightarrow> 'a \<Rightarrow> 'a list \<Rightarrow> 'a list" where
  "list_insert index x xs =
     (let n = int (length xs);
          i = (if index < 0 then max 0 (index + n) else min index n)
      in take (nat i) xs @ [x] @ drop (nat i) xs)"

text \<open>\<^verbatim>\<open>xs[i]\<close> for an integer \<open>i\<close>: negative indices count from the end, anything out of
  range raises \<^verbatim>\<open>IndexError\<close>.\<close>

definition list_index :: "'a list \<Rightarrow> int \<Rightarrow> error + 'a" where
  "list_index xs i =
     (let n = int (length xs); j = (if i < 0 then i + n else i)
      in if 0 \<le> j \<and> j < n then Inr (xs ! nat j) else Inl IndexError)"

text \<open>
  \<^verbatim>\<open>xs[start:stop:step]\<close>. Each of the three is \<^verbatim>\<open>None\<close> or an integer. The bounds are
  adjusted as CPython's \<^verbatim>\<open>slice.indices\<close> does; a zero step raises \<^verbatim>\<open>ValueError\<close>.
\<close>

definition slice_adjust :: "int \<Rightarrow> int \<Rightarrow> int \<Rightarrow> int" where
  "slice_adjust n step i =
     (if i < 0 then (if i + n < 0 then (if step < 0 then -1 else 0) else i + n)
      else if i \<ge> n then (if step < 0 then n - 1 else n)
      else i)"

definition slice_indices :: "int \<Rightarrow> int option \<Rightarrow> int option \<Rightarrow> int \<Rightarrow> int list" where
  "slice_indices n start stop step =
     (let lo = (case start of None \<Rightarrow> (if step < 0 then n - 1 else 0)
                | Some s \<Rightarrow> slice_adjust n step s);
          hi = (case stop of None \<Rightarrow> (if step < 0 then -1 else n)
                | Some s \<Rightarrow> slice_adjust n step s);
          cnt = (if step > 0 then (if lo < hi then (hi - lo - 1) div step + 1 else 0)
                 else (if hi < lo then (lo - hi - 1) div (- step) + 1 else 0))
      in map (\<lambda>k. lo + int k * step) [0 ..< nat cnt])"

definition list_slice :: "'a list \<Rightarrow> int option \<Rightarrow> int option \<Rightarrow> int option \<Rightarrow> error + 'a list" where
  "list_slice xs start stop step =
     (let st = (case step of None \<Rightarrow> 1 | Some s \<Rightarrow> s)
      in if st = 0 then Inl SliceStepZero
         else Inr (map (\<lambda>i. xs ! nat i) (slice_indices (int (length xs)) start stop st)))"

section \<open>The schema container \<^verbatim>\<open>Fields\<close>\<close>

text \<open>
  \<^verbatim>\<open>class Fields(list)\<close>: the list itself (\<open>items\<close>) and the name index \<^verbatim>\<open>self._dict\<close>.
\<close>

record Fields =
  items :: "field list"
  dict :: "string \<rightharpoonup> field"

text \<open>The loop of \<^verbatim>\<open>Fields.__init__\<close>: it fills \<^verbatim>\<open>_dict\<close> and raises at the first name
  that is already a key.\<close>

fun Fields_fill :: "field list \<Rightarrow> (string \<rightharpoonup> field) \<Rightarrow> error + (string \<rightharpoonup> field)" where
  "Fields_fill [] d = Inr d"
| "Fields_fill (f # fs) d =
     (case d (fname f) of
        Some _ \<Rightarrow> Inl (DuplicateField (fname f))
      | None \<Rightarrow> Fields_fill fs (d(fname f \<mapsto> f)))"

definition Fields_init :: "field list \<Rightarrow> error + Fields" where
  "Fields_init fs =
     (case Fields_fill fs Map.empty of
        Inl e \<Rightarrow> Inl e
      | Inr d \<Rightarrow> Inr \<lparr>items = fs, dict = d\<rparr>)"

text \<open>The argument of \<^verbatim>\<open>Fields.__getitem__\<close>: a name, an integer or a slice; the result is a
  field or, for a slice, a new container.\<close>

datatype getitem_key = ByName string | ByIndex int | BySlice "int option" "int option" "int option"

datatype getitem_result = AField field | AFields Fields

definition Fields_getitem :: "Fields \<Rightarrow> getitem_key \<Rightarrow> error + getitem_result" where
  "Fields_getitem self idx_or_slice =
     (case idx_or_slice of
        ByName n \<Rightarrow> (case dict self n of None \<Rightarrow> Inl KeyError | Some f \<Rightarrow> Inr (AField f))
      | ByIndex i \<Rightarrow> (case list_index (items self) i of Inl e \<Rightarrow> Inl e | Inr f \<Rightarrow> Inr (AField f))
      | BySlice start stop step \<Rightarrow>
          (case list_slice (items self) start stop step of
             Inl e \<Rightarrow> Inl e
           | Inr res \<Rightarrow> (case Fields_init res of Inl e \<Rightarrow> Inl e | Inr F \<Rightarrow> Inr (AFields F))))"

definition Fields_add :: "Fields \<Rightarrow> Fields \<Rightarrow> error + Fields" where
  "Fields_add self other = Fields_init (items self @ items other)"

definition Fields_copy :: "Fields \<Rightarrow> error + Fields" where
  "Fields_copy self = Fields_init (items self)"

fun index_by_name_from :: "nat \<Rightarrow> field list \<Rightarrow> string \<Rightarrow> error + nat" where
  "index_by_name_from i [] field_name = Inl (UnknownFieldName field_name)"
| "index_by_name_from i (f # fs) field_name =
     (if fname f = field_name then Inr i else index_by_name_from (Suc i) fs field_name)"

definition Fields_index_by_name :: "Fields \<Rightarrow> string \<Rightarrow> error + nat" where
  "Fields_index_by_name self field_name = index_by_name_from 0 (items self) field_name"

text \<open>\<^verbatim>\<open>Fields.insert\<close> mutates the container; the model returns the container after the
  call together with the exception raised, if any. The duplicate check comes before
  any write.\<close>

definition Fields_insert :: "Fields \<Rightarrow> int \<Rightarrow> field \<Rightarrow> Fields \<times> error option" where
  "Fields_insert self index f =
     (case dict self (fname f) of
        Some _ \<Rightarrow> (self, Some (DuplicateField (fname f)))
      | None \<Rightarrow>
          (\<lparr>items = list_insert index f (items self), dict = (dict self)(fname f \<mapsto> f)\<rparr>, None))"

text \<open>The invariant of a schema: names are unique, and the index holds exactly the
  listed fields under their names.\<close>

definition Fields_inv :: "Fields \<Rightarrow> bool" where
  "Fields_inv F \<longleftrightarrow>
     distinct (map fname (items F)) \<and> dict F = map_of (map (\<lambda>f. (fname f, f)) (items F))"

text \<open>The container that holds the fields \<open>fs\<close>, in this order, with its index.\<close>

definition Fields_of :: "field list \<Rightarrow> Fields" where
  "Fields_of fs = \<lparr>items = fs, dict = map_of (map (\<lambda>f. (fname f, f)) fs)\<rparr>"

section \<open>Entity types and Python values\<close>

text \<open>
  The \<^verbatim>\<open>__hash__\<close> a type outside \<^verbatim>\<open>IdChangeKeyMixIn\<close> resolves to: that of \<^verbatim>\<open>EWSElement\<close>, or
  the override of \<^verbatim>\<open>Mailbox\<close>, \<^verbatim>\<open>AvailabilityMailbox\<close>, \<^verbatim>\<open>Attendee\<close> or \<^verbatim>\<open>Member\<close>, which
  the subclasses of these types inherit.
\<close>

datatype hash_method =
    EWSElement_hash
  | Mailbox_hash
  | AvailabilityMailbox_hash
  | Attendee_hash
  | Member_hash

text \<open>
  What \<^verbatim>\<open>properties.py\<close> reads of an entity type: its name, its \<^verbatim>\<open>FIELDS\<close> (the list part
  of the container), the keys of \<^verbatim>\<open>_slots_keys()\<close>, \<^verbatim>\<open>ID_ELEMENT_CLS\<close>, which is set
  exactly on the types that mix \<^verbatim>\<open>IdChangeKeyMixIn\<close> in, and its \<^verbatim>\<open>__hash__\<close>.
\<close>

datatype ews_class =
  EWSClass (cname: string) (FIELDS: "field list") (slots_keys: "string list")
    (ID_ELEMENT_CLS: "ews_class option") (HASH: hash_method)

text \<open>
  The values an attribute holds: \<^verbatim>\<open>None\<close>, integers, strings, \<^verbatim>\<open>datetime.time\<close> values
  (microseconds since midnight), lists, tuples, and entities. An entity carries its
  type and its attribute store: the slots that hold a value, under their names.
\<close>

datatype pyval =
    PNone
  | PInt int
  | PStr string
  | PTime nat
  | PList "pyval list"
  | PTuple "pyval list"
  | PElem ews_class "(string \<times> pyval) list"

text \<open>
  What the code takes from the Python runtime and from \<^verbatim>\<open>fields.py\<close>:
  \<^item> \<open>hash_atom\<close>: \<^verbatim>\<open>hash\<close> of \<^verbatim>\<open>None\<close>, an integer, a string or a time;
  \<^item> \<open>hash_tuple\<close>: \<^verbatim>\<open>hash\<close> of a tuple, a function of the hashes of its items in order;
  \<^item> \<open>str_lower\<close>: \<^verbatim>\<open>str.lower\<close>;
  \<^item> \<open>in_FIELDS\<close>: the test \<^verbatim>\<open>key in self.FIELDS\<close>, list membership decided by the
    \<^verbatim>\<open>__eq__\<close> of the field classes;
  \<^item> \<open>class_hasattr\<close>: whether the type itself (a property, a method, a class attribute)
    answers \<^verbatim>\<open>hasattr(self, key)\<close>.
  Nothing is assumed of them.
\<close>

record runtime =
  hash_atom :: "pyval \<Rightarrow> int"
  hash_tuple :: "int list \<Rightarrow> int"
  str_lower :: "string \<Rightarrow> string"
  in_FIELDS :: "string \<Rightarrow> field list \<Rightarrow> bool"
  class_hasattr :: "ews_class \<Rightarrow> string \<Rightarrow> bool"

text \<open>Truth value testing: \<^verbatim>\<open>None\<close>, zero and empty sequences are false; a time and an
  entity (which defines neither \<^verbatim>\<open>__bool__\<close> nor \<^verbatim>\<open>__len__\<close>) are true.\<close>

fun truthy :: "pyval \<Rightarrow> bool" where
  "truthy PNone = False"
| "truthy (PInt n) = (n \<noteq> 0)"
| "truthy (PStr s) = (s \<noteq> [])"
| "truthy (PTime t) = True"
| "truthy (PList xs) = (xs \<noteq> [])"
| "truthy (PTuple xs) = (xs \<noteq> [])"
| "truthy (PElem c a) = True"

text \<open>The items \<^verbatim>\<open>tuple(v)\<close> iterates over; a value that is not iterable raises
  \<^verbatim>\<open>TypeError\<close>.\<close>

fun tuple_items :: "pyval \<Rightarrow> error + pyval list" where
  "tuple_items (PList xs) = Inr xs"
| "tuple_items (PTuple xs) = Inr xs"
| "tuple_items (PStr s) = Inr (map (\<lambda>c. PStr [c]) s)"
| "tuple_items v = Inl TypeError"

text \<open>Reading a slot: a slot that holds no value raises \<^verbatim>\<open>AttributeError\<close>.\<close>

definition slot_get :: "(string \<times> pyval) list \<Rightarrow> string \<Rightarrow> error + pyval" where
  "slot_get attrs k = (case map_of attrs k of None \<Rightarrow> Inl (MissingAttribute k) | Some v \<Rightarrow> Inr v)"

text \<open>Writing a slot, and \<^verbatim>\<open>d[k] = v\<close> on a dictionary: the entry is replaced in place or
  appended.\<close>

fun slot_set :: "string \<Rightarrow> 'v \<Rightarrow> (string \<times> 'v) list \<Rightarrow> (string \<times> 'v) list" where
  "slot_set k v [] = [(k, v)]"
| "slot_set k v ((k', v') # rest) =
     (if k' = k then (k, v) # rest else (k', v') # slot_set k v rest)"

text \<open>\<^verbatim>\<open>v.name\<close> for a slot of another value; only an entity has slots.\<close>

fun attr_of :: "pyval \<Rightarrow> string \<Rightarrow> error + pyval" where
  "attr_of (PElem c a) k = slot_get a k"
| "attr_of v k = Inl (MissingAttribute k)"

text \<open>\<^verbatim>\<open>v.lower()\<close>: only a string has the method.\<close>

fun py_lower :: "runtime \<Rightarrow> pyval \<Rightarrow> error + pyval" where
  "py_lower R (PStr s) = Inr (PStr (str_lower R s))"
| "py_lower R v = Inl (MissingAttribute ''lower'')"

text \<open>The properties \<^verbatim>\<open>IdChangeKeyMixIn.id\<close> and \<^verbatim>\<open>IdChangeKeyMixIn.changekey\<close>, on the
  attribute store of the entity.\<close>

definition id_property :: "(string \<times> pyval) list \<Rightarrow> error + pyval" where
  "id_property attrs =
     (case slot_get attrs ''_id'' of
        Inl e \<Rightarrow> Inl e
      | Inr PNone \<Rightarrow> Inr PNone
      | Inr v \<Rightarrow> attr_of v ''id'')"

definition changekey_property :: "(string \<times> pyval) list \<Rightarrow> error + pyval" where
  "changekey_property attrs =
     (case slot_get attrs ''_id'' of
        Inl e \<Rightarrow> Inl e
      | Inr PNone \<Rightarrow> Inr PNone
      | Inr v \<Rightarrow> attr_of v ''changekey'')"

section \<open>Hashing and equality\<close>

lemma rmap_cong [fundef_cong]:
  "xs = ys \<Longrightarrow> (\<And>x. x \<in> set ys \<Longrightarrow> f x = g x) \<Longrightarrow> rmap f xs = rmap g ys"
  by (induction ys arbitrary: xs) (auto split: sum.splits)

text \<open>
  The argument of \<^verbatim>\<open>hash\<close> in \<^verbatim>\<open>EWSElement.__hash__\<close>: the tuple that
  \<^verbatim>\<open>tuple(tuple(getattr(self, f.name) or ()) if f.is_list else getattr(self, f.name) for f in self.FIELDS)\<close>
  builds, before anything is hashed.
\<close>

definition hash_item :: "(string \<times> pyval) list \<Rightarrow> field \<Rightarrow> error + pyval" where
  "hash_item attrs f =
     (case slot_get attrs (fname f) of
        Inl e \<Rightarrow> Inl e
      | Inr v \<Rightarrow>
          if is_list f then
            (if truthy v then
               (case tuple_items v of Inl e \<Rightarrow> Inl e | Inr xs \<Rightarrow> Inr (PTuple xs))
             else Inr (PTuple []))
          else Inr v)"

definition EWSElement_hash_arg :: "ews_class \<Rightarrow> (string \<times> pyval) list \<Rightarrow> error + pyval" where
  "EWSElement_hash_arg c attrs =
     (case rmap (hash_item attrs) (FIELDS c) of Inl e \<Rightarrow> Inl e | Inr vs \<Rightarrow> Inr (PTuple vs))"

text \<open>The nesting depth of a value: the measure under which \<^verbatim>\<open>hash\<close> terminates (an entity
  lies three levels above its attributes, which leaves room for the tuples
  \<^verbatim>\<open>__hash__\<close> builds).\<close>

fun pdepth :: "pyval \<Rightarrow> nat" where
  "pdepth (PList xs) = Suc (foldr (\<lambda>x m. max (pdepth x) m) xs 0)"
| "pdepth (PTuple xs) = Suc (foldr (\<lambda>x m. max (pdepth x) m) xs 0)"
| "pdepth (PElem c attrs) = 3 + foldr (\<lambda>kv m. max (pdepth (snd kv)) m) attrs 0"
| "pdepth v = 0"

lemma pdepth_foldr_le:
  "x \<in> set xs \<Longrightarrow> pdepth x \<le> foldr (\<lambda>x m. max (pdepth x) m) xs 0"
  by (induction xs) auto

lemma pdepth_foldr_bound:
  "(\<And>x. x \<in> set xs \<Longrightarrow> pdepth x \<le> n) \<Longrightarrow> foldr (\<lambda>x m. max (pdepth x) m) xs 0 \<le> n"
  by (induction xs) auto

lemma slot_get_depth:
  "slot_get attrs k = Inr v \<Longrightarrow> pdepth v \<le> foldr (\<lambda>kv m. max (pdepth (snd kv)) m) attrs 0"
  by (induction attrs) (auto simp: slot_get_def split: option.splits if_splits)

lemma pdepth_chars: "foldr (\<lambda>x m. max (pdepth x) m) (map (\<lambda>c. PStr [c]) s) 0 = 0"
  by (induction s) auto

lemma tuple_items_depth:
  "tuple_items v = Inr xs \<Longrightarrow> pdepth (PTuple xs) \<le> Suc (pdepth v)"
  by (cases v) (auto simp: pdepth_chars)

lemma attr_of_depth: "attr_of v k = Inr w \<Longrightarrow> pdepth w < pdepth v"
  by (cases v) (auto dest: slot_get_depth)

lemma id_property_depth:
  "id_property attrs = Inr v \<Longrightarrow> pdepth v \<le> foldr (\<lambda>kv m. max (pdepth (snd kv)) m) attrs 0"
  unfolding id_property_def
  by (auto split: sum.splits pyval.splits dest!: slot_get_depth attr_of_depth)

lemma changekey_property_depth:
  "changekey_property attrs = Inr v \<Longrightarrow> pdepth v \<le> foldr (\<lambda>kv m. max (pdepth (snd kv)) m) attrs 0"
  unfolding changekey_property_def
  by (auto split: sum.splits pyval.splits dest!: slot_get_depth attr_of_depth)

lemma rmap_set:
  "rmap f xs = Inr ys \<Longrightarrow> y \<in> set ys \<Longrightarrow> \<exists>x\<in>set xs. f x = Inr y"
  by (induction xs arbitrary: ys) (auto split: sum.splits)

lemma hash_item_depth:
  "hash_item attrs f = Inr v \<Longrightarrow>
   pdepth v \<le> Suc (foldr (\<lambda>kv m. max (pdepth (snd kv)) m) attrs 0)"
  unfolding hash_item_def
  by (auto split: sum.splits if_splits dest!: slot_get_depth tuple_items_depth)

lemma EWSElement_hash_arg_depth:
  assumes "EWSElement_hash_arg c attrs = Inr t"
  shows "pdepth t < pdepth (PElem c attrs)"
proof -
  let ?m = "foldr (\<lambda>kv m. max (pdepth (snd kv)) m) attrs 0"
  obtain vs where vs: "rmap (hash_item attrs) (FIELDS c) = Inr vs" and t: "t = PTuple vs"
    using assms by (auto simp: EWSElement_hash_arg_def split: sum.splits)
  have "pdepth v \<le> Suc ?m" if vin: "v \<in> set vs" for v
  proof -
    obtain f where "hash_item attrs f = Inr v" using rmap_set[OF vs vin] by blast
    then show ?thesis by (rule hash_item_depth)
  qed
  then have "foldr (\<lambda>x m. max (pdepth x) m) vs 0 \<le> Suc ?m"
    by (rule pdepth_foldr_bound)
  then show ?thesis by (simp add: t)
qed

lemma py_lower_depth: "py_lower R v = Inr w \<Longrightarrow> pdepth w = 0"
  by (cases v) auto

text \<open>
  \<^verbatim>\<open>hash(v)\<close>. A list is unhashable; a tuple hashes its items in order; an entity answers
  with the \<^verbatim>\<open>__hash__\<close> of its type:

  \<^item> \<^verbatim>\<open>EWSElement.__hash__\<close> hashes the tuple of \<open>EWSElement_hash_arg\<close>;
  \<^item> \<^verbatim>\<open>IdChangeKeyMixIn.__hash__\<close> hashes \<^verbatim>\<open>(self.id, self.changekey)\<close> when \<^verbatim>\<open>self.id\<close> is
    true, else it calls \<^verbatim>\<open>super().__hash__()\<close>;
  \<^item> \<^verbatim>\<open>Mailbox.__hash__\<close> hashes \<^verbatim>\<open>self.item_id\<close> when it is true, else
    \<^verbatim>\<open>self.email_address.lower()\<close> when \<^verbatim>\<open>self.email_address\<close> is true, else it calls
    \<^verbatim>\<open>super().__hash__()\<close>;
  \<^item> \<^verbatim>\<open>AvailabilityMailbox.__hash__\<close> does the same without the \<^verbatim>\<open>item_id\<close>;
  \<^item> \<^verbatim>\<open>Attendee.__hash__\<close> and \<^verbatim>\<open>Member.__hash__\<close> hash \<^verbatim>\<open>self.mailbox\<close>.

  An attribute that the code reads twice is read twice.
\<close>

function py_hash :: "runtime \<Rightarrow> pyval \<Rightarrow> error + int" where
  "py_hash R PNone = Inr (hash_atom R PNone)"
| "py_hash R (PInt n) = Inr (hash_atom R (PInt n))"
| "py_hash R (PStr s) = Inr (hash_atom R (PStr s))"
| "py_hash R (PTime t) = Inr (hash_atom R (PTime t))"
| "py_hash R (PList xs) = Inl TypeError"
| "py_hash R (PTuple xs) =
     (case rmap (py_hash R) xs of Inl e \<Rightarrow> Inl e | Inr hs \<Rightarrow> Inr (hash_tuple R hs))"
| "py_hash R (PElem c attrs) =
     (case ID_ELEMENT_CLS c of
        None \<Rightarrow>
          (case HASH c of
             EWSElement_hash \<Rightarrow>
               (case EWSElement_hash_arg c attrs of Inl e \<Rightarrow> Inl e | Inr t \<Rightarrow> py_hash R t)
           | Mailbox_hash \<Rightarrow>
               (case slot_get attrs ''item_id'' of
                  Inl e \<Rightarrow> Inl e
                | Inr i \<Rightarrow>
                    if truthy i then
                      (case slot_get attrs ''item_id'' of Inl e \<Rightarrow> Inl e | Inr i' \<Rightarrow> py_hash R i')
                    else
                      (case slot_get attrs ''email_address'' of
                         Inl e \<Rightarrow> Inl e
                       | Inr m \<Rightarrow>
                           if truthy m then
                             (case slot_get attrs ''email_address'' of
                                Inl e \<Rightarrow> Inl e
                              | Inr m' \<Rightarrow>
                                  (case py_lower R m' of Inl e \<Rightarrow> Inl e | Inr l \<Rightarrow> py_hash R l))
                           else
                             (case EWSElement_hash_arg c attrs of
                                Inl e \<Rightarrow> Inl e
                              | Inr t \<Rightarrow> py_hash R t)))
           | AvailabilityMailbox_hash \<Rightarrow>
               (case slot_get attrs ''email_address'' of
                  Inl e \<Rightarrow> Inl e
                | Inr m \<Rightarrow>
                    if truthy m then
                      (case slot_get attrs ''email_address'' of
                         Inl e \<Rightarrow> Inl e
                       | Inr m' \<Rightarrow>
                           (case py_lower R m' of Inl e \<Rightarrow> Inl e | Inr l \<Rightarrow> py_hash R l))
                    else
                      (case EWSElement_hash_arg c attrs of
                         Inl e \<Rightarrow> Inl e
                       | Inr t \<Rightarrow> py_hash R t))
           | Attendee_hash \<Rightarrow>
               (case slot_get attrs ''mailbox'' of Inl e \<Rightarrow> Inl e | Inr m \<Rightarrow> py_hash R m)
           | Member_hash \<Rightarrow>
               (case slot_get attrs ''mailbox'' of Inl e \<Rightarrow> Inl e | Inr m \<Rightarrow> py_hash R m))
      | Some _ \<Rightarrow>
          (case id_property attrs of
             Inl e \<Rightarrow> Inl e
           | Inr i \<Rightarrow>
               if truthy i then
                 (case id_property attrs of
                    Inl e \<Rightarrow> Inl e
                  | Inr i' \<Rightarrow>
                      (case changekey_property attrs of
                         Inl e \<Rightarrow> Inl e
                       | Inr ck \<Rightarrow> py_hash R (PTuple [i', ck])))
               else
                 (case EWSElement_hash_arg c attrs of
                    Inl e \<Rightarrow> Inl e
                  | Inr t \<Rightarrow> py_hash R t)))"
  by pat_completeness auto
termination
proof (relation "measure (\<lambda>(R, v). pdepth v)", goal_cases)
  case 1
  show ?case by simp
next
  case (2 R xs x)
  then show ?case by (simp add: less_Suc_eq_le pdepth_foldr_le)
next
  case (3 R c attrs t)
  then show ?case using EWSElement_hash_arg_depth[of c attrs t] by simp
next
  case (4 R c attrs i i')
  then show ?case using slot_get_depth[of attrs "''item_id''" i'] by simp
next
  case (5 R c attrs i m m' l)
  then show ?case using py_lower_depth[of R m' l] by simp
next
  case (6 R c attrs i m t)
  then show ?case using EWSElement_hash_arg_depth[of c attrs t] by simp
next
  case (7 R c attrs m m' l)
  then show ?case using py_lower_depth[of R m' l] by simp
next
  case (8 R c attrs m t)
  then show ?case using EWSElement_hash_arg_depth[of c attrs t] by simp
next
  case (9 R c attrs m)
  then show ?case using slot_get_depth[of attrs "''mailbox''" m] by simp
next
  case (10 R c attrs m)
  then show ?case using slot_get_depth[of attrs "''mailbox''" m] by simp
next
  case (11 R c attrs idc i i' ck)
  have "pdepth i' \<le> foldr (\<lambda>kv m. max (pdepth (snd kv)) m) attrs 0"
    using 11 id_property_depth by blast
  moreover have "pdepth ck \<le> foldr (\<lambda>kv m. max (pdepth (snd kv)) m) attrs 0"
    using 11 changekey_property_depth by blast
  ultimately show ?case by simp
next
  case (12 R c attrs idc i t)
  then show ?case using EWSElement_hash_arg_depth[of c attrs t] by simp
qed

text \<open>\<^verbatim>\<open>EWSElement.__eq__\<close>: \<^verbatim>\<open>hash(self) == hash(other)\<close>, for any \<^verbatim>\<open>other\<close>.\<close>

definition EWSElement_eq :: "runtime \<Rightarrow> pyval \<Rightarrow> pyval \<Rightarrow> error + bool" where
  "EWSElement_eq R self other =
     (case py_hash R self of
        Inl e \<Rightarrow> Inl e
      | Inr a \<Rightarrow> (case py_hash R other of Inl e \<Rightarrow> Inl e | Inr b \<Rightarrow> Inr (a = b)))"

text \<open>\<^verbatim>\<open>IdChangeKeyMixIn.__eq__\<close>: against a tuple it compares the hash of
  \<^verbatim>\<open>(self.id, self.changekey)\<close>, otherwise it is \<^verbatim>\<open>super().__eq__\<close>.\<close>

definition IdChangeKeyMixIn_eq :: "runtime \<Rightarrow> pyval \<Rightarrow> pyval \<Rightarrow> error + bool" where
  "IdChangeKeyMixIn_eq R self other =
     (case other of
        PTuple ys \<Rightarrow>
          (case self of
             PElem c attrs \<Rightarrow>
               (case id_property attrs of
                  Inl e \<Rightarrow> Inl e
                | Inr i \<Rightarrow>
                    (case changekey_property attrs of
                       Inl e \<Rightarrow> Inl e
                     | Inr ck \<Rightarrow>
                         (case py_hash R (PTuple [i, ck]) of
                            Inl e \<Rightarrow> Inl e
                          | Inr a \<Rightarrow>
                              (case py_hash R other of
                                 Inl e \<Rightarrow> Inl e
                               | Inr b \<Rightarrow> Inr (a = b)))))
           | _ \<Rightarrow> Inl TypeError)
      | _ \<Rightarrow> EWSElement_eq R self other)"

text \<open>\<^verbatim>\<open>self == other\<close> for an entity \<open>self\<close>: the \<^verbatim>\<open>__eq__\<close> of its type.\<close>

definition elem_eq :: "runtime \<Rightarrow> pyval \<Rightarrow> pyval \<Rightarrow> error + bool" where
  "elem_eq R self other =
     (case self of
        PElem c attrs \<Rightarrow>
          (case ID_ELEMENT_CLS c of
             None \<Rightarrow> EWSElement_eq R self other
           | Some _ \<Rightarrow> IdChangeKeyMixIn_eq R self other)
      | _ \<Rightarrow> Inl TypeError)"


text \<open>Modelled from the spec: the tuple the specification says is hashed, "the ordered tuple of
  (field name, normalized value) pairs, with list-valued fields folded to a tuple and
  enumerated fields normalized to their canonical wire string". \<open>as_string\<close> is the
  canonical string of an enumerated value.\<close>

definition spec_hash_arg ::
  "(field \<Rightarrow> int \<Rightarrow> string) \<Rightarrow> ews_class \<Rightarrow> (string \<times> pyval) list \<Rightarrow> error + pyval" where
  "spec_hash_arg as_string c attrs =
     (case rmap (\<lambda>f.
          case hash_item attrs f of
            Inl e \<Rightarrow> Inl e
          | Inr v \<Rightarrow>
              Inr (PTuple [PStr (fname f),
                     (case v of
                        PInt n \<Rightarrow> if fkind f = EnumField then PStr (as_string f n) else v
                      | _ \<Rightarrow> v)])) (FIELDS c)
      of Inl e \<Rightarrow> Inl e | Inr ps \<Rightarrow> Inr (PTuple ps))"

section \<open>Schemas declared in \<^verbatim>\<open>properties.py\<close>\<close>

text \<open>
  The field lists of the entity types the claims name, in declaration order. None of
  their field classes (\<^verbatim>\<open>IntegerField\<close>, \<^verbatim>\<open>TimeField\<close>, \<^verbatim>\<open>EWSElementField\<close>,
  \<^verbatim>\<open>IdField\<close>, \<^verbatim>\<open>MailboxField\<close>) is a list field, but \<^verbatim>\<open>EnumListField\<close> is one.
\<close>

definition plain_field :: "string \<Rightarrow> field" where
  "plain_field n = \<lparr>fname = n, is_list = False, fkind = PlainField\<rparr>"

definition TimeZone_FIELDS :: "field list" where
  "TimeZone_FIELDS =
     [plain_field ''bias'', plain_field ''standard_time'', plain_field ''daylight_time'']"

definition ItemId_FIELDS :: "field list" where
  "ItemId_FIELDS = [plain_field ''id'', plain_field ''changekey'']"

definition DistinguishedFolderId_LOCAL_FIELDS :: "field list" where
  "DistinguishedFolderId_LOCAL_FIELDS = [plain_field ''mailbox'']"

definition TimeZoneTransition_FIELDS :: "field list" where
  "TimeZoneTransition_FIELDS =
     [plain_field ''bias'', plain_field ''time'', plain_field ''occurrence'',
      plain_field ''iso_month'',
      \<lparr>fname = ''weekday'', is_list = False, fkind = EnumField\<rparr>]"

definition UserConfiguration_FIELDS :: "field list" where
  "UserConfiguration_FIELDS =
     [plain_field ''_id'', plain_field ''user_configuration_name'', plain_field ''dictionary'',
      plain_field ''xml_data'', plain_field ''binary_data'']"

text \<open>
  The entity types. Each declares \<^verbatim>\<open>__slots__ = tuple(f.name for f in FIELDS)\<close> (the two
  transition types inherit the slots of \<^verbatim>\<open>TimeZoneTransition\<close>), so \<^verbatim>\<open>_slots_keys()\<close> is
  the list of field names. \<^verbatim>\<open>UserConfiguration\<close> mixes \<^verbatim>\<open>IdChangeKeyMixIn\<close> in, with
  \<^verbatim>\<open>ID_ELEMENT_CLS = ItemId\<close>; its \<^verbatim>\<open>super().__hash__()\<close> is \<^verbatim>\<open>EWSElement.__hash__\<close>.
\<close>

definition StandardTime_cls :: ews_class where
  "StandardTime_cls =
     EWSClass ''StandardTime'' TimeZoneTransition_FIELDS (map fname TimeZoneTransition_FIELDS) None
       EWSElement_hash"

definition DaylightTime_cls :: ews_class where
  "DaylightTime_cls =
     EWSClass ''DaylightTime'' TimeZoneTransition_FIELDS (map fname TimeZoneTransition_FIELDS) None
       EWSElement_hash"

definition TimeZone_cls :: ews_class where
  "TimeZone_cls =
     EWSClass ''TimeZone'' TimeZone_FIELDS (map fname TimeZone_FIELDS) None EWSElement_hash"

definition ItemId_cls :: ews_class where
  "ItemId_cls = EWSClass ''ItemId'' ItemId_FIELDS (map fname ItemId_FIELDS) None EWSElement_hash"

definition UserConfiguration_cls :: ews_class where
  "UserConfiguration_cls =
     EWSClass ''UserConfiguration'' UserConfiguration_FIELDS (map fname UserConfiguration_FIELDS)
       (Some ItemId_cls) EWSElement_hash"

text \<open>\<^verbatim>\<open>str.lower\<close> on the letters of ASCII.\<close>

definition ascii_lower :: "char \<Rightarrow> char" where
  "ascii_lower ch =
     (if 65 \<le> (of_char ch :: nat) \<and> (of_char ch :: nat) \<le> 90 then char_of (of_char ch + 32 :: nat)
      else ch)"

text \<open>A runtime to evaluate examples with: integers and times hash to themselves, a
  string to its length, a tuple to a polynomial of its items' hashes; \<^verbatim>\<open>key in FIELDS\<close>
  holds of no key and the types answer \<^verbatim>\<open>hasattr\<close> for no key.\<close>

definition example_runtime :: runtime where
  "example_runtime =
     \<lparr>hash_atom = (\<lambda>v. case v of PInt n \<Rightarrow> n | PStr s \<Rightarrow> int (length s) | PTime t \<Rightarrow> int t | _ \<Rightarrow> 0),
      hash_tuple = (\<lambda>hs. foldr (\<lambda>h acc. h + 31 * acc) hs 7),
      str_lower = map ascii_lower,
      in_FIELDS = (\<lambda>k fs. False),
      class_hasattr = (\<lambda>c k. False)\<rparr>"

definition WorkingPeriod_FIELDS :: "field list" where
  "WorkingPeriod_FIELDS =
     [\<lparr>fname = ''weekdays'', is_list = True, fkind = EnumField\<rparr>,
      plain_field ''start'', plain_field ''end'']"

definition WorkingPeriod_cls :: ews_class where
  "WorkingPeriod_cls =
     EWSClass ''WorkingPeriod'' WorkingPeriod_FIELDS (map fname WorkingPeriod_FIELDS) None
       EWSElement_hash"

text \<open>\<^verbatim>\<open>Mailbox\<close> and \<^verbatim>\<open>Attendee\<close>, which override \<^verbatim>\<open>__hash__\<close>.\<close>

definition Mailbox_FIELDS :: "field list" where
  "Mailbox_FIELDS =
     [plain_field ''name'', plain_field ''email_address'', plain_field ''routing_type'',
      plain_field ''mailbox_type'', plain_field ''item_id'']"

definition Mailbox_cls :: ews_class where
  "Mailbox_cls = EWSClass ''Mailbox'' Mailbox_FIELDS (map fname Mailbox_FIELDS) None Mailbox_hash"

definition Attendee_FIELDS :: "field list" where
  "Attendee_FIELDS =
     [plain_field ''mailbox'', plain_field ''response_type'', plain_field ''last_response_time'']"

definition Attendee_cls :: ews_class where
  "Attendee_cls =
     EWSClass ''Attendee'' Attendee_FIELDS (map fname Attendee_FIELDS) None Attendee_hash"

section \<open>Example entities\<close>

definition example_transition :: "(string \<times> pyval) list" where
  "example_transition =
     [(''bias'', PInt 0), (''time'', PTime 0), (''occurrence'', PInt 1), (''iso_month'', PInt 1),
      (''weekday'', PInt 1)]"

definition example_working_period :: "pyval \<Rightarrow> (string \<times> pyval) list" where
  "example_working_period weekdays =
     [(''weekdays'', weekdays), (''start'', PTime 0), (''end'', PTime 60)]"

definition example_item_id :: "(string \<times> pyval) list" where
  "example_item_id = [(''id'', PInt 0), (''changekey'', PTime 0)]"

definition example_user_configuration :: "pyval \<Rightarrow> pyval \<Rightarrow> (string \<times> pyval) list" where
  "example_user_configuration ident xml_data =
     [(''_id'', ident), (''user_configuration_name'', PNone), (''dictionary'', PNone),
      (''xml_data'', xml_data), (''binary_data'', PNone)]"

definition example_identity :: pyval where
  "example_identity = PElem ItemId_cls [(''id'', PStr ''X''), (''changekey'', PStr ''ck'')]"

definition example_last_transition :: "int \<Rightarrow> (string \<times> pyval) list" where
  "example_last_transition occurrence =
     [(''bias'', PInt 60), (''time'', PTime 7200000000), (''occurrence'', PInt occurrence),
      (''iso_month'', PInt 10), (''weekday'', PInt 7)]"

text \<open>A mailbox, and the attendee of that mailbox with a given response.\<close>

definition example_mailbox :: "string \<Rightarrow> string \<Rightarrow> pyval" where
  "example_mailbox name email_address =
     PElem Mailbox_cls
       [(''name'', PStr name), (''email_address'', PStr email_address),
        (''routing_type'', PStr ''SMTP''), (''mailbox_type'', PStr ''Mailbox''),
        (''item_id'', PNone)]"

definition example_attendee :: "string \<Rightarrow> (string \<times> pyval) list" where
  "example_attendee response_type =
     [(''mailbox'', example_mailbox ''Ann'' ''Ann@example.com''),
      (''response_type'', PStr response_type), (''last_response_time'', PNone)]"

section \<open>Construction and attribute writes\<close>

text \<open>
  \<^verbatim>\<open>object.__setattr__\<close> on an instance of a slotted type (\<^verbatim>\<open>EWSElement\<close> declares
  \<^verbatim>\<open>__slots__ = ()\<close> and so does every type below it, hence no instance has a
  \<^verbatim>\<open>__dict__\<close>): the value goes into the slot of that name, and a name that is no slot
  raises \<^verbatim>\<open>AttributeError\<close>. The two properties of \<^verbatim>\<open>IdChangeKeyMixIn\<close> are written through
  their setters, modelled further down.
\<close>

definition object_setattr ::
  "ews_class \<Rightarrow> (string \<times> pyval) list \<Rightarrow> string \<Rightarrow> pyval \<Rightarrow> error + (string \<times> pyval) list" where
  "object_setattr c attrs key v =
     (if key \<in> set (slots_keys c) then Inr (slot_set key v attrs) else Inl (MissingAttribute key))"

text \<open>\<^verbatim>\<open>hasattr(self, key)\<close>: a slot that holds a value, or a name the type answers for.\<close>

definition hasattr :: "runtime \<Rightarrow> ews_class \<Rightarrow> (string \<times> pyval) list \<Rightarrow> string \<Rightarrow> bool" where
  "hasattr R c attrs key =
     ((case map_of attrs key of None \<Rightarrow> False | Some _ \<Rightarrow> True) \<or> class_hasattr R c key)"

text \<open>\<^verbatim>\<open>EWSElement.__setattr__\<close>: the three tests in the order of the source, then the
  error.\<close>

definition EWSElement_setattr ::
  "runtime \<Rightarrow> ews_class \<Rightarrow> (string \<times> pyval) list \<Rightarrow> string \<Rightarrow> pyval
     \<Rightarrow> error + (string \<times> pyval) list" where
  "EWSElement_setattr R c attrs key v =
     (if in_FIELDS R key (FIELDS c) then object_setattr c attrs key v
      else if key \<in> set (slots_keys c) then object_setattr c attrs key v
      else if hasattr R c attrs key then object_setattr c attrs key v
      else Inl (InvalidAttribute key))"

text \<open>A keyword dictionary, in insertion order. \<^verbatim>\<open>kwargs.pop(k, None)\<close> returns the value
  under \<open>k\<close> (or \<^verbatim>\<open>None\<close>) and the dictionary without \<open>k\<close>.\<close>

definition dict_pop :: "string \<Rightarrow> (string \<times> pyval) list \<Rightarrow> pyval \<times> (string \<times> pyval) list" where
  "dict_pop k kwargs =
     ((case map_of kwargs k of None \<Rightarrow> PNone | Some v \<Rightarrow> v), filter (\<lambda>kv. fst kv \<noteq> k) kwargs)"

text \<open>\<^verbatim>\<open>dict(pairs)\<close>: a later pair replaces an earlier one with the same key.\<close>

definition dict_of :: "(string \<times> pyval) list \<Rightarrow> (string \<times> pyval) list" where
  "dict_of pairs = foldl (\<lambda>d kv. slot_set (fst kv) (snd kv) d) [] pairs"

text \<open>\<^verbatim>\<open>"%s are invalid kwargs for this class" % ', '.join("'%s'" % k for k in kwargs)\<close>.\<close>

fun join :: "string \<Rightarrow> string list \<Rightarrow> string" where
  "join sep [] = []"
| "join sep [x] = x"
| "join sep (x # y # ys) = x @ sep @ join sep (y # ys)"

definition invalid_kwargs_message :: "string list \<Rightarrow> string" where
  "invalid_kwargs_message ks =
     join '', '' (map (\<lambda>k. [CHR 0x27] @ k @ [CHR 0x27]) ks) @ '' are invalid kwargs for this class''"

text \<open>The loop of \<^verbatim>\<open>EWSElement.__init__\<close>:
  \<^verbatim>\<open>for f in self.FIELDS: setattr(self, f.name, kwargs.pop(f.name, None))\<close>.\<close>

fun EWSElement_init_loop ::
  "runtime \<Rightarrow> ews_class \<Rightarrow> field list \<Rightarrow> (string \<times> pyval) list \<Rightarrow> (string \<times> pyval) list
     \<Rightarrow> error + ((string \<times> pyval) list \<times> (string \<times> pyval) list)" where
  "EWSElement_init_loop R c [] kwargs attrs = Inr (kwargs, attrs)"
| "EWSElement_init_loop R c (f # fs) kwargs attrs =
     (case dict_pop (fname f) kwargs of
        (v, kwargs') \<Rightarrow>
          (case EWSElement_setattr R c attrs (fname f) v of
             Inl e \<Rightarrow> Inl e
           | Inr attrs' \<Rightarrow> EWSElement_init_loop R c fs kwargs' attrs'))"

definition EWSElement_init :: "runtime \<Rightarrow> ews_class \<Rightarrow> (string \<times> pyval) list \<Rightarrow> error + pyval" where
  "EWSElement_init R c kwargs =
     (case EWSElement_init_loop R c (FIELDS c) kwargs [] of
        Inl e \<Rightarrow> Inl e
      | Inr (rest, attrs) \<Rightarrow>
          if rest \<noteq> [] then Inl (InvalidKwargs (invalid_kwargs_message (map fst rest)))
          else Inr (PElem c attrs))"

text \<open>\<^verbatim>\<open>ItemId.__init__(self, *args, **kwargs)\<close>: without keywords, the positional arguments
  are paired with the slots.\<close>

definition ItemId_init ::
  "runtime \<Rightarrow> ews_class \<Rightarrow> pyval list \<Rightarrow> (string \<times> pyval) list \<Rightarrow> error + pyval" where
  "ItemId_init R c args kwargs =
     EWSElement_init R c (if kwargs = [] then dict_of (zip (slots_keys c) args) else kwargs)"

text \<open>\<^verbatim>\<open>IdChangeKeyMixIn.__init__\<close>. Calling \<^verbatim>\<open>ID_ELEMENT_CLS\<close> when it is \<^verbatim>\<open>None\<close> raises
  \<^verbatim>\<open>TypeError\<close>.\<close>

definition IdChangeKeyMixIn_init ::
  "runtime \<Rightarrow> ews_class \<Rightarrow> (string \<times> pyval) list \<Rightarrow> error + pyval" where
  "IdChangeKeyMixIn_init R c kwargs =
     (case ID_ELEMENT_CLS c of
        None \<Rightarrow> Inl TypeError
      | Some idc \<Rightarrow>
          (case dict_pop ''id'' kwargs of
             (i, kwargs1) \<Rightarrow>
               (case dict_pop ''changekey'' kwargs1 of
                  (ck, kwargs2) \<Rightarrow>
                    (case ItemId_init R idc [i, ck] [] of
                       Inl e \<Rightarrow> Inl e
                     | Inr ident \<Rightarrow>
                         (case attr_of ident ''id'' of
                            Inl e \<Rightarrow> Inl e
                          | Inr vi \<Rightarrow>
                              if truthy vi then EWSElement_init R c (slot_set ''_id'' ident kwargs2)
                              else
                                (case attr_of ident ''changekey'' of
                                   Inl e \<Rightarrow> Inl e
                                 | Inr vc \<Rightarrow>
                                     if truthy vc
                                     then EWSElement_init R c (slot_set ''_id'' ident kwargs2)
                                     else EWSElement_init R c kwargs2))))))"

section \<open>The identity properties\<close>

text \<open>Reading \<^verbatim>\<open>self.id\<close> and \<^verbatim>\<open>self.changekey\<close> on an entity.\<close>

definition IdChangeKeyMixIn_id :: "pyval \<Rightarrow> error + pyval" where
  "IdChangeKeyMixIn_id self =
     (case self of PElem c attrs \<Rightarrow> id_property attrs | _ \<Rightarrow> Inl (MissingAttribute ''id''))"

definition IdChangeKeyMixIn_changekey :: "pyval \<Rightarrow> error + pyval" where
  "IdChangeKeyMixIn_changekey self =
     (case self of
        PElem c attrs \<Rightarrow> changekey_property attrs
      | _ \<Rightarrow> Inl (MissingAttribute ''changekey''))"

text \<open>
  The two setters share their shape: when \<^verbatim>\<open>self._id\<close> is \<^verbatim>\<open>None\<close>, store a fresh
  \<^verbatim>\<open>self.ID_ELEMENT_CLS()\<close> in it; then write the attribute \<open>key\<close> of \<^verbatim>\<open>self._id\<close>.
  In Python the nested instance is changed in place; here the entity is returned with
  the changed instance in its \<^verbatim>\<open>_id\<close> slot.
\<close>

definition IdChangeKeyMixIn_set :: "runtime \<Rightarrow> string \<Rightarrow> pyval \<Rightarrow> pyval \<Rightarrow> error + pyval" where
  "IdChangeKeyMixIn_set R key self v =
     (case self of
        PElem c attrs \<Rightarrow>
          (case slot_get attrs ''_id'' of
             Inl e \<Rightarrow> Inl e
           | Inr cur \<Rightarrow>
               (case (case cur of
                        PNone \<Rightarrow>
                          (case ID_ELEMENT_CLS c of
                             None \<Rightarrow> Inl TypeError
                           | Some idc \<Rightarrow>
                               (case ItemId_init R idc [] [] of
                                  Inl e \<Rightarrow> Inl e
                                | Inr fresh \<Rightarrow>
                                    (case EWSElement_setattr R c attrs ''_id'' fresh of
                                       Inl e \<Rightarrow> Inl e
                                     | Inr attrs' \<Rightarrow> Inr (fresh, attrs'))))
                      | _ \<Rightarrow> Inr (cur, attrs))
                of
                  Inl e \<Rightarrow> Inl e
                | Inr (ident, attrs1) \<Rightarrow>
                    (case ident of
                       PElem ic iattrs \<Rightarrow>
                         (case EWSElement_setattr R ic iattrs key v of
                            Inl e \<Rightarrow> Inl e
                          | Inr iattrs' \<Rightarrow>
                              Inr (PElem c (slot_set ''_id'' (PElem ic iattrs') attrs1)))
                     | _ \<Rightarrow> Inl (MissingAttribute key))))
      | _ \<Rightarrow> Inl (MissingAttribute key))"

definition IdChangeKeyMixIn_set_id :: "runtime \<Rightarrow> pyval \<Rightarrow> pyval \<Rightarrow> error + pyval" where
  "IdChangeKeyMixIn_set_id R self v = IdChangeKeyMixIn_set R ''id'' self v"

definition IdChangeKeyMixIn_set_changekey :: "runtime \<Rightarrow> pyval \<Rightarrow> pyval \<Rightarrow> error + pyval" where
  "IdChangeKeyMixIn_set_changekey R self v = IdChangeKeyMixIn_set R ''changekey'' self v"

section \<open>Validation and unmarshalling of the transition descriptors\<close>

text \<open>
  \<^verbatim>\<open>EWSElement.clean\<close>. The validators of the fields (\<^verbatim>\<open>f.clean\<close>) and their version test
  (\<^verbatim>\<open>f.supports_version\<close>) are declared in \<^verbatim>\<open>fields.py\<close>; they are the parameters
  \<open>fclean\<close> and \<open>supports\<close>. The version is \<^verbatim>\<open>None\<close> or a version object, which is true.
\<close>

fun EWSElement_clean_loop ::
  "runtime \<Rightarrow> (field \<Rightarrow> 'v \<Rightarrow> bool) \<Rightarrow> (field \<Rightarrow> pyval \<Rightarrow> 'v option \<Rightarrow> error + pyval)
     \<Rightarrow> ews_class \<Rightarrow> 'v option \<Rightarrow> field list \<Rightarrow> (string \<times> pyval) list
     \<Rightarrow> error + (string \<times> pyval) list" where
  "EWSElement_clean_loop R supports fclean c version [] attrs = Inr attrs"
| "EWSElement_clean_loop R supports fclean c version (f # fs) attrs =
     (if (case version of None \<Rightarrow> False | Some v \<Rightarrow> \<not> supports f v)
      then EWSElement_clean_loop R supports fclean c version fs attrs
      else if fkind f = ExtendedPropertyField \<and> \<not> hasattr R c attrs (fname f) then
        (case fclean f PNone version of
           Inl e \<Rightarrow> Inl e
         | Inr v \<Rightarrow>
             (case EWSElement_setattr R c attrs (fname f) v of
                Inl e \<Rightarrow> Inl e
              | Inr attrs' \<Rightarrow> EWSElement_clean_loop R supports fclean c version fs attrs'))
      else
        (case slot_get attrs (fname f) of
           Inl e \<Rightarrow> Inl e
         | Inr val \<Rightarrow>
             (case fclean f val version of
                Inl e \<Rightarrow> Inl e
              | Inr v \<Rightarrow>
                  (case EWSElement_setattr R c attrs (fname f) v of
                     Inl e \<Rightarrow> Inl e
                   | Inr attrs' \<Rightarrow> EWSElement_clean_loop R supports fclean c version fs attrs'))))"

definition EWSElement_clean ::
  "runtime \<Rightarrow> (field \<Rightarrow> 'v \<Rightarrow> bool) \<Rightarrow> (field \<Rightarrow> pyval \<Rightarrow> 'v option \<Rightarrow> error + pyval)
     \<Rightarrow> pyval \<Rightarrow> 'v option \<Rightarrow> error + pyval" where
  "EWSElement_clean R supports fclean self version =
     (case self of
        PElem c attrs \<Rightarrow>
          (case EWSElement_clean_loop R supports fclean c version (FIELDS c) attrs of
             Inl e \<Rightarrow> Inl e
           | Inr attrs' \<Rightarrow> Inr (PElem c attrs'))
      | _ \<Rightarrow> Inl TypeError)"

text \<open>\<^verbatim>\<open>v == n\<close> for an integer \<open>n\<close>: an integer compares by value, an entity answers with
  its \<^verbatim>\<open>__eq__\<close>, and no other value equals an integer.\<close>

fun py_eq_int :: "runtime \<Rightarrow> pyval \<Rightarrow> int \<Rightarrow> error + bool" where
  "py_eq_int R (PInt m) n = Inr (m = n)"
| "py_eq_int R (PElem c a) n = elem_eq R (PElem c a) (PInt n)"
| "py_eq_int R v n = Inr False"

text \<open>\<^verbatim>\<open>self.key = v\<close> on an entity of a type without property setters.\<close>

definition elem_setattr :: "runtime \<Rightarrow> pyval \<Rightarrow> string \<Rightarrow> pyval \<Rightarrow> error + pyval" where
  "elem_setattr R self key v =
     (case self of
        PElem c attrs \<Rightarrow>
          (case EWSElement_setattr R c attrs key v of
             Inl e \<Rightarrow> Inl e
           | Inr attrs' \<Rightarrow> Inr (PElem c attrs'))
      | _ \<Rightarrow> Inl (MissingAttribute key))"

text \<open>The tail that \<^verbatim>\<open>TimeZoneTransition.clean\<close> and \<^verbatim>\<open>TimeZoneTransition.from_xml\<close> share:
  \<^verbatim>\<open>if res.occurrence == -1: res.occurrence = 5\<close>.\<close>

definition settle_occurrence :: "runtime \<Rightarrow> pyval \<Rightarrow> error + pyval" where
  "settle_occurrence R res =
     (case attr_of res ''occurrence'' of
        Inl e \<Rightarrow> Inl e
      | Inr v \<Rightarrow>
          (case py_eq_int R v (- 1) of
             Inl e \<Rightarrow> Inl e
           | Inr b \<Rightarrow> if b then elem_setattr R res ''occurrence'' (PInt 5) else Inr res))"

definition TimeZoneTransition_clean ::
  "runtime \<Rightarrow> (field \<Rightarrow> 'v \<Rightarrow> bool) \<Rightarrow> (field \<Rightarrow> pyval \<Rightarrow> 'v option \<Rightarrow> error + pyval)
     \<Rightarrow> pyval \<Rightarrow> 'v option \<Rightarrow> error + pyval" where
  "TimeZoneTransition_clean R supports fclean self version =
     (case EWSElement_clean R supports fclean self version of
        Inl e \<Rightarrow> Inl e
      | Inr self' \<Rightarrow> settle_occurrence R self')"

text \<open>
  \<^verbatim>\<open>EWSElement.from_xml\<close> for a type that keeps \<^verbatim>\<open>EWSElement.__init__\<close>: every field reads
  its value from the element (\<^verbatim>\<open>f.from_xml\<close>, declared in \<^verbatim>\<open>fields.py\<close>, the parameter
  \<open>fxml\<close>), and the type is called with these keywords. \<^verbatim>\<open>cls._clear(elem)\<close> acts on
  the XML tree alone.
\<close>

definition EWSElement_from_xml ::
  "runtime \<Rightarrow> (field \<Rightarrow> 'x \<Rightarrow> error + pyval) \<Rightarrow> ews_class \<Rightarrow> 'x \<Rightarrow> error + pyval" where
  "EWSElement_from_xml R fxml cls elem =
     (case rmap (\<lambda>f. case fxml f elem of Inl e \<Rightarrow> Inl e | Inr v \<Rightarrow> Inr (fname f, v)) (FIELDS cls) of
        Inl e \<Rightarrow> Inl e
      | Inr kwargs \<Rightarrow> EWSElement_init R cls (dict_of kwargs))"

definition TimeZoneTransition_from_xml ::
  "runtime \<Rightarrow> (field \<Rightarrow> 'x \<Rightarrow> error + pyval) \<Rightarrow> ews_class \<Rightarrow> 'x \<Rightarrow> error + pyval" where
  "TimeZoneTransition_from_xml R fxml cls elem =
     (case EWSElement_from_xml R fxml cls elem of
        Inl e \<Rightarrow> Inl e
      | Inr res \<Rightarrow> settle_occurrence R res)"

definition class_wf :: "ews_class \<Rightarrow> bool" where
  "class_wf c \<longleftrightarrow>
     distinct (map fname (FIELDS c)) \<and> fname ` set (FIELDS c) \<subseteq> set (slots_keys c)"

definition ItemId_like :: "ews_class \<Rightarrow> bool" where
  "ItemId_like c \<longleftrightarrow>
     map fname (FIELDS c) = [''id'', ''changekey''] \<and> slots_keys c = [''id'', ''changekey'']"

section \<open>Server timezone tables\<close>

text \<open>
  The tables \<^verbatim>\<open>GetServerTimeZones\<close> yields, as \<^verbatim>\<open>TimeZone.from_server_timezone\<close> reads them:

  \<^item> \<^verbatim>\<open>periods\<close>: a dictionary from \<^verbatim>\<open>(year, period_type)\<close> to a period, itself a dictionary
    with the keys \<^verbatim>\<open>'name'\<close> and \<^verbatim>\<open>'bias'\<close> (a \<^verbatim>\<open>timedelta\<close>, here in microseconds);
  \<^item> \<^verbatim>\<open>transitions\<close>: a dictionary from the id of a transition group to the date from which
    the group is valid, of which only the year is read (\<^verbatim>\<open>None\<close> when there is no date);
  \<^item> \<^verbatim>\<open>transitionsgroups\<close>: a dictionary from the id of a group to its list of transitions;
  \<^item> a transition: a dictionary with the key \<^verbatim>\<open>'to'\<close> (a key of \<^verbatim>\<open>periods\<close>) and, unless it is
    the simple transition of a zone without daylight saving time, the keys \<^verbatim>\<open>'offset'\<close>
    (a \<^verbatim>\<open>timedelta\<close>), \<^verbatim>\<open>'iso_month'\<close>, \<^verbatim>\<open>'iso_weekday'\<close> and \<^verbatim>\<open>'occurrence'\<close>.

  Dictionaries are association lists in insertion order.
\<close>

record period =
  pname :: string
  pbias :: int

record transition =
  t_to :: "int \<times> string"
  t_offset :: "int option"
  t_iso_month :: "int option"
  t_iso_weekday :: "int option"
  t_occurrence :: "int option"

text \<open>\<^verbatim>\<open>len(transition)\<close>: the key \<^verbatim>\<open>'to'\<close> and the other keys that are present.\<close>

definition transition_len :: "transition \<Rightarrow> nat" where
  "transition_len t =
     1 + (case t_offset t of None \<Rightarrow> 0 | Some _ \<Rightarrow> 1)
       + (case t_iso_month t of None \<Rightarrow> 0 | Some _ \<Rightarrow> 1)
       + (case t_iso_weekday t of None \<Rightarrow> 0 | Some _ \<Rightarrow> 1)
       + (case t_occurrence t of None \<Rightarrow> 0 | Some _ \<Rightarrow> 1)"

text \<open>The number of bits of a natural number.\<close>

fun bit_length :: "nat \<Rightarrow> nat" where
  "bit_length n = (if n = 0 then 0 else Suc (bit_length (n div 2)))"

declare bit_length.simps [simp del]

text \<open>The integer nearest to \<open>p / q\<close>, the even one of the two when \<open>p / q\<close> lies halfway.\<close>

definition round_half_even :: "nat \<Rightarrow> nat \<Rightarrow> nat" where
  "round_half_even p q =
     (let d = p div q; r = p mod q in
      if 2 * r < q then d else if q < 2 * r then d + 1 else if even d then d else d + 1)"

text \<open>
  \<^verbatim>\<open>int(td.total_seconds())\<close> for a \<^verbatim>\<open>timedelta\<close> of \<open>a\<close> microseconds, \<open>a\<close> not negative.
  \<^verbatim>\<open>total_seconds()\<close> is the float \<^verbatim>\<open>a / 10**6\<close>: the quotient rounded to a mantissa of 53
  bits, halfway cases to even. With \<open>n\<close> the number of bits of the whole seconds, the
  mantissa is the quotient scaled by \<open>2 ^ (53 - n)\<close> and rounded; \<^verbatim>\<open>int\<close> drops what lies
  below the unit. (Below one second the float is below one as well.)
\<close>

definition seconds_trunc :: "nat \<Rightarrow> nat" where
  "seconds_trunc a =
     (let n = bit_length (a div 1000000) in
      if n \<le> 53 then round_half_even (a * 2 ^ (53 - n)) 1000000 div 2 ^ (53 - n)
      else round_half_even a (1000000 * 2 ^ (n - 53)) * 2 ^ (n - 53))"

text \<open>\<^verbatim>\<open>int(td.total_seconds()) // 60\<close>: the float of a negative \<^verbatim>\<open>timedelta\<close> is the negated
  float of its absolute value, \<^verbatim>\<open>int\<close> truncates towards zero, \<^verbatim>\<open>//\<close> rounds down.\<close>

definition timedelta_minutes :: "int \<Rightarrow> int" where
  "timedelta_minutes us = (sgn us * int (seconds_trunc (nat \<bar>us\<bar>))) div 60"

text \<open>\<^verbatim>\<open>TimeZone._get_bias\<close>: the loop over \<^verbatim>\<open>sorted(periods.items())\<close>, with its \<^verbatim>\<open>continue\<close>
  and its \<^verbatim>\<open>break\<close>.\<close>

fun get_bias_loop ::
  "int \<Rightarrow> ((int \<times> string) \<times> period) list \<Rightarrow> period option \<Rightarrow> period option" where
  "get_bias_loop for_year [] valid_period = valid_period"
| "get_bias_loop for_year (((year, period_type), p) # rest) valid_period =
     (if period_type \<noteq> ''Standard'' then get_bias_loop for_year rest valid_period
      else if year > for_year then valid_period
      else get_bias_loop for_year rest (Some p))"

definition TimeZone_get_bias :: "((int \<times> string) \<times> period) list \<Rightarrow> int \<Rightarrow> error + int" where
  "TimeZone_get_bias periods for_year =
     (case get_bias_loop for_year (sort_key fst periods) None of
        None \<Rightarrow> Inl NoStandardBias
      | Some p \<Rightarrow> Inr (timedelta_minutes (pbias p)))"

text \<open>\<^verbatim>\<open>TimeZone._get_valid_transition_id\<close>.\<close>

fun valid_transition_loop :: "int \<Rightarrow> (int \<times> int option) list \<Rightarrow> int option \<Rightarrow> int option" where
  "valid_transition_loop for_year [] valid_tg_id = valid_tg_id"
| "valid_transition_loop for_year ((tg_id, from_date) # rest) valid_tg_id =
     (if (case from_date of None \<Rightarrow> False | Some year \<Rightarrow> year > for_year) then valid_tg_id
      else valid_transition_loop for_year rest (Some tg_id))"

definition TimeZone_get_valid_transition_id :: "(int \<times> int option) list \<Rightarrow> int \<Rightarrow> error + int" where
  "TimeZone_get_valid_transition_id transitions for_year =
     (case valid_transition_loop for_year (sort_key fst transitions) None of
        None \<Rightarrow> Inl (NoValidTransition for_year)
      | Some tg_id \<Rightarrow> Inr tg_id)"

text \<open>The two descriptors \<^verbatim>\<open>_get_std_and_dst\<close> builds for a simple transition:
  \<^verbatim>\<open>StandardTime(bias=0, time=datetime.time(0), occurrence=1, iso_month=1, weekday=1)\<close> and
  \<^verbatim>\<open>DaylightTime(bias=0, time=datetime.time(0), occurrence=5, iso_month=12, weekday=7)\<close>.\<close>

definition dummy_standard_kwargs :: "(string \<times> pyval) list" where
  "dummy_standard_kwargs =
     [(''bias'', PInt 0), (''time'', PTime 0), (''occurrence'', PInt 1), (''iso_month'', PInt 1),
      (''weekday'', PInt 1)]"

definition dummy_daylight_kwargs :: "(string \<times> pyval) list" where
  "dummy_daylight_kwargs =
     [(''bias'', PInt 0), (''time'', PTime 0), (''occurrence'', PInt 5), (''iso_month'', PInt 12),
      (''weekday'', PInt 7)]"

text \<open>
  \<^verbatim>\<open>TimeZone._get_std_and_dst\<close>: the loop over the transitions of the group, on the pair
  \<^verbatim>\<open>(standard_time, daylight_time)\<close>, which starts as \<^verbatim>\<open>(None, None)\<close>. A key that is
  missing raises \<^verbatim>\<open>KeyError\<close>, in the order the source reads the keys.
\<close>

fun std_and_dst_loop ::
  "runtime \<Rightarrow> ((int \<times> string) \<times> period) list \<Rightarrow> int \<Rightarrow> transition list \<Rightarrow> pyval \<times> pyval
     \<Rightarrow> error + (pyval \<times> pyval)" where
  "std_and_dst_loop R periods bias [] (standard_time, daylight_time) =
     Inr (standard_time, daylight_time)"
| "std_and_dst_loop R periods bias (t # ts) (standard_time, daylight_time) =
     (case map_of periods (t_to t) of
        None \<Rightarrow> Inl KeyError
      | Some period \<Rightarrow>
          if transition_len t = 1 then
            (case EWSElement_init R StandardTime_cls dummy_standard_kwargs of
               Inl e \<Rightarrow> Inl e
             | Inr std \<Rightarrow>
                 (case EWSElement_init R DaylightTime_cls dummy_daylight_kwargs of
                    Inl e \<Rightarrow> Inl e
                  | Inr dst \<Rightarrow> std_and_dst_loop R periods bias ts (std, dst)))
          else
            (case t_offset t of
               None \<Rightarrow> Inl KeyError
             | Some offset \<Rightarrow>
                 if \<not> (0 \<le> offset \<and> offset < 86400000000) then Inl InvalidTransitionOffset
                 else
                   (case t_occurrence t of
                      None \<Rightarrow> Inl KeyError
                    | Some occurrence \<Rightarrow>
                        (case t_iso_month t of
                           None \<Rightarrow> Inl KeyError
                         | Some iso_month \<Rightarrow>
                             (case t_iso_weekday t of
                                None \<Rightarrow> Inl KeyError
                              | Some iso_weekday \<Rightarrow>
                                  (let transition_kwargs =
                                     [(''time'', PTime (nat offset)), (''occurrence'', PInt occurrence),
                                      (''iso_month'', PInt iso_month), (''weekday'', PInt iso_weekday)]
                                   in if pname period = ''Standard'' then
                                        (case EWSElement_init R StandardTime_cls
                                                (transition_kwargs @ [(''bias'', PInt 0)]) of
                                           Inl e \<Rightarrow> Inl e
                                         | Inr std \<Rightarrow>
                                             std_and_dst_loop R periods bias ts (std, daylight_time))
                                      else if pname period = ''Daylight'' then
                                        (case EWSElement_init R DaylightTime_cls
                                                (transition_kwargs @
                                                 [(''bias'',
                                                   PInt (timedelta_minutes (pbias period) - bias))]) of
                                           Inl e \<Rightarrow> Inl e
                                         | Inr dst \<Rightarrow>
                                             std_and_dst_loop R periods bias ts (standard_time, dst))
                                      else Inl UnknownTransition))))))"

definition TimeZone_get_std_and_dst ::
  "runtime \<Rightarrow> transition list \<Rightarrow> ((int \<times> string) \<times> period) list \<Rightarrow> int \<Rightarrow> error + (pyval \<times> pyval)" where
  "TimeZone_get_std_and_dst R transitiongroup periods bias =
     std_and_dst_loop R periods bias transitiongroup (PNone, PNone)"

text \<open>\<^verbatim>\<open>TimeZone.from_server_timezone\<close>.\<close>

definition TimeZone_from_server_timezone ::
  "runtime \<Rightarrow> ((int \<times> string) \<times> period) list \<Rightarrow> (int \<times> int option) list
     \<Rightarrow> (int \<times> transition list) list \<Rightarrow> int \<Rightarrow> error + pyval" where
  "TimeZone_from_server_timezone R periods transitions transitionsgroups for_year =
     (case TimeZone_get_bias periods for_year of
        Inl e \<Rightarrow> Inl e
      | Inr bias \<Rightarrow>
          (case TimeZone_get_valid_transition_id transitions for_year of
             Inl e \<Rightarrow> Inl e
           | Inr valid_tg_id \<Rightarrow>
               (case map_of transitionsgroups valid_tg_id of
                  None \<Rightarrow> Inl KeyError
                | Some transitiongroup \<Rightarrow>
                    if \<not> (0 \<le> length transitiongroup \<and> length transitiongroup \<le> 2)
                    then Inl TransitionCount
                    else
                      (case TimeZone_get_std_and_dst R transitiongroup periods bias of
                         Inl e \<Rightarrow> Inl e
                       | Inr (standard_time, daylight_time) \<Rightarrow>
                           EWSElement_init R TimeZone_cls
                             [(''bias'', PInt bias), (''standard_time'', standard_time),
                              (''daylight_time'', daylight_time)]))))"

section \<open>Matching a timezone against the server's catalogue\<close>

text \<open>
  The comparisons of \<^verbatim>\<open>TimeZone.to_server_timezone\<close> have a value of the candidate on the
  left, which \<^verbatim>\<open>from_server_timezone\<close> has set to an integer; \<open>int_attr\<close> reads it (its
  \<^verbatim>\<open>TypeError\<close> stands for a left operand that is no integer, which no candidate has).
  \<^verbatim>\<open>a != b\<close> with an integer \<open>a\<close> is the negation of \<open>py_eq_int\<close>.
\<close>

definition int_attr :: "pyval \<Rightarrow> string \<Rightarrow> error + int" where
  "int_attr v k =
     (case attr_of v k of Inl e \<Rightarrow> Inl e | Inr (PInt n) \<Rightarrow> Inr n | Inr _ \<Rightarrow> Inl TypeError)"

text \<open>One of the two blocks on \<^verbatim>\<open>standard_time\<close> and \<^verbatim>\<open>daylight_time\<close>: \<open>True\<close> when the loop
  goes on to the next test, \<open>False\<close> when it \<^verbatim>\<open>continue\<close>s.\<close>

definition transition_bias_matches :: "runtime \<Rightarrow> string \<Rightarrow> pyval \<Rightarrow> pyval \<Rightarrow> error + bool" where
  "transition_bias_matches R k candidate self =
     (case attr_of candidate k of
        Inl e \<Rightarrow> Inl e
      | Inr PNone \<Rightarrow>
          (case attr_of self k of
             Inl e \<Rightarrow> Inl e
           | Inr PNone \<Rightarrow> Inr True
           | Inr _ \<Rightarrow> Inr False)
      | Inr ct \<Rightarrow>
          (case attr_of self k of
             Inl e \<Rightarrow> Inl e
           | Inr PNone \<Rightarrow> Inr False
           | Inr st \<Rightarrow>
               (case int_attr ct ''bias'' of
                  Inl e \<Rightarrow> Inl e
                | Inr cb \<Rightarrow>
                    (case attr_of st ''bias'' of
                       Inl e \<Rightarrow> Inl e
                     | Inr sb \<Rightarrow> py_eq_int R sb cb))))"

text \<open>The three reductions of the loop body, in order; \<open>True\<close> when the candidate is added.\<close>

definition biases_match :: "runtime \<Rightarrow> pyval \<Rightarrow> pyval \<Rightarrow> error + bool" where
  "biases_match R candidate self =
     (case int_attr candidate ''bias'' of
        Inl e \<Rightarrow> Inl e
      | Inr cb \<Rightarrow>
          (case attr_of self ''bias'' of
             Inl e \<Rightarrow> Inl e
           | Inr sb \<Rightarrow>
               (case py_eq_int R sb cb of
                  Inl e \<Rightarrow> Inl e
                | Inr False \<Rightarrow> Inr False
                | Inr True \<Rightarrow>
                    (case transition_bias_matches R ''standard_time'' candidate self of
                       Inl e \<Rightarrow> Inl e
                     | Inr False \<Rightarrow> Inr False
                     | Inr True \<Rightarrow> transition_bias_matches R ''daylight_time'' candidate self))))"

text \<open>An entry of the catalogue: \<^verbatim>\<open>(tz_id, tz_name, tz_periods, tz_transitions, tz_transitions_groups)\<close>.\<close>

type_synonym server_timezone =
  "string \<times> string \<times> ((int \<times> string) \<times> period) list \<times> (int \<times> int option) list
     \<times> (int \<times> transition list) list"

datatype tz_search = ExactMatch string | Candidates "string set"

text \<open>The loop of \<^verbatim>\<open>to_server_timezone\<close> on the set \<^verbatim>\<open>candidates\<close>; an exact match ends it.\<close>

fun to_server_timezone_loop ::
  "runtime \<Rightarrow> pyval \<Rightarrow> int \<Rightarrow> server_timezone list \<Rightarrow> string set \<Rightarrow> error + tz_search" where
  "to_server_timezone_loop R self for_year [] candidates = Inr (Candidates candidates)"
| "to_server_timezone_loop R self for_year
       ((tz_id, tz_name, tz_periods, tz_transitions, tz_transitions_groups) # rest) candidates =
     (case TimeZone_from_server_timezone R tz_periods tz_transitions tz_transitions_groups for_year of
        Inl e \<Rightarrow> Inl e
      | Inr candidate \<Rightarrow>
          (case elem_eq R candidate self of
             Inl e \<Rightarrow> Inl e
           | Inr True \<Rightarrow> Inr (ExactMatch tz_id)
           | Inr False \<Rightarrow>
               (case biases_match R candidate self of
                  Inl e \<Rightarrow> Inl e
                | Inr False \<Rightarrow> to_server_timezone_loop R self for_year rest candidates
                | Inr True \<Rightarrow>
                    to_server_timezone_loop R self for_year rest (insert tz_id candidates))))"

text \<open>
  \<^verbatim>\<open>TimeZone.to_server_timezone\<close>. \<^verbatim>\<open>candidates.pop()\<close> returns an arbitrary member of the
  set, so the result is the set of the ids the call may return: one id after an exact
  match, the whole set of candidates otherwise.
\<close>

definition TimeZone_to_server_timezone ::
  "runtime \<Rightarrow> pyval \<Rightarrow> server_timezone list \<Rightarrow> int \<Rightarrow> error + string set" where
  "TimeZone_to_server_timezone R self timezones for_year =
     (case to_server_timezone_loop R self for_year timezones {} of
        Inl e \<Rightarrow> Inl e
      | Inr (ExactMatch tz_id) \<Rightarrow> Inr {tz_id}
      | Inr (Candidates candidates) \<Rightarrow>
          if candidates = {} then Inl NoMatchingTimezone else Inr candidates)"

definition dummy_standard_time :: pyval where
  "dummy_standard_time = PElem StandardTime_cls dummy_standard_kwargs"

definition dummy_daylight_time :: pyval where
  "dummy_daylight_time = PElem DaylightTime_cls dummy_daylight_kwargs"

definition example_periods :: "((int \<times> string) \<times> period) list" where
  "example_periods = [((2020, ''Standard''), \<lparr>pname = ''Standard'', pbias = 7200000000\<rparr>)]"

definition simple_transition :: transition where
  "simple_transition =
     \<lparr>t_to = (2020, ''Standard''), t_offset = None, t_iso_month = None, t_iso_weekday = None,
      t_occurrence = None\<rparr>"

text \<open>The candidate the loop derives from an entry of the catalogue.\<close>

definition tz_candidate :: "runtime \<Rightarrow> int \<Rightarrow> server_timezone \<Rightarrow> error + pyval" where
  "tz_candidate R for_year entry =
     (case entry of
        (tz_id, tz_name, tz_periods, tz_transitions, tz_transitions_groups) \<Rightarrow>
          TimeZone_from_server_timezone R tz_periods tz_transitions tz_transitions_groups for_year)"

text \<open>An entry that the loop passes without an exception and without an exact match.\<close>

definition inexact_entry :: "runtime \<Rightarrow> pyval \<Rightarrow> int \<Rightarrow> server_timezone \<Rightarrow> bool" where
  "inexact_entry R self for_year entry =
     (case tz_candidate R for_year entry of
        Inl e \<Rightarrow> False
      | Inr candidate \<Rightarrow>
          elem_eq R candidate self = Inr False
          \<and> (case biases_match R candidate self of Inl e \<Rightarrow> False | Inr b \<Rightarrow> True))"

text \<open>An entry whose candidate passes the three reductions.\<close>

definition qualifies :: "runtime \<Rightarrow> pyval \<Rightarrow> int \<Rightarrow> server_timezone \<Rightarrow> bool" where
  "qualifies R self for_year entry =
     (case tz_candidate R for_year entry of
        Inl e \<Rightarrow> False
      | Inr candidate \<Rightarrow> biases_match R candidate self = Inr True)"

text \<open>
  The biases of a timezone whose \<^verbatim>\<open>bias\<close> is an integer and whose \<^verbatim>\<open>standard_time\<close> and
  \<^verbatim>\<open>daylight_time\<close> are \<^verbatim>\<open>None\<close> or carry an integer \<^verbatim>\<open>bias\<close>: the base bias and, for each
  of the two, \<open>None\<close> when it is absent and its bias when it is present.
\<close>

definition side_bias :: "pyval \<Rightarrow> string \<Rightarrow> int option option" where
  "side_bias v k =
     (case attr_of v k of
        Inl e \<Rightarrow> None
      | Inr PNone \<Rightarrow> Some None
      | Inr t \<Rightarrow> (case int_attr t ''bias'' of Inl e \<Rightarrow> None | Inr n \<Rightarrow> Some (Some n)))"

definition tz_biases :: "pyval \<Rightarrow> (int \<times> int option \<times> int option) option" where
  "tz_biases v =
     (case int_attr v ''bias'' of
        Inl e \<Rightarrow> None
      | Inr b \<Rightarrow>
          (case side_bias v ''standard_time'' of
             None \<Rightarrow> None
           | Some s \<Rightarrow>
               (case side_bias v ''daylight_time'' of
                  None \<Rightarrow> None
                | Some d \<Rightarrow> Some (b, s, d))))"

definition side_ok :: "pyval \<Rightarrow> bool" where
  "side_ok v \<longleftrightarrow> v = PNone \<or> (\<exists>n. int_attr v ''bias'' = Inr n)"

definition example_timezone :: "int \<Rightarrow> pyval \<Rightarrow> pyval \<Rightarrow> pyval" where
  "example_timezone b s d =
     PElem TimeZone_cls [(''bias'', PInt b), (''standard_time'', s), (''daylight_time'', d)]"

definition example_entry :: "string \<Rightarrow> int \<Rightarrow> transition list \<Rightarrow> server_timezone" where
  "example_entry tz_id us grp =
     (tz_id, ''name'', [((2020, ''Standard''), \<lparr>pname = ''Standard'', pbias = us\<rparr>)],
      [(0, None)], [(0, grp)])"

text \<open>
  A catalogue entry of a zone with daylight saving time: a standard period of 120 minutes and
  a daylight period of 180 minutes, and the two transitions of the year, both on the last
  Sunday of their month (October and March) at the given hour.
\<close>

definition dst_periods :: "((int \<times> string) \<times> period) list" where
  "dst_periods =
     [((2020, ''Standard''), \<lparr>pname = ''Standard'', pbias = 7200000000\<rparr>),
      ((2020, ''Daylight''), \<lparr>pname = ''Daylight'', pbias = 10800000000\<rparr>)]"

definition dst_transition :: "string \<Rightarrow> nat \<Rightarrow> int \<Rightarrow> transition" where
  "dst_transition period_type hour month =
     \<lparr>t_to = (2020, period_type), t_offset = Some (int hour * 3600000000),
      t_iso_month = Some month, t_iso_weekday = Some 7, t_occurrence = Some 5\<rparr>"

definition example_dst_entry :: "string \<Rightarrow> nat \<Rightarrow> server_timezone" where
  "example_dst_entry tz_id hour =
     (tz_id, ''name'', dst_periods, [(0, None)],
      [(0, [dst_transition ''Standard'' hour 10, dst_transition ''Daylight'' hour 3])])"

text \<open>The timezone of such an entry.\<close>

definition example_dst_timezone :: "nat \<Rightarrow> pyval" where
  "example_dst_timezone hour =
     example_timezone 120
       (PElem StandardTime_cls
          [(''bias'', PInt 0), (''time'', PTime (hour * 3600000000)), (''occurrence'', PInt 5),
           (''iso_month'', PInt 10), (''weekday'', PInt 7)])
       (PElem DaylightTime_cls
          [(''bias'', PInt 60), (''time'', PTime (hour * 3600000000)), (''occurrence'', PInt 5),
           (''iso_month'', PInt 3), (''weekday'', PInt 7)])"

text \<open>An entry without a period.\<close>

definition example_bad_entry :: "string \<Rightarrow> server_timezone" where
  "example_bad_entry tz_id = (tz_id, ''name'', [], [(0, None)], [(0, [])])"

text \<open>
  CPython's \<^verbatim>\<open>hash\<close> of an integer (on a 64-bit build): the absolute value modulo
  \<open>2 ^ 61 - 1\<close> with the sign of the integer, and -2 in place of -1. The second runtime of the
  examples is the first with this hash of the integers.
\<close>

definition cpython_int_hash :: "int \<Rightarrow> int" where
  "cpython_int_hash n =
     (let h = sgn n * (\<bar>n\<bar> mod (2 ^ 61 - 1)) in if h = - 1 then - 2 else h)"

definition cpython_runtime :: runtime where
  "cpython_runtime =
     example_runtime
       \<lparr>hash_atom := (\<lambda>v. case v of PInt n \<Rightarrow> cpython_int_hash n | _ \<Rightarrow> hash_atom example_runtime v)\<rparr>"

section \<open>The schema container: uniqueness of names and order\<close>

lemma Fields_fill_ok:
  "distinct (map fname fs) \<Longrightarrow> (\<forall>f\<in>set fs. d (fname f) = None) \<Longrightarrow>
   Fields_fill fs d = Inr (d ++ map_of (map (\<lambda>f. (fname f, f)) fs))"
proof (induction fs arbitrary: d)
  case Nil
  then show ?case by simp
next
  case (Cons f fs)
  have d: "d (fname f) = None" using Cons.prems by simp
  have step: "Fields_fill (f # fs) d = Fields_fill fs (d(fname f \<mapsto> f))" using d by simp
  have A: "Fields_fill fs (d(fname f \<mapsto> f)) = Inr (d(fname f \<mapsto> f) ++ map_of (map (\<lambda>f. (fname f, f)) fs))"
    using Cons.prems by (intro Cons.IH) (auto simp: image_iff)
  have B: "d(fname f \<mapsto> f) ++ map_of (map (\<lambda>f. (fname f, f)) fs)
      = d ++ map_of (map (\<lambda>f. (fname f, f)) (f # fs))"
  proof (rule ext)
    fix k
    have nf: "map_of (map (\<lambda>f. (fname f, f)) fs) (fname f) = None"
      using Cons.prems(1) by (auto simp: map_of_eq_None_iff image_image)
    show "(d(fname f \<mapsto> f) ++ map_of (map (\<lambda>f. (fname f, f)) fs)) k
      = (d ++ map_of (map (\<lambda>f. (fname f, f)) (f # fs))) k"
      using nf by (auto simp: map_add_def split: option.splits)
  qed
  show ?case by (simp only: step A B)
qed

lemma Fields_fill_dup:
  "\<not> (distinct (map fname fs) \<and> (\<forall>f\<in>set fs. d (fname f) = None)) \<Longrightarrow>
   \<exists>n. Fields_fill fs d = Inl (DuplicateField n) \<and> n \<in> fname ` set fs"
proof (induction fs arbitrary: d)
  case Nil
  then show ?case by simp
next
  case (Cons f fs)
  show ?case
  proof (cases "d (fname f)")
    case (Some a)
    then show ?thesis by simp
  next
    case None
    have "\<not> (distinct (map fname fs) \<and> (\<forall>g\<in>set fs. (d(fname f \<mapsto> f)) (fname g) = None))"
      using Cons.prems None by auto
    from Cons.IH[OF this] obtain n where
      "Fields_fill fs (d(fname f \<mapsto> f)) = Inl (DuplicateField n)" "n \<in> fname ` set fs" by blast
    then show ?thesis using None by auto
  qed
qed

lemma Fields_init_ok:
  "distinct (map fname fs) \<Longrightarrow>
   Fields_init fs = Inr \<lparr>items = fs, dict = map_of (map (\<lambda>f. (fname f, f)) fs)\<rparr>"
  by (simp add: Fields_init_def Fields_fill_ok)

lemma Fields_init_dup:
  "\<not> distinct (map fname fs) \<Longrightarrow>
   \<exists>n. Fields_init fs = Inl (DuplicateField n) \<and> n \<in> fname ` set fs"
  using Fields_fill_dup[of fs Map.empty] by (auto simp: Fields_init_def)

lemma Fields_init_inv: "Fields_init fs = Inr F \<Longrightarrow> Fields_inv F \<and> items F = fs"
  using Fields_init_ok[of fs] Fields_init_dup[of fs]
  by (cases "distinct (map fname fs)") (auto simp: Fields_inv_def)

lemma Fields_inv_dict_dom:
  "Fields_inv F \<Longrightarrow> (dict F n \<noteq> None) = (n \<in> fname ` set (items F))"
  by (auto simp: Fields_inv_def map_of_eq_None_iff image_image)

lemma list_insert_set: "set (list_insert i x xs) = insert x (set xs)"
  unfolding list_insert_def Let_def
  by (metis append_take_drop_id list.simps(15) set_append Un_insert_right append_Cons append_Nil)

lemma list_insert_split:
  "\<exists>k \<le> length xs. list_insert i x xs = take k xs @ x # drop k xs"
  unfolding list_insert_def Let_def by (rule exI[of _ "min (length xs) (nat (if i < 0 then max 0 (i + int (length xs)) else min i (int (length xs))))"]) auto

lemma subseq_map_nth:
  "sorted_wrt (<) ns \<Longrightarrow> (\<forall>i\<in>set ns. i < length xs) \<Longrightarrow> subseq (map ((!) xs) ns) xs"
proof (induction xs arbitrary: ns)
  case Nil
  then show ?case by (cases ns) auto
next
  case (Cons x xs)
  show ?case
  proof (cases ns)
    case Nil
    then show ?thesis by simp
  next
    case (Cons n ns')
    have pos: "\<forall>i\<in>set ns'. 0 < i" using Cons.prems(1) Cons by auto
    have tl: "map ((!) (x # xs)) ns' = map ((!) xs) (map (\<lambda>i. i - 1) ns')"
      using pos by (auto simp: nth_Cons')
    have srt: "sorted_wrt (<) (map (\<lambda>i. i - 1) ns')"
      using Cons.prems(1) Cons pos by (auto simp: sorted_wrt_map intro!: sorted_wrt_mono_rel[where P="(<)"])
    have rng: "\<forall>i\<in>set (map (\<lambda>i. i - 1) ns'). i < length xs"
      using Cons.prems(2) Cons pos by fastforce
    have IH: "subseq (map ((!) xs) (map (\<lambda>i. i - 1) ns')) xs"
      using Cons.IH[OF srt rng] .
    show ?thesis
    proof (cases "n = 0")
      case True
      have "map ((!) (x # xs)) ns = x # map ((!) (x # xs)) ns'" using True Cons by simp
      also have "\<dots> = x # map ((!) xs) (map (\<lambda>i. i - 1) ns')" by (simp only: tl)
      finally show ?thesis using IH by simp
    next
      case False
      have srt2: "sorted_wrt (<) (map (\<lambda>i. i - 1) ns)"
        using Cons.prems(1) Cons pos False
        by (auto simp: sorted_wrt_map intro!: sorted_wrt_mono_rel[where P="(<)"])
      have rng2: "\<forall>i\<in>set (map (\<lambda>i. i - 1) ns). i < length xs"
        using Cons.prems(2) Cons pos False by fastforce
      have eq: "map ((!) (x # xs)) ns = map ((!) xs) (map (\<lambda>i. i - 1) ns)"
        using pos False Cons by (auto simp: nth_Cons')
      have "subseq (map ((!) xs) (map (\<lambda>i. i - 1) ns)) (x # xs)"
        using Cons.IH[OF srt2 rng2] by (rule list_emb_Cons)
      then show ?thesis by (simp only: eq)
    qed
  qed
qed

lemma slice_adjust_range:
  "0 < step \<Longrightarrow> 0 \<le> n \<Longrightarrow> 0 \<le> slice_adjust n step i \<and> slice_adjust n step i \<le> n"
  by (auto simp: slice_adjust_def)

lemma div_mult_le_int: "0 < (s::int) \<Longrightarrow> 0 \<le> q \<Longrightarrow> int k \<le> q div s \<Longrightarrow> int k * s \<le> q"
proof -
  assume s: "0 < s" and q: "0 \<le> q" and k: "int k \<le> q div s"
  have "int k * s \<le> (q div s) * s" using k s by (simp add: mult_right_mono)
  also have "\<dots> \<le> q" using s by (metis mult.commute pos_mod_sign add_increasing2 mult_div_mod_eq order_refl)
  finally show ?thesis .
qed

lemma slice_indices_range:
  assumes "0 < step" "0 \<le> n"
  shows "\<forall>i\<in>set (slice_indices n start stop step). 0 \<le> i \<and> i < n"
proof -
  define lo where "lo = (case start of None \<Rightarrow> 0 | Some s \<Rightarrow> slice_adjust n step s)"
  define hi where "hi = (case stop of None \<Rightarrow> n | Some s \<Rightarrow> slice_adjust n step s)"
  have lo: "0 \<le> lo" and hi: "hi \<le> n"
    using slice_adjust_range[OF assms] by (auto simp: lo_def hi_def split: option.splits)
  have *: "slice_indices n start stop step =
      map (\<lambda>k. lo + int k * step) [0 ..< nat (if lo < hi then (hi - lo - 1) div step + 1 else 0)]"
    using assms by (simp add: slice_indices_def lo_def hi_def Let_def)
  show ?thesis
  proof (cases "lo < hi")
    case False
    then show ?thesis by (simp add: *)
  next
    case True
    have q: "0 \<le> hi - lo - 1" using True by simp
    have d: "0 \<le> (hi - lo - 1) div step" using q assms by (simp add: pos_imp_zdiv_nonneg_iff)
    { fix k assume "k < nat ((hi - lo - 1) div step + 1)"
      then have "int k \<le> (hi - lo - 1) div step" using d by linarith
      then have "int k * step \<le> hi - lo - 1" using div_mult_le_int[OF assms(1) q] by blast
      then have "0 \<le> lo + int k * step \<and> lo + int k * step < n"
        using lo hi assms(1) by (auto simp: add_nonneg_nonneg)
    }
    then show ?thesis using True by (auto simp: *)
  qed
qed

lemma slice_indices_sorted:
  assumes "0 < step"
  shows "sorted_wrt (<) (slice_indices n start stop step)"
proof -
  have "sorted_wrt (<) (map (\<lambda>k. lo + int k * step) [0 ..< m])" for lo m
    using assms by (simp add: sorted_wrt_map sorted_wrt_iff_nth_less)
  then show ?thesis by (simp add: slice_indices_def Let_def)
qed

lemma list_slice_subseq:
  assumes "list_slice xs start stop step = Inr ys" "step = None \<or> (\<exists>s. step = Some s \<and> 0 < s)"
  shows "subseq ys xs"
proof -
  define st where "st = (case step of None \<Rightarrow> 1 | Some s \<Rightarrow> s)"
  have st: "0 < st" using assms(2) by (auto simp: st_def)
  define ns where "ns = slice_indices (int (length xs)) start stop st"
  have ys: "ys = map ((!) xs) (map nat ns)"
    using assms(1) st by (auto simp: list_slice_def st_def ns_def Let_def comp_def)
  have rng: "\<forall>i\<in>set ns. 0 \<le> i \<and> i < int (length xs)"
    unfolding ns_def by (rule slice_indices_range[OF st]) simp
  have "sorted_wrt (<) ns" unfolding ns_def by (rule slice_indices_sorted[OF st])
  then have "sorted_wrt (<) (map nat ns)"
    using rng by (auto simp: sorted_wrt_map intro!: sorted_wrt_mono_rel[where P="(<)"])
  moreover have "\<forall>i\<in>set (map nat ns). i < length xs" using rng by auto
  ultimately show ?thesis unfolding ys by (rule subseq_map_nth)
qed

lemma list_slice_returns:
  "step = None \<or> (\<exists>s. step = Some s \<and> 0 < s) \<Longrightarrow> \<exists>ys. list_slice xs start stop step = Inr ys"
  by (auto simp: list_slice_def)

lemma subseq_distinct_names:
  "subseq ys xs \<Longrightarrow> distinct (map fname xs) \<Longrightarrow> distinct (map fname ys)"
proof -
  assume s: "subseq ys xs" and d: "distinct (map fname xs)"
  have "subseq (map fname ys) (map fname xs)" using s by (rule subseq_map)
  then obtain N where "map fname ys = nths (map fname xs) N"
    by (auto simp: subseq_conv_nths)
  then show ?thesis using d by simp
qed

lemma Fields_inv_of: "distinct (map fname fs) \<Longrightarrow> Fields_inv (Fields_of fs)"
  by (simp add: Fields_inv_def Fields_of_def)

lemma Fields_inv_eq_of: "Fields_inv F \<Longrightarrow> F = Fields_of (items F)"
  by (simp add: Fields_inv_def Fields_of_def)

lemma Fields_init_of: "distinct (map fname fs) \<Longrightarrow> Fields_init fs = Inr (Fields_of fs)"
  by (simp add: Fields_init_ok Fields_of_def)

lemma distinct_insert_mid:
  assumes "distinct ns" "n \<notin> set ns"
  shows "distinct (take k ns @ n # drop k ns)"
proof -
  have "distinct (take k ns @ drop k ns)" using assms(1) by simp
  then have "distinct (take k ns) \<and> distinct (drop k ns) \<and> set (take k ns) \<inter> set (drop k ns) = {}"
    by (simp only: distinct_append)
  then show ?thesis using assms(2) by (auto dest: in_set_takeD in_set_dropD)
qed

lemma Fields_insert_new:
  assumes "Fields_inv F" "fname f \<notin> fname ` set (items F)"
  shows "\<exists>F'. Fields_insert F i f = (F', None) \<and> Fields_inv F'
           \<and> set (items F') = insert f (set (items F)) \<and> subseq (items F) (items F')"
proof -
  have none: "dict F (fname f) = None"
    using Fields_inv_dict_dom[OF assms(1), of "fname f"] assms(2) by blast
  obtain k where k: "k \<le> length (items F)"
    "list_insert i f (items F) = take k (items F) @ f # drop k (items F)"
    using list_insert_split[of "items F" i f] by (elim exE conjE)
  let ?xs = "items F"
  let ?F' = "\<lparr>items = list_insert i f ?xs, dict = (dict F)(fname f \<mapsto> f)\<rparr>"
  have ins: "Fields_insert F i f = (?F', None)" using none by (simp add: Fields_insert_def)
  have dxs: "distinct (map fname ?xs)" using assms(1) by (simp add: Fields_inv_def)
  have "distinct (take k (map fname ?xs) @ fname f # drop k (map fname ?xs))"
    using dxs assms(2) by (intro distinct_insert_mid) auto
  then have d': "distinct (map fname (list_insert i f ?xs))"
    unfolding k(2) by (simp add: take_map drop_map)
  have dict': "(dict F)(fname f \<mapsto> f) = map_of (map (\<lambda>f. (fname f, f)) (list_insert i f ?xs))"
  proof -
    define P where "P = map_of (map (\<lambda>f. (fname f, f)) (take k ?xs))"
    define Q where "Q = map_of (map (\<lambda>f. (fname f, f)) (drop k ?xs))"
    have "map_of (map (\<lambda>f. (fname f, f)) (take k ?xs @ drop k ?xs)) = Q ++ P"
      unfolding P_def Q_def by (simp only: map_append map_of_append)
    then have m: "dict F = Q ++ P"
      using assms(1) by (simp add: Fields_inv_def)
    have tk: "P (fname f) = None"
      unfolding P_def using assms(2) by (auto simp: map_of_eq_None_iff image_iff dest: in_set_takeD)
    have "map_of (map (\<lambda>f. (fname f, f)) (take k ?xs @ f # drop k ?xs)) = Q(fname f \<mapsto> f) ++ P"
      unfolding P_def Q_def by (simp only: map_append map_of_append list.map map_of.simps fst_conv snd_conv)
    moreover have "(Q ++ P)(fname f \<mapsto> f) = Q(fname f \<mapsto> f) ++ P"
      using tk by (intro ext) (auto simp: map_add_def split: option.splits)
    ultimately show ?thesis unfolding k(2) m by simp
  qed
  have sub: "subseq ?xs (list_insert i f ?xs)"
  proof -
    have "subseq (take k ?xs @ drop k ?xs) (take k ?xs @ f # drop k ?xs)"
      by (intro list_emb_append_mono) auto
    then show ?thesis unfolding k(2) by simp
  qed
  show ?thesis
    using ins d' dict' sub by (auto simp: Fields_inv_def list_insert_set)
qed

lemma Fields_copy_id: "Fields_inv F \<Longrightarrow> Fields_copy F = Inr F"
  using Fields_init_of[of "items F"] Fields_inv_eq_of[of F]
  by (simp add: Fields_copy_def Fields_inv_def)

lemma Fields_getitem_slice:
  assumes "Fields_inv F" "case step of None \<Rightarrow> True | Some s \<Rightarrow> 0 < s"
  shows "\<exists>H. Fields_getitem F (BySlice start stop step) = Inr (AFields H)
            \<and> subseq (items H) (items F) \<and> Fields_inv H"
proof -
  have st: "step = None \<or> (\<exists>s. step = Some s \<and> 0 < s)"
    using assms(2) by (cases step) auto
  obtain ys where ys: "list_slice (items F) start stop step = Inr ys"
    using list_slice_returns[OF st, of "items F" start stop] by (elim exE)
  have sub: "subseq ys (items F)" using list_slice_subseq[OF ys st] .
  have "distinct (map fname ys)"
    using sub assms(1) by (auto simp: Fields_inv_def intro: subseq_distinct_names)
  then have "Fields_init ys = Inr (Fields_of ys)" "Fields_inv (Fields_of ys)"
    by (simp_all add: Fields_init_of Fields_inv_of)
  then show ?thesis using ys sub by (simp add: Fields_getitem_def Fields_of_def)
qed

lemma Fields_add_disjoint:
  assumes "Fields_inv F" "Fields_inv G" "fname ` set (items F) \<inter> fname ` set (items G) = {}"
  shows "\<exists>H. Fields_add F G = Inr H \<and> items H = items F @ items G \<and> Fields_inv H"
proof -
  have "distinct (map fname (items F @ items G))"
    using assms by (simp add: Fields_inv_def)
  then have "Fields_init (items F @ items G) = Inr (Fields_of (items F @ items G))"
      "Fields_inv (Fields_of (items F @ items G))"
    by (simp_all only: Fields_init_of Fields_inv_of)
  then show ?thesis by (simp add: Fields_add_def Fields_of_def)
qed

lemma Fields_add_overlap:
  assumes "fname ` set (items F) \<inter> fname ` set (items G) \<noteq> {}"
  shows "\<exists>n. Fields_add F G = Inl (DuplicateField n)"
proof -
  have "\<not> distinct (map fname (items F @ items G))"
    using assms by simp
  from Fields_init_dup[OF this] show ?thesis
    unfolding Fields_add_def by (elim exE conjE) (rule exI)
qed

text \<open>
  Claim C8. \<^verbatim>\<open>Fields.__init__\<close> keeps a field sequence whose names are pairwise distinct, and the container it
  builds satisfies the invariant (unique names, and an index that maps every name to its
  field); on a sequence in which two fields share a name it fails with the duplicate-field error
  for a name of the sequence. \<^verbatim>\<open>Fields.insert\<close> of a field whose name is already in the container fails with
  the duplicate-field error for that name and leaves the container as it was; of a field with a
  new name it succeeds, keeps the invariant and the fields that were there, in their order. So a
  container with the invariant never holds two fields of one name.
\<close>

theorem Fields_names_unique:
  "(distinct (map fname fs) \<longrightarrow>
      (\<exists>F. Fields_init fs = Inr F \<and> items F = fs \<and> Fields_inv F))
   \<and> (\<not> distinct (map fname fs) \<longrightarrow>
      (\<exists>n. Fields_init fs = Inl (DuplicateField n) \<and> n \<in> fname ` set fs))
   \<and> (Fields_inv F \<and> fname f \<in> fname ` set (items F) \<longrightarrow>
      Fields_insert F i f = (F, Some (DuplicateField (fname f))))
   \<and> (Fields_inv F \<and> fname f \<notin> fname ` set (items F) \<longrightarrow>
      (\<exists>F'. Fields_insert F i f = (F', None) \<and> Fields_inv F'
          \<and> set (items F') = insert f (set (items F)) \<and> subseq (items F) (items F')))
   \<and> (Fields_inv F \<longrightarrow> distinct (map fname (items F)))"
proof (intro conjI impI)
  assume "distinct (map fname fs)"
  then show "\<exists>F. Fields_init fs = Inr F \<and> items F = fs \<and> Fields_inv F"
    by (simp add: Fields_init_ok Fields_inv_def)
next
  assume "\<not> distinct (map fname fs)"
  then show "\<exists>n. Fields_init fs = Inl (DuplicateField n) \<and> n \<in> fname ` set fs"
    by (rule Fields_init_dup)
next
  assume a: "Fields_inv F \<and> fname f \<in> fname ` set (items F)"
  then have "dict F (fname f) \<noteq> None" using Fields_inv_dict_dom[of F "fname f"] by blast
  then show "Fields_insert F i f = (F, Some (DuplicateField (fname f)))"
    by (auto simp: Fields_insert_def)
next
  assume "Fields_inv F \<and> fname f \<notin> fname ` set (items F)"
  then show "\<exists>F'. Fields_insert F i f = (F', None) \<and> Fields_inv F'
          \<and> set (items F') = insert f (set (items F)) \<and> subseq (items F) (items F')"
    using Fields_insert_new by blast
next
  assume "Fields_inv F"
  then show "distinct (map fname (items F))" by (simp add: Fields_inv_def)
qed

theorem Fields_names_unique_witness:
  "Fields_inv (Fields_of TimeZone_FIELDS)
   \<and> (\<exists>F. Fields_init TimeZone_FIELDS = Inr F \<and> items F = TimeZone_FIELDS \<and> Fields_inv F)
   \<and> (\<exists>n. Fields_init [plain_field ''bias'', plain_field ''time'', plain_field ''bias'']
            = Inl (DuplicateField n)
          \<and> n \<in> fname ` set [plain_field ''bias'', plain_field ''time'', plain_field ''bias''])
   \<and> Fields_insert (Fields_of TimeZone_FIELDS) 1 (plain_field ''bias'')
       = (Fields_of TimeZone_FIELDS, Some (DuplicateField (fname (plain_field ''bias''))))
   \<and> (\<exists>F'. Fields_insert (Fields_of TimeZone_FIELDS) 1 (plain_field ''year'') = (F', None)
          \<and> Fields_inv F'
          \<and> set (items F') = insert (plain_field ''year'') (set (items (Fields_of TimeZone_FIELDS)))
          \<and> subseq (items (Fields_of TimeZone_FIELDS)) (items F'))
   \<and> distinct (map fname (items (Fields_of TimeZone_FIELDS)))"
proof -
  let ?F = "Fields_of TimeZone_FIELDS"
  let ?dup = "[plain_field ''bias'', plain_field ''time'', plain_field ''bias'']"
  have d: "distinct (map fname TimeZone_FIELDS)"
    by (simp add: TimeZone_FIELDS_def plain_field_def)
  have inv: "Fields_inv ?F" using d by (rule Fields_inv_of)
  have nd: "\<not> distinct (map fname ?dup)"
    by (simp add: plain_field_def)
  have old: "fname (plain_field ''bias'') \<in> fname ` set (items ?F)"
    by (simp add: TimeZone_FIELDS_def plain_field_def Fields_of_def)
  have new: "fname (plain_field ''year'') \<notin> fname ` set (items ?F)"
    by (simp add: TimeZone_FIELDS_def plain_field_def Fields_of_def)
  note T1 = Fields_names_unique[of TimeZone_FIELDS ?F "plain_field ''bias''" 1]
  note T2 = Fields_names_unique[of ?dup ?F "plain_field ''year''" 1]
  note c1 = T1[THEN conjunct1, rule_format, OF d]
  note c2 = T2[THEN conjunct2, THEN conjunct1, rule_format, OF nd]
  note c3 = T1[THEN conjunct2, THEN conjunct2, THEN conjunct1, rule_format, OF conjI[OF inv old]]
  note c4 = T2[THEN conjunct2, THEN conjunct2, THEN conjunct2, THEN conjunct1, rule_format,
      OF conjI[OF inv new]]
  note c5 = T1[THEN conjunct2, THEN conjunct2, THEN conjunct2, THEN conjunct2, rule_format, OF inv]
  show ?thesis
    apply (rule conjI[OF inv])
    apply (rule conjI[OF c1])
    apply (rule conjI[OF c2])
    apply (rule conjI[OF c3])
    apply (rule conjI[OF c4])
    apply (rule c5)
    done
qed

text \<open>
  Claim C9 (as amended). On a container with unique names, \<^verbatim>\<open>copy()\<close> returns an equal container;
  \<^verbatim>\<open>__add__\<close> with a container that shares no name with it returns the container of its fields
  followed by the other's, and with a container that shares a name it fails with the
  duplicate-field error; a slice with an omitted or positive step returns a container whose
  fields are a subsequence of the fields of the source, in their order.
\<close>

theorem Fields_order_preserved:
  assumes "Fields_inv F"
  shows "Fields_copy F = Inr F
    \<and> (Fields_inv G \<and> fname ` set (items F) \<inter> fname ` set (items G) = {} \<longrightarrow>
          (\<exists>H. Fields_add F G = Inr H \<and> items H = items F @ items G \<and> Fields_inv H))
    \<and> (fname ` set (items F) \<inter> fname ` set (items G) \<noteq> {} \<longrightarrow>
          (\<exists>n. Fields_add F G = Inl (DuplicateField n)))
    \<and> ((case step of None \<Rightarrow> True | Some s \<Rightarrow> 0 < s) \<longrightarrow>
          (\<exists>H. Fields_getitem F (BySlice start stop step) = Inr (AFields H)
              \<and> subseq (items H) (items F) \<and> Fields_inv H))"
proof (intro conjI impI)
  show "Fields_copy F = Inr F" using assms by (rule Fields_copy_id)
next
  assume "Fields_inv G \<and> fname ` set (items F) \<inter> fname ` set (items G) = {}"
  then show "\<exists>H. Fields_add F G = Inr H \<and> items H = items F @ items G \<and> Fields_inv H"
    using Fields_add_disjoint[OF assms, of G] by (elim conjE)
next
  assume "fname ` set (items F) \<inter> fname ` set (items G) \<noteq> {}"
  then show "\<exists>n. Fields_add F G = Inl (DuplicateField n)" by (rule Fields_add_overlap)
next
  assume "case step of None \<Rightarrow> True | Some s \<Rightarrow> 0 < s"
  then show "\<exists>H. Fields_getitem F (BySlice start stop step) = Inr (AFields H)
              \<and> subseq (items H) (items F) \<and> Fields_inv H"
    using Fields_getitem_slice[OF assms] by blast
qed

text \<open>
  Claim C9 as stated does not hold of \<^verbatim>\<open>ItemId.FIELDS\<close>: the sum of the container with itself is no
  container but the duplicate-field error, the slice \<^verbatim>\<open>[::-1]\<close> lists the fields in reverse order, and
  the slice \<^verbatim>\<open>[::0]\<close> raises.
\<close>

theorem Fields_order_counterexample:
  "Fields_inv (Fields_of ItemId_FIELDS)
   \<and> Fields_add (Fields_of ItemId_FIELDS) (Fields_of ItemId_FIELDS) = Inl (DuplicateField ''id'')
   \<and> Fields_getitem (Fields_of ItemId_FIELDS) (BySlice None None (Some (- 1)))
       = Inr (AFields (Fields_of [plain_field ''changekey'', plain_field ''id'']))
   \<and> Fields_getitem (Fields_of ItemId_FIELDS) (BySlice None None (Some 0)) = Inl SliceStepZero"
proof -
  have inv: "Fields_inv (Fields_of ItemId_FIELDS)"
    by (rule Fields_inv_of) (simp add: ItemId_FIELDS_def plain_field_def)
  have add: "Fields_add (Fields_of ItemId_FIELDS) (Fields_of ItemId_FIELDS)
      = Inl (DuplicateField ''id'')"
    by (simp add: Fields_add_def Fields_init_def Fields_of_def ItemId_FIELDS_def plain_field_def)
  have sl: "list_slice ItemId_FIELDS None None (Some (- 1))
      = Inr [plain_field ''changekey'', plain_field ''id'']"
    by code_simp
  have "distinct (map fname [plain_field ''changekey'', plain_field ''id''])"
    by (simp add: plain_field_def)
  then have "Fields_init [plain_field ''changekey'', plain_field ''id'']
      = Inr (Fields_of [plain_field ''changekey'', plain_field ''id''])"
    by (rule Fields_init_of)
  then have rev: "Fields_getitem (Fields_of ItemId_FIELDS) (BySlice None None (Some (- 1)))
       = Inr (AFields (Fields_of [plain_field ''changekey'', plain_field ''id'']))"
    using sl by (simp add: Fields_getitem_def Fields_of_def)
  have zero: "Fields_getitem (Fields_of ItemId_FIELDS) (BySlice None None (Some 0)) = Inl SliceStepZero"
    by (simp add: Fields_getitem_def list_slice_def)
  show ?thesis using inv add rev zero by (intro conjI)
qed

theorem Fields_order_preserved_witness:
  "Fields_inv (Fields_of ItemId_FIELDS)
   \<and> Fields_copy (Fields_of ItemId_FIELDS) = Inr (Fields_of ItemId_FIELDS)
   \<and> (\<exists>H. Fields_add (Fields_of ItemId_FIELDS) (Fields_of DistinguishedFolderId_LOCAL_FIELDS) = Inr H
         \<and> items H = items (Fields_of ItemId_FIELDS) @ items (Fields_of DistinguishedFolderId_LOCAL_FIELDS)
         \<and> Fields_inv H)
   \<and> (\<exists>n. Fields_add (Fields_of ItemId_FIELDS) (Fields_of ItemId_FIELDS) = Inl (DuplicateField n))
   \<and> (\<exists>H. Fields_getitem (Fields_of ItemId_FIELDS) (BySlice (Some 1) None None) = Inr (AFields H)
         \<and> subseq (items H) (items (Fields_of ItemId_FIELDS)) \<and> Fields_inv H)"
proof -
  let ?F = "Fields_of ItemId_FIELDS"
  let ?G = "Fields_of DistinguishedFolderId_LOCAL_FIELDS"
  have invF: "Fields_inv ?F"
    by (rule Fields_inv_of) (simp add: ItemId_FIELDS_def plain_field_def)
  have invG: "Fields_inv ?G"
    by (rule Fields_inv_of) (simp add: DistinguishedFolderId_LOCAL_FIELDS_def plain_field_def)
  have dis: "fname ` set (items ?F) \<inter> fname ` set (items ?G) = {}"
    by (simp add: Fields_of_def ItemId_FIELDS_def DistinguishedFolderId_LOCAL_FIELDS_def plain_field_def)
  have ovl: "fname ` set (items ?F) \<inter> fname ` set (items ?F) \<noteq> {}"
    by (simp add: Fields_of_def ItemId_FIELDS_def plain_field_def)
  have stp: "case None :: int option of None \<Rightarrow> True | Some s \<Rightarrow> 0 < s" by simp
  note T1 = Fields_order_preserved[OF invF, of ?G None "Some 1" None]
  note T2 = Fields_order_preserved[OF invF, of ?F None "Some 1" None]
  note c1 = T1[THEN conjunct1]
  note c2 = T1[THEN conjunct2, THEN conjunct1, rule_format, OF conjI[OF invG dis]]
  note c3 = T2[THEN conjunct2, THEN conjunct2, THEN conjunct1, rule_format, OF ovl]
  note c4 = T1[THEN conjunct2, THEN conjunct2, THEN conjunct2, rule_format, OF stp]
  show ?thesis
    by (intro conjI) (rule invF c1 c2 c3 c4)+
qed

section \<open>Hashing and equality of entities\<close>

lemma rmap_length: "rmap f xs = Inr ys \<Longrightarrow> length ys = length xs"
  by (induction xs arbitrary: ys) (auto split: sum.splits)

lemma rmap_nth: "rmap f xs = Inr ys \<Longrightarrow> i < length xs \<Longrightarrow> f (xs ! i) = Inr (ys ! i)"
proof (induction xs arbitrary: ys i)
  case Nil
  then show ?case by simp
next
  case (Cons x xs)
  then show ?case by (cases i) (auto split: sum.splits)
qed

lemma rmap_cong_set: "(\<And>x. x \<in> set xs \<Longrightarrow> f x = g x) \<Longrightarrow> rmap f xs = rmap g xs"
  by (rule rmap_cong) auto

lemma rmap_total: "(\<And>x. x \<in> set xs \<Longrightarrow> \<exists>y. f x = Inr y) \<Longrightarrow> \<exists>ys. rmap f xs = Inr ys"
proof (induction xs)
  case Nil
  then show ?case by simp
next
  case (Cons x xs)
  obtain y where "f x = Inr y" using Cons.prems by auto
  moreover obtain ys where "rmap f xs = Inr ys" using Cons by auto
  ultimately show ?case by simp
qed

lemma py_hash_base:
  "ID_ELEMENT_CLS c = None \<Longrightarrow> HASH c = EWSElement_hash \<Longrightarrow>
   py_hash R (PElem c attrs) =
     (case EWSElement_hash_arg c attrs of Inl e \<Rightarrow> Inl e | Inr t \<Rightarrow> py_hash R t)"
  by simp

lemma hash_arg_cong:
  "FIELDS c = FIELDS c' \<Longrightarrow> (\<And>f. f \<in> set (FIELDS c) \<Longrightarrow> hash_item attrs f = hash_item attrs' f) \<Longrightarrow>
   EWSElement_hash_arg c attrs = EWSElement_hash_arg c' attrs'"
  unfolding EWSElement_hash_arg_def using rmap_cong_set[of "FIELDS c" "hash_item attrs" "hash_item attrs'"]
  by simp

lemma hash_item_list_empty:
  "is_list f \<Longrightarrow> slot_get attrs (fname f) = Inr v \<Longrightarrow> v = PNone \<or> v = PList [] \<Longrightarrow>
   hash_item attrs f = Inr (PTuple [])"
  by (auto simp: hash_item_def)

lemma hash_item_plain:
  "\<not> is_list f \<Longrightarrow> hash_item attrs f = slot_get attrs (fname f)"
  by (auto simp: hash_item_def split: sum.splits)

lemma EWSElement_eq_hashes:
  "py_hash R x = Inr hx \<Longrightarrow> py_hash R y = Inr hy \<Longrightarrow> EWSElement_eq R x y = Inr (hx = hy)"
  by (simp add: EWSElement_eq_def)

lemma EWSElement_hash_arg_nth:
  assumes "EWSElement_hash_arg c attrs = Inr t"
  shows "\<exists>vs. t = PTuple vs \<and> length vs = length (FIELDS c)
          \<and> (\<forall>i < length (FIELDS c). hash_item attrs (FIELDS c ! i) = Inr (vs ! i))"
proof -
  obtain vs where vs: "rmap (hash_item attrs) (FIELDS c) = Inr vs" and t: "t = PTuple vs"
    using assms by (auto simp: EWSElement_hash_arg_def split: sum.splits)
  show ?thesis using rmap_length[OF vs] rmap_nth[OF vs] t by auto
qed

lemma ex_hash_arg:
  "EWSElement_hash_arg StandardTime_cls example_transition
     = Inr (PTuple [PInt 0, PTime 0, PInt 1, PInt 1, PInt 1])"
  by (simp add: EWSElement_hash_arg_def hash_item_def slot_get_def StandardTime_cls_def
      TimeZoneTransition_FIELDS_def plain_field_def example_transition_def)

lemma StandardTime_cls_sel [simp]:
  "ID_ELEMENT_CLS StandardTime_cls = None" "HASH StandardTime_cls = EWSElement_hash"
  "FIELDS StandardTime_cls = TimeZoneTransition_FIELDS"
  by (simp_all add: StandardTime_cls_def)

lemma ex_hash:
  "py_hash example_runtime (PElem StandardTime_cls example_transition) = Inr 201358330"
  by (simp add: ex_hash_arg example_runtime_def)

lemma WorkingPeriod_cls_sel [simp]:
  "ID_ELEMENT_CLS WorkingPeriod_cls = None" "HASH WorkingPeriod_cls = EWSElement_hash"
  "FIELDS WorkingPeriod_cls = WorkingPeriod_FIELDS"
  by (simp_all add: WorkingPeriod_cls_def)

lemma DaylightTime_cls_sel [simp]:
  "ID_ELEMENT_CLS DaylightTime_cls = None" "HASH DaylightTime_cls = EWSElement_hash"
  "FIELDS DaylightTime_cls = TimeZoneTransition_FIELDS"
  by (simp_all add: DaylightTime_cls_def)

lemma elem_eq_base:
  "ID_ELEMENT_CLS c = None \<Longrightarrow> elem_eq R (PElem c a) other = EWSElement_eq R (PElem c a) other"
  by (simp add: elem_eq_def)

lemma elem_eq_mixin_elem:
  "ID_ELEMENT_CLS c = Some d \<Longrightarrow> (\<And>ys. other \<noteq> PTuple ys) \<Longrightarrow>
   elem_eq R (PElem c a) other = EWSElement_eq R (PElem c a) other"
  by (cases other) (auto simp: elem_eq_def IdChangeKeyMixIn_eq_def)

lemma py_hash_mixin_id:
  "ID_ELEMENT_CLS c = Some d \<Longrightarrow> id_property a = Inr i \<Longrightarrow> truthy i \<Longrightarrow>
   changekey_property a = Inr ck \<Longrightarrow> py_hash R (PElem c a) = py_hash R (PTuple [i, ck])"
  by simp

lemma py_hash_mixin_no_id:
  "ID_ELEMENT_CLS c = Some d \<Longrightarrow> id_property a = Inr i \<Longrightarrow> \<not> truthy i \<Longrightarrow>
   py_hash R (PElem c a) =
     (case EWSElement_hash_arg c a of Inl e \<Rightarrow> Inl e | Inr t \<Rightarrow> py_hash R t)"
  by simp

lemma ItemId_cls_sel [simp]:
  "ID_ELEMENT_CLS ItemId_cls = None" "HASH ItemId_cls = EWSElement_hash"
  "FIELDS ItemId_cls = ItemId_FIELDS"
  by (simp_all add: ItemId_cls_def)

lemma TimeZone_cls_sel [simp]:
  "ID_ELEMENT_CLS TimeZone_cls = None" "HASH TimeZone_cls = EWSElement_hash"
  "FIELDS TimeZone_cls = TimeZone_FIELDS"
  by (simp_all add: TimeZone_cls_def)

lemma UserConfiguration_cls_sel [simp]:
  "ID_ELEMENT_CLS UserConfiguration_cls = Some ItemId_cls"
  "FIELDS UserConfiguration_cls = UserConfiguration_FIELDS"
  by (simp_all add: UserConfiguration_cls_def)

lemma Mailbox_cls_sel [simp]:
  "ID_ELEMENT_CLS Mailbox_cls = None" "HASH Mailbox_cls = Mailbox_hash"
  "FIELDS Mailbox_cls = Mailbox_FIELDS"
  by (simp_all add: Mailbox_cls_def)

lemma Attendee_cls_sel [simp]:
  "ID_ELEMENT_CLS Attendee_cls = None" "HASH Attendee_cls = Attendee_hash"
  "FIELDS Attendee_cls = Attendee_FIELDS"
  by (simp_all add: Attendee_cls_def)

section \<open>The items of the hashed tuple, and the types that override the hash\<close>

lemma hash_item_list:
  "is_list f \<Longrightarrow> slot_get a (fname f) = Inr (PList xs) \<Longrightarrow> hash_item a f = Inr (PTuple xs)"
  "is_list f \<Longrightarrow> slot_get a (fname f) = Inr (PTuple xs) \<Longrightarrow> hash_item a f = Inr (PTuple xs)"
  "is_list f \<Longrightarrow> slot_get a (fname f) = Inr v \<Longrightarrow> \<not> truthy v \<Longrightarrow> hash_item a f = Inr (PTuple [])"
  by (auto simp: hash_item_def)

lemma hash_item_slots:
  assumes "slot_get a (fname g) = slot_get b (fname g)"
  shows "hash_item a g = hash_item b g"
  using assms by (simp add: hash_item_def)

lemma py_hash_tuple_arg:
  assumes "ID_ELEMENT_CLS c = None" "HASH c = EWSElement_hash"
    "EWSElement_hash_arg c a = Inr (PTuple vs)" "rmap (py_hash R) vs = Inr hs"
  shows "py_hash R (PElem c a) = Inr (hash_tuple R hs)"
  using assms by simp

lemma same_slots_equal:
  assumes "ID_ELEMENT_CLS c = None" "HASH c = EWSElement_hash"
    "\<forall>g \<in> set (FIELDS c). slot_get a (fname g) = slot_get b (fname g)"
    "py_hash R (PElem c a) = Inr h"
  shows "py_hash R (PElem c b) = Inr h" "elem_eq R (PElem c a) (PElem c b) = Inr True"
proof -
  have "EWSElement_hash_arg c a = EWSElement_hash_arg c b"
    using assms(3) by (intro hash_arg_cong) (auto intro: hash_item_slots)
  then have "py_hash R (PElem c a) = py_hash R (PElem c b)"
    using assms(1,2) by (simp only: py_hash_base)
  then show b: "py_hash R (PElem c b) = Inr h" using assms(4) by simp
  have "elem_eq R (PElem c a) (PElem c b) = Inr (h = h)"
    using EWSElement_eq_hashes[OF assms(4) b] assms(1) by (simp add: elem_eq_base)
  then show "elem_eq R (PElem c a) (PElem c b) = Inr True" by simp
qed

lemma example_mailbox_hash:
  "py_hash example_runtime (example_mailbox ''Ann'' ''Ann@example.com'') = Inr 15"
  by (simp add: example_mailbox_def slot_get_def example_runtime_def)

lemma example_attendee_hash:
  "py_hash example_runtime (PElem Attendee_cls (example_attendee r)) = Inr 15"
  by (simp add: example_attendee_def slot_get_def example_mailbox_hash)

lemma example_attendee_arg:
  "EWSElement_hash_arg Attendee_cls (example_attendee r)
     = Inr (PTuple [example_mailbox ''Ann'' ''Ann@example.com'', PStr r, PNone])"
  by (simp add: EWSElement_hash_arg_def hash_item_def slot_get_def Attendee_FIELDS_def
      plain_field_def example_attendee_def)

lemma example_attendee_tuple_hash:
  "py_hash example_runtime (PTuple [example_mailbox ''Ann'' ''Ann@example.com'', PStr r, PNone])
     = Inr (15 + 31 * (int (length r) + 6727))"
  by (simp add: example_mailbox_hash) (simp add: example_runtime_def)

lemma structural_eq:
  assumes "ID_ELEMENT_CLS c1 = None" "HASH c1 = EWSElement_hash"
    "ID_ELEMENT_CLS c2 = None" "HASH c2 = EWSElement_hash"
    "EWSElement_hash_arg c1 a1 = Inr t1" "EWSElement_hash_arg c2 a2 = Inr t2"
    "py_hash R t1 = Inr h1" "py_hash R t2 = Inr h2"
  shows "py_hash R (PElem c1 a1) = Inr h1" "py_hash R (PElem c2 a2) = Inr h2"
    "elem_eq R (PElem c1 a1) (PElem c2 a2) = Inr (h1 = h2)"
proof -
  show h1: "py_hash R (PElem c1 a1) = Inr h1" using assms by (simp add: py_hash_base)
  show h2: "py_hash R (PElem c2 a2) = Inr h2" using assms by (simp add: py_hash_base)
  show "elem_eq R (PElem c1 a1) (PElem c2 a2) = Inr (h1 = h2)"
    using EWSElement_eq_hashes[OF h1 h2] assms(1) by (simp add: elem_eq_base)
qed

lemma transition_types_eq:
  assumes "py_hash R (PElem StandardTime_cls a) = Inr h"
  shows "py_hash R (PElem DaylightTime_cls a) = Inr h"
    "elem_eq R (PElem StandardTime_cls a) (PElem DaylightTime_cls a) = Inr True"
    "elem_eq R (PElem DaylightTime_cls a) (PElem StandardTime_cls a) = Inr True"
proof -
  have "EWSElement_hash_arg DaylightTime_cls a = EWSElement_hash_arg StandardTime_cls a"
    by (simp add: EWSElement_hash_arg_def)
  then have "py_hash R (PElem DaylightTime_cls a) = py_hash R (PElem StandardTime_cls a)"
    by simp
  then show h2: "py_hash R (PElem DaylightTime_cls a) = Inr h" using assms by simp
  show "elem_eq R (PElem StandardTime_cls a) (PElem DaylightTime_cls a) = Inr True"
    using EWSElement_eq_hashes[OF assms h2] by (simp add: elem_eq_base)
  show "elem_eq R (PElem DaylightTime_cls a) (PElem StandardTime_cls a) = Inr True"
    using EWSElement_eq_hashes[OF h2 assms] by (simp add: elem_eq_base)
qed

lemma mixin_eq_hashes:
  assumes "ID_ELEMENT_CLS c1 = Some d1" "py_hash R (PElem c1 a1) = Inr h1"
    "py_hash R (PElem c2 a2) = Inr h2"
  shows "elem_eq R (PElem c1 a1) (PElem c2 a2) = Inr (h1 = h2)"
proof -
  have "elem_eq R (PElem c1 a1) (PElem c2 a2) = EWSElement_eq R (PElem c1 a1) (PElem c2 a2)"
    using assms(1) by (intro elem_eq_mixin_elem) auto
  then show ?thesis using EWSElement_eq_hashes[OF assms(2,3)] by (simp only:)
qed

lemma mixin_hash_pair:
  assumes "ID_ELEMENT_CLS c = Some d" "id_property a = Inr i" "truthy i"
    "changekey_property a = Inr ck" "py_hash R i = Inr hi" "py_hash R ck = Inr hk"
  shows "py_hash R (PElem c a) = Inr (hash_tuple R [hi, hk])"
proof -
  have "py_hash R (PElem c a) = py_hash R (PTuple [i, ck])"
    using assms(1-4) by (rule py_hash_mixin_id)
  also have "\<dots> = Inr (hash_tuple R [hi, hk])" using assms(5,6) by simp
  finally show ?thesis .
qed

lemma mixin_hash_structural:
  assumes "ID_ELEMENT_CLS c = Some d" "id_property a = Inr j" "\<not> truthy j"
    "EWSElement_hash_arg c a = Inr t" "py_hash R t = Inr h"
  shows "py_hash R (PElem c a) = Inr h"
proof -
  have "py_hash R (PElem c a) =
      (case EWSElement_hash_arg c a of Inl e \<Rightarrow> Inl e | Inr t \<Rightarrow> py_hash R t)"
    using assms(1-3) by (rule py_hash_mixin_no_id)
  then show ?thesis using assms(4,5) by (simp only: sum.case)
qed

text \<open>
  Claim C1 (as amended). For a type that keeps \<^verbatim>\<open>EWSElement.__hash__\<close> and \<^verbatim>\<open>EWSElement.__eq__\<close>: two
  instances whose hashes exist are equal exactly when the hashes are equal; the hash is the
  hash of the tuple that holds, in the order of the schema, one item for each field and no
  field name, that is \<open>hash_tuple\<close> of the hashes of the items; the item of a field that is no
  list is the value as stored; the item of a list field is the tuple of the members of the list
  (or tuple) it holds, and the empty tuple when it holds \<^verbatim>\<open>None\<close> or another false value;
  instances whose fields give the same items have the same hash, and instances whose fields
  hold the same values have the same hash and are equal.
\<close>

theorem EWSElement_hash_structural:
  assumes "ID_ELEMENT_CLS c = None" "HASH c = EWSElement_hash"
  shows
   "(py_hash R (PElem c a) = Inr h1 \<and> py_hash R (PElem c b) = Inr h2 \<longrightarrow>
        elem_eq R (PElem c a) (PElem c b) = Inr (h1 = h2))
    \<and> py_hash R (PElem c a) =
        (case EWSElement_hash_arg c a of Inl e \<Rightarrow> Inl e | Inr t \<Rightarrow> py_hash R t)
    \<and> (EWSElement_hash_arg c a = Inr t \<longrightarrow>
        (\<exists>vs. t = PTuple vs \<and> length vs = length (FIELDS c)
           \<and> (\<forall>i < length (FIELDS c). hash_item a (FIELDS c ! i) = Inr (vs ! i))))
    \<and> (EWSElement_hash_arg c a = Inr (PTuple vs) \<and> rmap (py_hash R) vs = Inr hs \<longrightarrow>
        py_hash R (PElem c a) = Inr (hash_tuple R hs))
    \<and> (\<not> is_list f \<longrightarrow> hash_item a f = slot_get a (fname f))
    \<and> (is_list f \<and> slot_get a (fname f) = Inr (PList xs) \<longrightarrow> hash_item a f = Inr (PTuple xs))
    \<and> (is_list f \<and> slot_get a (fname f) = Inr (PTuple xs) \<longrightarrow> hash_item a f = Inr (PTuple xs))
    \<and> (is_list f \<and> slot_get a (fname f) = Inr v \<and> \<not> truthy v \<longrightarrow>
        hash_item a f = Inr (PTuple []))
    \<and> ((\<forall>g \<in> set (FIELDS c). hash_item a g = hash_item b g) \<longrightarrow>
        py_hash R (PElem c a) = py_hash R (PElem c b))
    \<and> ((\<forall>g \<in> set (FIELDS c). slot_get a (fname g) = slot_get b (fname g))
        \<and> py_hash R (PElem c a) = Inr h1 \<longrightarrow>
        py_hash R (PElem c b) = Inr h1 \<and> elem_eq R (PElem c a) (PElem c b) = Inr True)"
proof (intro conjI impI)
  assume "py_hash R (PElem c a) = Inr h1 \<and> py_hash R (PElem c b) = Inr h2"
  then show "elem_eq R (PElem c a) (PElem c b) = Inr (h1 = h2)"
    using EWSElement_eq_hashes[of R "PElem c a" h1 "PElem c b" h2] assms(1)
    by (simp add: elem_eq_base)
next
  show "py_hash R (PElem c a) =
        (case EWSElement_hash_arg c a of Inl e \<Rightarrow> Inl e | Inr t \<Rightarrow> py_hash R t)"
    using assms by (rule py_hash_base)
next
  assume "EWSElement_hash_arg c a = Inr t"
  then show "\<exists>vs. t = PTuple vs \<and> length vs = length (FIELDS c)
           \<and> (\<forall>i < length (FIELDS c). hash_item a (FIELDS c ! i) = Inr (vs ! i))"
    by (rule EWSElement_hash_arg_nth)
next
  assume "EWSElement_hash_arg c a = Inr (PTuple vs) \<and> rmap (py_hash R) vs = Inr hs"
  then show "py_hash R (PElem c a) = Inr (hash_tuple R hs)"
    using py_hash_tuple_arg[OF assms] by blast
next
  assume "\<not> is_list f"
  then show "hash_item a f = slot_get a (fname f)" by (rule hash_item_plain)
next
  assume "is_list f \<and> slot_get a (fname f) = Inr (PList xs)"
  then show "hash_item a f = Inr (PTuple xs)" using hash_item_list(1) by blast
next
  assume "is_list f \<and> slot_get a (fname f) = Inr (PTuple xs)"
  then show "hash_item a f = Inr (PTuple xs)" using hash_item_list(2) by blast
next
  assume "is_list f \<and> slot_get a (fname f) = Inr v \<and> \<not> truthy v"
  then show "hash_item a f = Inr (PTuple [])" using hash_item_list(3) by blast
next
  assume "\<forall>g \<in> set (FIELDS c). hash_item a g = hash_item b g"
  then have "EWSElement_hash_arg c a = EWSElement_hash_arg c b"
    by (intro hash_arg_cong) auto
  then show "py_hash R (PElem c a) = py_hash R (PElem c b)"
    using assms by (simp only: py_hash_base)
next
  assume "(\<forall>g \<in> set (FIELDS c). slot_get a (fname g) = slot_get b (fname g))
        \<and> py_hash R (PElem c a) = Inr h1"
  then show "py_hash R (PElem c b) = Inr h1"
    using same_slots_equal(1)[OF assms, of a b R h1] by blast
next
  assume "(\<forall>g \<in> set (FIELDS c). slot_get a (fname g) = slot_get b (fname g))
        \<and> py_hash R (PElem c a) = Inr h1"
  then show "elem_eq R (PElem c a) (PElem c b) = Inr True"
    using same_slots_equal(2)[OF assms, of a b R h1] by blast
qed

theorem EWSElement_hash_structural_witness:
  "ID_ELEMENT_CLS WorkingPeriod_cls = None \<and> HASH WorkingPeriod_cls = EWSElement_hash
   \<and> py_hash example_runtime
        (PElem WorkingPeriod_cls (example_working_period (PList [PInt 1, PInt 2]))) = Inr 272987
   \<and> py_hash example_runtime (PElem WorkingPeriod_cls (example_working_period PNone)) = Inr 266204
   \<and> py_hash example_runtime (PElem WorkingPeriod_cls (example_working_period (PList []))) = Inr 266204
   \<and> elem_eq example_runtime
        (PElem WorkingPeriod_cls (example_working_period (PList [PInt 1, PInt 2])))
        (PElem WorkingPeriod_cls (example_working_period PNone)) = Inr False
   \<and> elem_eq example_runtime (PElem WorkingPeriod_cls (example_working_period PNone))
        (PElem WorkingPeriod_cls (example_working_period (PList []))) = Inr True
   \<and> EWSElement_hash_arg WorkingPeriod_cls (example_working_period (PList [PInt 1, PInt 2]))
        = Inr (PTuple [PTuple [PInt 1, PInt 2], PTime 0, PTime 60])
   \<and> hash_item (example_working_period (PList [PInt 1, PInt 2])) (hd WorkingPeriod_FIELDS)
        = Inr (PTuple [PInt 1, PInt 2])
   \<and> hash_item (example_working_period (PTuple [PInt 1, PInt 2])) (hd WorkingPeriod_FIELDS)
        = Inr (PTuple [PInt 1, PInt 2])
   \<and> hash_item (example_working_period PNone) (hd WorkingPeriod_FIELDS) = Inr (PTuple [])
   \<and> hash_item (example_working_period PNone) (plain_field ''start'')
        = slot_get (example_working_period PNone) (fname (plain_field ''start''))"
proof -
  let ?l = "example_working_period (PList [PInt 1, PInt 2])"
  let ?t = "example_working_period (PTuple [PInt 1, PInt 2])"
  let ?a = "example_working_period PNone"
  let ?b = "example_working_period (PList [])"
  let ?f = "hd WorkingPeriod_FIELDS"
  have idn: "ID_ELEMENT_CLS WorkingPeriod_cls = None" by simp
  have hsh: "HASH WorkingPeriod_cls = EWSElement_hash" by simp
  have argl: "EWSElement_hash_arg WorkingPeriod_cls ?l
      = Inr (PTuple [PTuple [PInt 1, PInt 2], PTime 0, PTime 60])"
    by (simp add: EWSElement_hash_arg_def hash_item_def slot_get_def WorkingPeriod_FIELDS_def
        plain_field_def example_working_period_def)
  have hs: "rmap (py_hash example_runtime) [PTuple [PInt 1, PInt 2], PTime 0, PTime 60]
      = Inr [6790, 0, 60]"
    by (simp add: example_runtime_def)
  have ht: "hash_tuple example_runtime [6790, 0, 60] = 272987"
    by (simp add: example_runtime_def)
  have arga: "EWSElement_hash_arg WorkingPeriod_cls ?a = Inr (PTuple [PTuple [], PTime 0, PTime 60])"
    by (simp add: EWSElement_hash_arg_def hash_item_def slot_get_def WorkingPeriod_FIELDS_def
        plain_field_def example_working_period_def)
  have ha: "py_hash example_runtime (PElem WorkingPeriod_cls ?a) = Inr 266204"
    by (simp add: arga example_runtime_def)
  have same: "\<forall>g \<in> set (FIELDS WorkingPeriod_cls). hash_item ?a g = hash_item ?b g"
    by (simp add: hash_item_def slot_get_def WorkingPeriod_FIELDS_def
        plain_field_def example_working_period_def)
  have il: "is_list ?f" by (simp add: WorkingPeriod_FIELDS_def)
  have sl: "slot_get ?l (fname ?f) = Inr (PList [PInt 1, PInt 2])"
    by (simp add: WorkingPeriod_FIELDS_def slot_get_def example_working_period_def)
  have st: "slot_get ?t (fname ?f) = Inr (PTuple [PInt 1, PInt 2])"
    by (simp add: WorkingPeriod_FIELDS_def slot_get_def example_working_period_def)
  have sa: "slot_get ?a (fname ?f) = Inr PNone"
    by (simp add: WorkingPeriod_FIELDS_def slot_get_def example_working_period_def)
  have nt: "\<not> truthy PNone" by simp
  have nl: "\<not> is_list (plain_field ''start'')" by (simp add: plain_field_def)
  note L = EWSElement_hash_structural[OF idn hsh, where R = example_runtime and a = ?l and b = ?a
      and ?h1.0 = 272987 and ?h2.0 = 266204 and f = ?f and xs = "[PInt 1, PInt 2]"
      and vs = "[PTuple [PInt 1, PInt 2], PTime 0, PTime 60]" and hs = "[6790, 0, 60]"]
  note T = EWSElement_hash_structural[OF idn hsh, where R = example_runtime and a = ?t and f = ?f
      and xs = "[PInt 1, PInt 2]"]
  note A = EWSElement_hash_structural[OF idn hsh, where R = example_runtime and a = ?a and b = ?b
      and ?h1.0 = 266204 and ?h2.0 = 266204 and f = ?f and v = PNone]
  note S = EWSElement_hash_structural[OF idn hsh, where R = example_runtime and a = ?a
      and f = "plain_field ''start''"]
  have "py_hash example_runtime (PElem WorkingPeriod_cls ?l)
      = Inr (hash_tuple example_runtime [6790, 0, 60])"
    by (rule L[THEN conjunct2, THEN conjunct2, THEN conjunct2, THEN conjunct1, THEN mp]) (intro conjI argl hs)
  then have hl: "py_hash example_runtime (PElem WorkingPeriod_cls ?l) = Inr 272987"
    by (simp only: ht)
  have "py_hash example_runtime (PElem WorkingPeriod_cls ?a)
      = py_hash example_runtime (PElem WorkingPeriod_cls ?b)"
    by (rule A[THEN conjunct2, THEN conjunct2, THEN conjunct2, THEN conjunct2, THEN conjunct2, THEN conjunct2, THEN conjunct2, THEN conjunct2, THEN conjunct1, THEN mp]) (rule same)
  then have hb: "py_hash example_runtime (PElem WorkingPeriod_cls ?b) = Inr 266204"
    by (simp only: ha)
  have "elem_eq example_runtime (PElem WorkingPeriod_cls ?l) (PElem WorkingPeriod_cls ?a)
      = Inr ((272987 :: int) = 266204)"
    by (rule L[THEN conjunct1, THEN mp]) (intro conjI hl ha)
  then have ne: "elem_eq example_runtime (PElem WorkingPeriod_cls ?l) (PElem WorkingPeriod_cls ?a)
      = Inr False"
    by simp
  have "elem_eq example_runtime (PElem WorkingPeriod_cls ?a) (PElem WorkingPeriod_cls ?b)
      = Inr ((266204 :: int) = 266204)"
    by (rule A[THEN conjunct1, THEN mp]) (intro conjI ha hb)
  then have eq: "elem_eq example_runtime (PElem WorkingPeriod_cls ?a) (PElem WorkingPeriod_cls ?b)
      = Inr True"
    by simp
  have c6: "hash_item ?l ?f = Inr (PTuple [PInt 1, PInt 2])"
    by (rule L[THEN conjunct2, THEN conjunct2, THEN conjunct2, THEN conjunct2, THEN conjunct2, THEN conjunct1, THEN mp]) (intro conjI il sl)
  have c7: "hash_item ?t ?f = Inr (PTuple [PInt 1, PInt 2])"
    by (rule T[THEN conjunct2, THEN conjunct2, THEN conjunct2, THEN conjunct2, THEN conjunct2, THEN conjunct2, THEN conjunct1, THEN mp]) (intro conjI il st)
  have c8: "hash_item ?a ?f = Inr (PTuple [])"
    by (rule A[THEN conjunct2, THEN conjunct2, THEN conjunct2, THEN conjunct2, THEN conjunct2, THEN conjunct2, THEN conjunct2, THEN conjunct1, THEN mp]) (intro conjI il sa nt)
  have c5: "hash_item ?a (plain_field ''start'') = slot_get ?a (fname (plain_field ''start''))"
    by (rule S[THEN conjunct2, THEN conjunct2, THEN conjunct2, THEN conjunct2, THEN conjunct1, THEN mp]) (rule nl)
  show ?thesis
    by (intro conjI) (rule idn hsh hl ha hb ne eq argl c6 c7 c8 c5)+
qed

text \<open>
  Claim C1 as stated does not hold of a \<^verbatim>\<open>StandardTime\<close>: the tuple that is hashed holds the five values
  alone, whereas the tuple of the claim holds pairs of a field name and a value, whatever the
  wire string of the enumerated weekday is.
\<close>

theorem EWSElement_hash_arg_counterexample:
  "EWSElement_hash_arg StandardTime_cls example_transition
     = Inr (PTuple [PInt 0, PTime 0, PInt 1, PInt 1, PInt 1])
   \<and> \<not> (\<exists>as_string. spec_hash_arg as_string StandardTime_cls example_transition
            = EWSElement_hash_arg StandardTime_cls example_transition)"
proof -
  have "spec_hash_arg as_string StandardTime_cls example_transition
     = Inr (PTuple [PTuple [PStr ''bias'', PInt 0], PTuple [PStr ''time'', PTime 0],
          PTuple [PStr ''occurrence'', PInt 1], PTuple [PStr ''iso_month'', PInt 1],
          PTuple [PStr ''weekday'',
            PStr (as_string \<lparr>fname = ''weekday'', is_list = False, fkind = EnumField\<rparr> 1)]])"
    for as_string
    by (simp add: spec_hash_arg_def hash_item_def slot_get_def
        TimeZoneTransition_FIELDS_def plain_field_def example_transition_def)
  then show ?thesis by (simp add: ex_hash_arg)
qed

text \<open>
  Claim C10 (as amended). An entity of a type that keeps \<^verbatim>\<open>EWSElement.__eq__\<close> is equal to
  another value exactly when the two hashes are equal, whatever the other value is: no type is
  compared. For two types that keep \<^verbatim>\<open>EWSElement.__hash__\<close> the hashes are those of the two
  tuples of field values, so that two instances are equal exactly when the hashes of their
  tuples are equal, and are equal when the tuples are the same; a \<^verbatim>\<open>StandardTime\<close> and a
  \<^verbatim>\<open>DaylightTime\<close> over the same attribute values are equal, in both directions.
\<close>

theorem EWSElement_eq_ignores_type:
  "(ID_ELEMENT_CLS c1 = None \<and> py_hash R (PElem c1 a1) = Inr h1 \<and> py_hash R other = Inr h2 \<longrightarrow>
        elem_eq R (PElem c1 a1) other = Inr (h1 = h2))
   \<and> (ID_ELEMENT_CLS c1 = None \<and> HASH c1 = EWSElement_hash
      \<and> ID_ELEMENT_CLS c2 = None \<and> HASH c2 = EWSElement_hash
      \<and> EWSElement_hash_arg c1 a1 = Inr t1 \<and> EWSElement_hash_arg c2 a2 = Inr t2
      \<and> py_hash R t1 = Inr h1 \<and> py_hash R t2 = Inr h2 \<longrightarrow>
        py_hash R (PElem c1 a1) = Inr h1 \<and> py_hash R (PElem c2 a2) = Inr h2
        \<and> elem_eq R (PElem c1 a1) (PElem c2 a2) = Inr (h1 = h2))
   \<and> (ID_ELEMENT_CLS c1 = None \<and> HASH c1 = EWSElement_hash
      \<and> ID_ELEMENT_CLS c2 = None \<and> HASH c2 = EWSElement_hash
      \<and> EWSElement_hash_arg c1 a1 = Inr t \<and> EWSElement_hash_arg c2 a2 = Inr t
      \<and> py_hash R t = Inr h \<longrightarrow>
        py_hash R (PElem c1 a1) = Inr h \<and> py_hash R (PElem c2 a2) = Inr h
        \<and> elem_eq R (PElem c1 a1) (PElem c2 a2) = Inr True)
   \<and> (py_hash R (PElem StandardTime_cls a) = Inr h' \<longrightarrow>
        py_hash R (PElem DaylightTime_cls a) = Inr h'
        \<and> elem_eq R (PElem StandardTime_cls a) (PElem DaylightTime_cls a) = Inr True
        \<and> elem_eq R (PElem DaylightTime_cls a) (PElem StandardTime_cls a) = Inr True)"
proof -
  have 1: "ID_ELEMENT_CLS c1 = None \<and> py_hash R (PElem c1 a1) = Inr h1 \<and> py_hash R other = Inr h2 \<longrightarrow>
        elem_eq R (PElem c1 a1) other = Inr (h1 = h2)"
  proof (intro impI, elim conjE)
    assume i: "ID_ELEMENT_CLS c1 = None" and a: "py_hash R (PElem c1 a1) = Inr h1"
      and b: "py_hash R other = Inr h2"
    show "elem_eq R (PElem c1 a1) other = Inr (h1 = h2)"
      using EWSElement_eq_hashes[OF a b] by (simp only: elem_eq_base[OF i])
  qed
  have 2: "ID_ELEMENT_CLS c1 = None \<and> HASH c1 = EWSElement_hash
      \<and> ID_ELEMENT_CLS c2 = None \<and> HASH c2 = EWSElement_hash
      \<and> EWSElement_hash_arg c1 a1 = Inr t1 \<and> EWSElement_hash_arg c2 a2 = Inr t2
      \<and> py_hash R t1 = Inr h1 \<and> py_hash R t2 = Inr h2 \<longrightarrow>
        py_hash R (PElem c1 a1) = Inr h1 \<and> py_hash R (PElem c2 a2) = Inr h2
        \<and> elem_eq R (PElem c1 a1) (PElem c2 a2) = Inr (h1 = h2)"
    using structural_eq[of c1 c2 a1 t1 a2 t2 R h1 h2] by blast
  have 3: "ID_ELEMENT_CLS c1 = None \<and> HASH c1 = EWSElement_hash
      \<and> ID_ELEMENT_CLS c2 = None \<and> HASH c2 = EWSElement_hash
      \<and> EWSElement_hash_arg c1 a1 = Inr t \<and> EWSElement_hash_arg c2 a2 = Inr t
      \<and> py_hash R t = Inr h \<longrightarrow>
        py_hash R (PElem c1 a1) = Inr h \<and> py_hash R (PElem c2 a2) = Inr h
        \<and> elem_eq R (PElem c1 a1) (PElem c2 a2) = Inr True"
    using structural_eq[of c1 c2 a1 t a2 t R h h] by simp
  have 4: "py_hash R (PElem StandardTime_cls a) = Inr h' \<longrightarrow>
        py_hash R (PElem DaylightTime_cls a) = Inr h'
        \<and> elem_eq R (PElem StandardTime_cls a) (PElem DaylightTime_cls a) = Inr True
        \<and> elem_eq R (PElem DaylightTime_cls a) (PElem StandardTime_cls a) = Inr True"
    using transition_types_eq[of R a h'] by blast
  show ?thesis by (intro conjI) (rule 1 2 3 4)+
qed

theorem EWSElement_eq_ignores_type_witness:
  "elem_eq example_runtime (PElem StandardTime_cls example_transition)
        (PTuple [PInt 0, PTime 0, PInt 1, PInt 1, PInt 1]) = Inr True
   \<and> py_hash example_runtime (PElem StandardTime_cls example_transition) = Inr 201358330
   \<and> py_hash example_runtime (PElem DaylightTime_cls dummy_daylight_kwargs) = Inr 207231001
   \<and> elem_eq example_runtime (PElem StandardTime_cls example_transition)
        (PElem DaylightTime_cls dummy_daylight_kwargs) = Inr False
   \<and> elem_eq example_runtime
        (PElem TimeZone_cls [(''bias'', PTuple [PInt 1]), (''standard_time'', PInt 2), (''daylight_time'', PInt 3)])
        (PElem WorkingPeriod_cls [(''weekdays'', PList [PInt 1]), (''start'', PInt 2), (''end'', PInt 3)])
       = Inr True
   \<and> py_hash example_runtime (PElem DaylightTime_cls example_transition) = Inr 201358330
   \<and> elem_eq example_runtime (PElem StandardTime_cls example_transition)
        (PElem DaylightTime_cls example_transition) = Inr True
   \<and> elem_eq example_runtime (PElem DaylightTime_cls example_transition)
        (PElem StandardTime_cls example_transition) = Inr True"
proof -
  let ?tz = "[(''bias'', PTuple [PInt 1]), (''standard_time'', PInt 2), (''daylight_time'', PInt 3)]"
  let ?wp = "[(''weekdays'', PList [PInt 1]), (''start'', PInt 2), (''end'', PInt 3)]"
  let ?st = "PTuple [PInt 0, PTime 0, PInt 1, PInt 1, PInt 1]"
  let ?dt = "PTuple [PInt 0, PTime 0, PInt 5, PInt 12, PInt 7]"
  have i1: "ID_ELEMENT_CLS StandardTime_cls = None" and g1: "HASH StandardTime_cls = EWSElement_hash"
    and i2: "ID_ELEMENT_CLS WorkingPeriod_cls = None" and g2: "HASH WorkingPeriod_cls = EWSElement_hash"
    and i3: "ID_ELEMENT_CLS TimeZone_cls = None" and g3: "HASH TimeZone_cls = EWSElement_hash"
    and i4: "ID_ELEMENT_CLS DaylightTime_cls = None" and g4: "HASH DaylightTime_cls = EWSElement_hash"
    by simp_all
  have hst: "py_hash example_runtime ?st = Inr 201358330"
    by (simp add: example_runtime_def)
  have hdt: "py_hash example_runtime ?dt = Inr 207231001"
    by (simp add: example_runtime_def)
  have ad: "EWSElement_hash_arg DaylightTime_cls dummy_daylight_kwargs = Inr ?dt"
    by (simp add: EWSElement_hash_arg_def hash_item_def slot_get_def
        TimeZoneTransition_FIELDS_def plain_field_def dummy_daylight_kwargs_def)
  have t1: "EWSElement_hash_arg TimeZone_cls ?tz = Inr (PTuple [PTuple [PInt 1], PInt 2, PInt 3])"
    by (simp add: EWSElement_hash_arg_def hash_item_def slot_get_def TimeZone_FIELDS_def plain_field_def)
  have t2: "EWSElement_hash_arg WorkingPeriod_cls ?wp = Inr (PTuple [PTuple [PInt 1], PInt 2, PInt 3])"
    by (simp add: EWSElement_hash_arg_def hash_item_def slot_get_def WorkingPeriod_FIELDS_def
        plain_field_def)
  have ht: "py_hash example_runtime (PTuple [PTuple [PInt 1], PInt 2, PInt 3]) = Inr 211700"
    by (simp add: example_runtime_def)
  note A = EWSElement_eq_ignores_type[where R = example_runtime and ?c1.0 = StandardTime_cls
      and ?a1.0 = example_transition and other = ?st and ?h1.0 = 201358330 and ?h2.0 = 201358330]
  note B = EWSElement_eq_ignores_type[where R = example_runtime and ?c1.0 = StandardTime_cls
      and ?a1.0 = example_transition and ?c2.0 = DaylightTime_cls and ?a2.0 = dummy_daylight_kwargs
      and ?t1.0 = ?st and ?t2.0 = ?dt and ?h1.0 = 201358330 and ?h2.0 = 207231001]
  note C = EWSElement_eq_ignores_type[where R = example_runtime and ?c1.0 = TimeZone_cls
      and ?c2.0 = WorkingPeriod_cls and ?a1.0 = ?tz and ?a2.0 = ?wp
      and t = "PTuple [PTuple [PInt 1], PInt 2, PInt 3]" and h = 211700]
  note D = EWSElement_eq_ignores_type[where R = example_runtime and a = example_transition
      and h' = 201358330]
  have "elem_eq example_runtime (PElem StandardTime_cls example_transition) ?st
      = Inr ((201358330 :: int) = 201358330)"
    by (rule A[THEN conjunct1, THEN mp]) (intro conjI i1 ex_hash hst)
  then have a: "elem_eq example_runtime (PElem StandardTime_cls example_transition) ?st = Inr True"
    by simp
  have b: "py_hash example_runtime (PElem StandardTime_cls example_transition) = Inr 201358330
      \<and> py_hash example_runtime (PElem DaylightTime_cls dummy_daylight_kwargs) = Inr 207231001
      \<and> elem_eq example_runtime (PElem StandardTime_cls example_transition)
          (PElem DaylightTime_cls dummy_daylight_kwargs) = Inr ((201358330 :: int) = 207231001)"
    by (rule B[THEN conjunct2, THEN conjunct1, THEN mp]) (intro conjI i1 g1 i4 g4 ex_hash_arg ad hst hdt)
  note b1 = b[THEN conjunct1]
  note b2 = b[THEN conjunct2, THEN conjunct1]
  have b3: "elem_eq example_runtime (PElem StandardTime_cls example_transition)
          (PElem DaylightTime_cls dummy_daylight_kwargs) = Inr False"
    using b[THEN conjunct2, THEN conjunct2] by simp
  have c: "py_hash example_runtime (PElem TimeZone_cls ?tz) = Inr 211700
      \<and> py_hash example_runtime (PElem WorkingPeriod_cls ?wp) = Inr 211700
      \<and> elem_eq example_runtime (PElem TimeZone_cls ?tz) (PElem WorkingPeriod_cls ?wp) = Inr True"
    by (rule C[THEN conjunct2, THEN conjunct2, THEN conjunct1, THEN mp]) (intro conjI i3 g3 i2 g2 t1 t2 ht)
  note c3 = c[THEN conjunct2, THEN conjunct2]
  note d0 = D[THEN conjunct2, THEN conjunct2, THEN conjunct2, THEN mp]
  note d = d0[OF ex_hash]
  note d1 = d[THEN conjunct1]
  note d2 = d[THEN conjunct2, THEN conjunct1]
  note d3 = d[THEN conjunct2, THEN conjunct2]
  show ?thesis
    by (intro conjI) (rule a b1 b2 b3 c3 d1 d2 d3)+
qed

text \<open>
  Claim C10 as stated does not hold of two \<^verbatim>\<open>Attendee\<close> entities with the same mailbox and
  different responses: \<^verbatim>\<open>Attendee.__hash__\<close> hashes the mailbox alone, so the two are equal,
  while the tuples of their field values differ and have different hashes.
\<close>

theorem EWSElement_eq_override_counterexample:
  "elem_eq example_runtime (PElem Attendee_cls (example_attendee ''Accept''))
       (PElem Attendee_cls (example_attendee ''Decline'')) = Inr True
   \<and> EWSElement_hash_arg Attendee_cls (example_attendee ''Accept'')
       = Inr (PTuple [example_mailbox ''Ann'' ''Ann@example.com'', PStr ''Accept'', PNone])
   \<and> EWSElement_hash_arg Attendee_cls (example_attendee ''Decline'')
       = Inr (PTuple [example_mailbox ''Ann'' ''Ann@example.com'', PStr ''Decline'', PNone])
   \<and> py_hash example_runtime
        (PTuple [example_mailbox ''Ann'' ''Ann@example.com'', PStr ''Accept'', PNone]) = Inr 208738
   \<and> py_hash example_runtime
        (PTuple [example_mailbox ''Ann'' ''Ann@example.com'', PStr ''Decline'', PNone]) = Inr 208769"
proof -
  have e: "elem_eq example_runtime (PElem Attendee_cls (example_attendee ''Accept''))
       (PElem Attendee_cls (example_attendee ''Decline'')) = Inr True"
    using EWSElement_eq_hashes[OF example_attendee_hash example_attendee_hash, of "''Accept''" "''Decline''"]
    by (simp add: elem_eq_base)
  have h1: "py_hash example_runtime
        (PTuple [example_mailbox ''Ann'' ''Ann@example.com'', PStr ''Accept'', PNone]) = Inr 208738"
    using example_attendee_tuple_hash[of "''Accept''"] by simp
  have h2: "py_hash example_runtime
        (PTuple [example_mailbox ''Ann'' ''Ann@example.com'', PStr ''Decline'', PNone]) = Inr 208769"
    using example_attendee_tuple_hash[of "''Decline''"] by simp
  show ?thesis
    by (intro conjI) (rule e example_attendee_arg h1 h2)+
qed

text \<open>
  Claim C6. For an entity that delegates its identity: with an id that is true its hash is the
  hash of the pair \<^verbatim>\<open>(id, changekey)\<close>, that is \<open>hash_tuple\<close> of the hashes of the two, so two
  such entities with the same id and changekey have the same hash and are equal, whatever
  their other fields hold; with an id that is false its hash is the structural hash, the hash
  of the tuple of all its field values; equality with another entity is the comparison of the
  two hashes, so two entities without an id are equal exactly when the hashes of their tuples
  of field values are equal.
\<close>

theorem IdChangeKeyMixIn_hash_identity:
  assumes "ID_ELEMENT_CLS c1 = Some d1" "ID_ELEMENT_CLS c2 = Some d2"
  shows
   "(id_property a1 = Inr i \<and> truthy i \<and> changekey_property a1 = Inr ck \<longrightarrow>
        py_hash R (PElem c1 a1) = py_hash R (PTuple [i, ck]))
    \<and> (id_property a1 = Inr i \<and> truthy i \<and> changekey_property a1 = Inr ck
        \<and> py_hash R i = Inr hi \<and> py_hash R ck = Inr hk \<longrightarrow>
        py_hash R (PElem c1 a1) = Inr (hash_tuple R [hi, hk]))
    \<and> (id_property a1 = Inr i \<and> truthy i \<and> changekey_property a1 = Inr ck
        \<and> id_property a2 = Inr i \<and> changekey_property a2 = Inr ck
        \<and> py_hash R (PTuple [i, ck]) = Inr h \<longrightarrow>
        py_hash R (PElem c1 a1) = Inr h \<and> py_hash R (PElem c2 a2) = Inr h
        \<and> elem_eq R (PElem c1 a1) (PElem c2 a2) = Inr True)
    \<and> (id_property a1 = Inr j \<and> \<not> truthy j \<longrightarrow>
        py_hash R (PElem c1 a1) =
          (case EWSElement_hash_arg c1 a1 of Inl e \<Rightarrow> Inl e | Inr t \<Rightarrow> py_hash R t))
    \<and> (py_hash R (PElem c1 a1) = Inr h1 \<and> py_hash R (PElem c2 a2) = Inr h2 \<longrightarrow>
        elem_eq R (PElem c1 a1) (PElem c2 a2) = Inr (h1 = h2))
    \<and> (id_property a1 = Inr j \<and> \<not> truthy j \<and> id_property a2 = Inr j' \<and> \<not> truthy j'
        \<and> EWSElement_hash_arg c1 a1 = Inr t1 \<and> EWSElement_hash_arg c2 a2 = Inr t2
        \<and> py_hash R t1 = Inr h1 \<and> py_hash R t2 = Inr h2 \<longrightarrow>
        py_hash R (PElem c1 a1) = Inr h1 \<and> py_hash R (PElem c2 a2) = Inr h2
        \<and> elem_eq R (PElem c1 a1) (PElem c2 a2) = Inr (h1 = h2))"
proof -
  have 1: "id_property a1 = Inr i \<and> truthy i \<and> changekey_property a1 = Inr ck \<longrightarrow>
        py_hash R (PElem c1 a1) = py_hash R (PTuple [i, ck])"
    using py_hash_mixin_id[OF assms(1), of a1 i ck R] by blast
  have 2: "id_property a1 = Inr i \<and> truthy i \<and> changekey_property a1 = Inr ck
        \<and> py_hash R i = Inr hi \<and> py_hash R ck = Inr hk \<longrightarrow>
        py_hash R (PElem c1 a1) = Inr (hash_tuple R [hi, hk])"
    using mixin_hash_pair[OF assms(1), of a1 i ck R hi hk] by blast
  have 3: "id_property a1 = Inr i \<and> truthy i \<and> changekey_property a1 = Inr ck
        \<and> id_property a2 = Inr i \<and> changekey_property a2 = Inr ck
        \<and> py_hash R (PTuple [i, ck]) = Inr h \<longrightarrow>
        py_hash R (PElem c1 a1) = Inr h \<and> py_hash R (PElem c2 a2) = Inr h
        \<and> elem_eq R (PElem c1 a1) (PElem c2 a2) = Inr True"
  proof (intro impI, elim conjE)
    assume A: "id_property a1 = Inr i" "truthy i" "changekey_property a1 = Inr ck"
      "id_property a2 = Inr i" "changekey_property a2 = Inr ck"
      "py_hash R (PTuple [i, ck]) = Inr h"
    have h1: "py_hash R (PElem c1 a1) = Inr h"
      using py_hash_mixin_id[OF assms(1) A(1,2,3), of R] A(6) by (simp only:)
    have h2: "py_hash R (PElem c2 a2) = Inr h"
      using py_hash_mixin_id[OF assms(2) A(4,2,5), of R] A(6) by (simp only:)
    have "elem_eq R (PElem c1 a1) (PElem c2 a2) = Inr (h = h)"
      using assms(1) h1 h2 by (rule mixin_eq_hashes)
    then have "elem_eq R (PElem c1 a1) (PElem c2 a2) = Inr True" by simp
    then show "py_hash R (PElem c1 a1) = Inr h \<and> py_hash R (PElem c2 a2) = Inr h
        \<and> elem_eq R (PElem c1 a1) (PElem c2 a2) = Inr True"
      using h1 h2 by (intro conjI)
  qed
  have 4: "id_property a1 = Inr j \<and> \<not> truthy j \<longrightarrow>
        py_hash R (PElem c1 a1) =
          (case EWSElement_hash_arg c1 a1 of Inl e \<Rightarrow> Inl e | Inr t \<Rightarrow> py_hash R t)"
    using py_hash_mixin_no_id[OF assms(1), of a1 j R] by blast
  have 5: "py_hash R (PElem c1 a1) = Inr h1 \<and> py_hash R (PElem c2 a2) = Inr h2 \<longrightarrow>
        elem_eq R (PElem c1 a1) (PElem c2 a2) = Inr (h1 = h2)"
    using mixin_eq_hashes[OF assms(1), of R a1 h1 c2 a2 h2] by blast
  have 6: "id_property a1 = Inr j \<and> \<not> truthy j \<and> id_property a2 = Inr j' \<and> \<not> truthy j'
        \<and> EWSElement_hash_arg c1 a1 = Inr t1 \<and> EWSElement_hash_arg c2 a2 = Inr t2
        \<and> py_hash R t1 = Inr h1 \<and> py_hash R t2 = Inr h2 \<longrightarrow>
        py_hash R (PElem c1 a1) = Inr h1 \<and> py_hash R (PElem c2 a2) = Inr h2
        \<and> elem_eq R (PElem c1 a1) (PElem c2 a2) = Inr (h1 = h2)"
  proof (intro impI, elim conjE)
    assume A: "id_property a1 = Inr j" "\<not> truthy j" "id_property a2 = Inr j'" "\<not> truthy j'"
      "EWSElement_hash_arg c1 a1 = Inr t1" "EWSElement_hash_arg c2 a2 = Inr t2"
      "py_hash R t1 = Inr h1" "py_hash R t2 = Inr h2"
    have h1: "py_hash R (PElem c1 a1) = Inr h1"
      using assms(1) A(1,2,5,7) by (rule mixin_hash_structural)
    have h2: "py_hash R (PElem c2 a2) = Inr h2"
      using assms(2) A(3,4,6,8) by (rule mixin_hash_structural)
    have "elem_eq R (PElem c1 a1) (PElem c2 a2) = Inr (h1 = h2)"
      using assms(1) h1 h2 by (rule mixin_eq_hashes)
    then show "py_hash R (PElem c1 a1) = Inr h1 \<and> py_hash R (PElem c2 a2) = Inr h2
        \<and> elem_eq R (PElem c1 a1) (PElem c2 a2) = Inr (h1 = h2)"
      using h1 h2 by (intro conjI)
  qed
  show ?thesis by (intro conjI) (rule 1 2 3 4 5 6)+
qed

theorem IdChangeKeyMixIn_hash_identity_witness:
  "ID_ELEMENT_CLS UserConfiguration_cls = Some ItemId_cls
   \<and> py_hash example_runtime (PElem UserConfiguration_cls (example_user_configuration example_identity PNone))
       = py_hash example_runtime (PTuple [PStr ''X'', PStr ''ck''])
   \<and> py_hash example_runtime (PElem UserConfiguration_cls (example_user_configuration example_identity PNone))
       = Inr (hash_tuple example_runtime [1, 2])
   \<and> py_hash example_runtime (PElem UserConfiguration_cls (example_user_configuration example_identity PNone))
       = Inr 6790
   \<and> py_hash example_runtime
        (PElem UserConfiguration_cls (example_user_configuration example_identity (PStr ''payload'')))
       = Inr 6790
   \<and> elem_eq example_runtime
        (PElem UserConfiguration_cls (example_user_configuration example_identity PNone))
        (PElem UserConfiguration_cls (example_user_configuration example_identity (PStr ''payload'')))
       = Inr True
   \<and> py_hash example_runtime (PElem UserConfiguration_cls (example_user_configuration PNone PNone))
       = (case EWSElement_hash_arg UserConfiguration_cls (example_user_configuration PNone PNone) of
            Inl e \<Rightarrow> Inl e | Inr t \<Rightarrow> py_hash example_runtime t)
   \<and> py_hash example_runtime (PElem UserConfiguration_cls (example_user_configuration PNone PNone))
       = Inr 200404057
   \<and> py_hash example_runtime
        (PElem UserConfiguration_cls (example_user_configuration PNone (PStr ''payload'')))
       = Inr 200612594
   \<and> elem_eq example_runtime
        (PElem UserConfiguration_cls (example_user_configuration PNone PNone))
        (PElem UserConfiguration_cls (example_user_configuration PNone (PStr ''payload'')))
       = Inr False
   \<and> elem_eq example_runtime
        (PElem UserConfiguration_cls (example_user_configuration example_identity PNone))
        (PElem UserConfiguration_cls (example_user_configuration PNone PNone))
       = Inr False"
proof -
  let ?a1 = "example_user_configuration example_identity PNone"
  let ?a2 = "example_user_configuration example_identity (PStr ''payload'')"
  let ?a0 = "example_user_configuration PNone PNone"
  let ?a3 = "example_user_configuration PNone (PStr ''payload'')"
  let ?t0 = "PTuple [PNone, PNone, PNone, PNone, PNone]"
  let ?t3 = "PTuple [PNone, PNone, PNone, PStr ''payload'', PNone]"
  have cls: "ID_ELEMENT_CLS UserConfiguration_cls = Some ItemId_cls" by simp
  have i1: "id_property ?a1 = Inr (PStr ''X'')" and k1: "changekey_property ?a1 = Inr (PStr ''ck'')"
    and i2: "id_property ?a2 = Inr (PStr ''X'')" and k2: "changekey_property ?a2 = Inr (PStr ''ck'')"
    and i0: "id_property ?a0 = Inr PNone" and i3: "id_property ?a3 = Inr PNone"
    by (simp_all add: id_property_def changekey_property_def slot_get_def
        example_user_configuration_def example_identity_def)
  have tr: "truthy (PStr ''X'')" and ntr: "\<not> truthy PNone" by simp_all
  have hx: "py_hash example_runtime (PStr ''X'') = Inr 1"
    and hk: "py_hash example_runtime (PStr ''ck'') = Inr 2"
    by (simp_all add: example_runtime_def)
  have ht: "py_hash example_runtime (PTuple [PStr ''X'', PStr ''ck'']) = Inr 6790"
    by (simp add: example_runtime_def)
  have g0: "EWSElement_hash_arg UserConfiguration_cls ?a0 = Inr ?t0"
    and g3: "EWSElement_hash_arg UserConfiguration_cls ?a3 = Inr ?t3"
    by (simp_all add: EWSElement_hash_arg_def hash_item_def slot_get_def
        UserConfiguration_FIELDS_def plain_field_def example_user_configuration_def)
  have h0: "py_hash example_runtime ?t0 = Inr 200404057"
    and h3: "py_hash example_runtime ?t3 = Inr 200612594"
    by (simp_all add: example_runtime_def)
  note T = IdChangeKeyMixIn_hash_identity[OF cls cls, where R = example_runtime and ?a1.0 = ?a1
      and ?a2.0 = ?a2 and i = "PStr ''X''" and ck = "PStr ''ck''" and h = 6790 and hi = 1 and hk = 2]
  note U = IdChangeKeyMixIn_hash_identity[OF cls cls, where R = example_runtime and ?a1.0 = ?a0
      and ?a2.0 = ?a3 and j = PNone and j' = PNone and ?t1.0 = ?t0 and ?t2.0 = ?t3
      and ?h1.0 = 200404057 and ?h2.0 = 200612594]
  note V = IdChangeKeyMixIn_hash_identity[OF cls cls, where R = example_runtime and ?a1.0 = ?a1
      and ?a2.0 = ?a0 and ?h1.0 = 6790 and ?h2.0 = 200404057]
  have c1: "py_hash example_runtime (PElem UserConfiguration_cls ?a1)
      = py_hash example_runtime (PTuple [PStr ''X'', PStr ''ck''])"
    by (rule T[THEN conjunct1, THEN mp]) (intro conjI i1 tr k1)
  have c2: "py_hash example_runtime (PElem UserConfiguration_cls ?a1)
      = Inr (hash_tuple example_runtime [1, 2])"
    by (rule T[THEN conjunct2, THEN conjunct1, THEN mp]) (intro conjI i1 tr k1 hx hk)
  have c3: "py_hash example_runtime (PElem UserConfiguration_cls ?a1) = Inr 6790
      \<and> py_hash example_runtime (PElem UserConfiguration_cls ?a2) = Inr 6790
      \<and> elem_eq example_runtime (PElem UserConfiguration_cls ?a1) (PElem UserConfiguration_cls ?a2)
          = Inr True"
    by (rule T[THEN conjunct2, THEN conjunct2, THEN conjunct1, THEN mp]) (intro conjI i1 tr k1 i2 k2 ht)
  note d1 = c3[THEN conjunct1]
  note d2 = c3[THEN conjunct2, THEN conjunct1]
  note d3 = c3[THEN conjunct2, THEN conjunct2]
  have c4: "py_hash example_runtime (PElem UserConfiguration_cls ?a0)
      = (case EWSElement_hash_arg UserConfiguration_cls ?a0 of
            Inl e \<Rightarrow> Inl e | Inr t \<Rightarrow> py_hash example_runtime t)"
    by (rule U[THEN conjunct2, THEN conjunct2, THEN conjunct2, THEN conjunct1, THEN mp]) (intro conjI i0 ntr)
  have c6: "py_hash example_runtime (PElem UserConfiguration_cls ?a0) = Inr 200404057
      \<and> py_hash example_runtime (PElem UserConfiguration_cls ?a3) = Inr 200612594
      \<and> elem_eq example_runtime (PElem UserConfiguration_cls ?a0) (PElem UserConfiguration_cls ?a3)
          = Inr ((200404057 :: int) = 200612594)"
    by (rule U[THEN conjunct2, THEN conjunct2, THEN conjunct2, THEN conjunct2, THEN conjunct2, THEN mp]) (intro conjI i0 ntr i3 g0 g3 h0 h3)
  note e1 = c6[THEN conjunct1]
  note e2 = c6[THEN conjunct2, THEN conjunct1]
  have e3: "elem_eq example_runtime (PElem UserConfiguration_cls ?a0) (PElem UserConfiguration_cls ?a3)
          = Inr False"
    using c6[THEN conjunct2, THEN conjunct2] by simp
  have "elem_eq example_runtime (PElem UserConfiguration_cls ?a1) (PElem UserConfiguration_cls ?a0)
          = Inr ((6790 :: int) = 200404057)"
    by (rule V[THEN conjunct2, THEN conjunct2, THEN conjunct2, THEN conjunct2, THEN conjunct1, THEN mp]) (intro conjI d1 e1)
  then have c5: "elem_eq example_runtime (PElem UserConfiguration_cls ?a1)
      (PElem UserConfiguration_cls ?a0) = Inr False"
    by simp
  show ?thesis
    by (intro conjI) (rule cls c1 c2 d1 d2 d3 c4 e1 e2 e3 c5)+
qed

section \<open>Construction and the identity properties\<close>

lemma EWSElement_setattr_slot:
  "key \<in> set (slots_keys c) \<Longrightarrow> EWSElement_setattr R c attrs key v = Inr (slot_set key v attrs)"
  by (simp add: EWSElement_setattr_def object_setattr_def)

lemma slot_get_slot_set: "slot_get (slot_set k v attrs) k' = (if k' = k then Inr v else slot_get attrs k')"
  by (induction attrs) (auto simp: slot_get_def)

lemma map_of_filter_other:
  "k' \<noteq> k \<Longrightarrow> map_of (filter (\<lambda>kv. fst kv \<noteq> k) kw) k' = map_of kw k'"
  by (induction kw) auto

text \<open>The attribute store the loop leaves: each field's slot holds the keyword's value or
  \<^verbatim>\<open>None\<close>.\<close>

lemma EWSElement_init_loop_ok:
  assumes "fname ` set fs \<subseteq> set (slots_keys c)" "distinct (map fname fs)"
  shows "\<exists>attrs'. EWSElement_init_loop R c fs kwargs attrs
           = Inr (filter (\<lambda>kv. fst kv \<notin> fname ` set fs) kwargs, attrs')
         \<and> (\<forall>n. slot_get attrs' n =
               (if n \<in> fname ` set fs
                then Inr (case map_of kwargs n of None \<Rightarrow> PNone | Some v \<Rightarrow> v)
                else slot_get attrs n))"
  using assms
proof (induction fs arbitrary: kwargs attrs)
  case Nil
  then show ?case by simp
next
  case (Cons f fs)
  let ?v = "case map_of kwargs (fname f) of None \<Rightarrow> PNone | Some v \<Rightarrow> v"
  let ?kw = "filter (\<lambda>kv. fst kv \<noteq> fname f) kwargs"
  let ?a = "slot_set (fname f) ?v attrs"
  have sl: "fname f \<in> set (slots_keys c)" and rest: "fname ` set fs \<subseteq> set (slots_keys c)"
    using Cons.prems by auto
  have dst: "distinct (map fname fs)" and nin: "fname f \<notin> fname ` set fs"
    using Cons.prems by auto
  have step: "EWSElement_init_loop R c (f # fs) kwargs attrs = EWSElement_init_loop R c fs ?kw ?a"
    by (simp add: dict_pop_def EWSElement_setattr_slot[OF sl])
  obtain attrs' where l: "EWSElement_init_loop R c fs ?kw ?a
        = Inr (filter (\<lambda>kv. fst kv \<notin> fname ` set fs) ?kw, attrs')"
    and g: "\<And>n. slot_get attrs' n =
               (if n \<in> fname ` set fs
                then Inr (case map_of ?kw n of None \<Rightarrow> PNone | Some v \<Rightarrow> v)
                else slot_get ?a n)"
    using Cons.IH[OF rest dst, of ?kw ?a] by blast
  have f2: "filter (\<lambda>kv. fst kv \<notin> fname ` set fs) ?kw
      = filter (\<lambda>kv. fst kv \<notin> fname ` set (f # fs)) kwargs"
    by (induction kwargs) auto
  have "slot_get attrs' n =
               (if n \<in> fname ` set (f # fs)
                then Inr (case map_of kwargs n of None \<Rightarrow> PNone | Some v \<Rightarrow> v)
                else slot_get attrs n)" for n
  proof (cases "n = fname f")
    case True
    then show ?thesis using g[of n] nin by (simp add: slot_get_slot_set)
  next
    case False
    then show ?thesis using g[of n] by (simp add: slot_get_slot_set map_of_filter_other)
  qed
  then show ?case unfolding step l f2 by blast
qed

lemma filter_keys_empty:
  "(filter (\<lambda>kv. fst kv \<notin> N) kwargs = []) = (set (map fst kwargs) \<subseteq> N)"
  by (induction kwargs) auto


lemma EWSElement_init_ok:
  assumes "class_wf c" "set (map fst kwargs) \<subseteq> fname ` set (FIELDS c)"
  shows "\<exists>attrs. EWSElement_init R c kwargs = Inr (PElem c attrs)
          \<and> (\<forall>f \<in> set (FIELDS c).
                slot_get attrs (fname f)
                  = Inr (case map_of kwargs (fname f) of None \<Rightarrow> PNone | Some v \<Rightarrow> v))"
proof -
  have s: "fname ` set (FIELDS c) \<subseteq> set (slots_keys c)" and d: "distinct (map fname (FIELDS c))"
    using assms(1) by (auto simp: class_wf_def)
  obtain attrs where l: "EWSElement_init_loop R c (FIELDS c) kwargs []
           = Inr (filter (\<lambda>kv. fst kv \<notin> fname ` set (FIELDS c)) kwargs, attrs)"
    and g: "\<And>n. slot_get attrs n =
               (if n \<in> fname ` set (FIELDS c)
                then Inr (case map_of kwargs n of None \<Rightarrow> PNone | Some v \<Rightarrow> v)
                else slot_get [] n)"
    using EWSElement_init_loop_ok[OF s d, of R kwargs "[]"] by blast
  have e: "filter (\<lambda>kv. fst kv \<notin> fname ` set (FIELDS c)) kwargs = []"
    using assms(2) by (simp only: filter_keys_empty)
  have "EWSElement_init R c kwargs = Inr (PElem c attrs)"
    by (simp add: EWSElement_init_def l e)
  then show ?thesis using g by auto
qed


lemma map_eq_two: "map f xs = [a, b] \<Longrightarrow> \<exists>x y. xs = [x, y] \<and> f x = a \<and> f y = b"
  by (cases xs; cases "tl xs") auto

lemma two_field_init:
  assumes "map fname (FIELDS idc) = [k1, k2]" "slots_keys idc = [k1, k2]" "k1 \<noteq> k2"
    "set (map fst kw) \<subseteq> {k1, k2}"
  shows "\<exists>attrs. EWSElement_init R idc kw = Inr (PElem idc attrs)
          \<and> slot_get attrs k1 = Inr (case map_of kw k1 of None \<Rightarrow> PNone | Some v \<Rightarrow> v)
          \<and> slot_get attrs k2 = Inr (case map_of kw k2 of None \<Rightarrow> PNone | Some v \<Rightarrow> v)"
proof -
  obtain f1 f2 where fs: "FIELDS idc = [f1, f2]" "fname f1 = k1" "fname f2 = k2"
    using map_eq_two[OF assms(1)] by blast
  have names: "fname ` set (FIELDS idc) = {k1, k2}" using fs by simp
  have wf: "class_wf idc" using assms(2,3) fs by (simp add: class_wf_def)
  have keys: "set (map fst kw) \<subseteq> fname ` set (FIELDS idc)" using assms(4) names by simp
  obtain attrs where a: "EWSElement_init R idc kw = Inr (PElem idc attrs)"
    and g: "\<forall>f \<in> set (FIELDS idc). slot_get attrs (fname f)
                  = Inr (case map_of kw (fname f) of None \<Rightarrow> PNone | Some v \<Rightarrow> v)"
    using EWSElement_init_ok[OF wf keys, of R] by blast
  show ?thesis using a g fs by simp
qed

lemma ItemId_like_keys:
  "ItemId_like idc \<Longrightarrow> map fname (FIELDS idc) = [''id'', ''changekey'']"
  "ItemId_like idc \<Longrightarrow> slots_keys idc = [''id'', ''changekey'']"
  by (simp_all add: ItemId_like_def)

lemma id_neq_changekey: "''id'' \<noteq> ''changekey''"
  by simp

lemma ItemId_init_positional:
  assumes "ItemId_like idc"
  shows "\<exists>attrs. ItemId_init R idc [i, ck] [] = Inr (PElem idc attrs)
          \<and> slot_get attrs ''id'' = Inr i \<and> slot_get attrs ''changekey'' = Inr ck"
proof -
  let ?kw = "[(''id'', i), (''changekey'', ck)]"
  have kw: "ItemId_init R idc [i, ck] [] = EWSElement_init R idc ?kw"
    by (simp add: ItemId_init_def ItemId_like_keys(2)[OF assms] dict_of_def)
  have keys: "set (map fst ?kw) \<subseteq> {''id'', ''changekey''}" by simp
  have m: "(case map_of ?kw ''id'' of None \<Rightarrow> PNone | Some v \<Rightarrow> v) = i"
    "(case map_of ?kw ''changekey'' of None \<Rightarrow> PNone | Some v \<Rightarrow> v) = ck"
    by simp_all
  show ?thesis
    using two_field_init[OF ItemId_like_keys[OF assms] id_neq_changekey keys, of R]
    unfolding kw m .
qed

lemma ItemId_init_empty:
  assumes "ItemId_like idc"
  shows "\<exists>attrs. ItemId_init R idc [] [] = Inr (PElem idc attrs)
          \<and> slot_get attrs ''id'' = Inr PNone \<and> slot_get attrs ''changekey'' = Inr PNone"
proof -
  have kw: "ItemId_init R idc [] [] = EWSElement_init R idc []"
    by (simp add: ItemId_init_def dict_of_def)
  have keys: "set (map fst ([] :: (string \<times> pyval) list)) \<subseteq> {''id'', ''changekey''}" by simp
  show ?thesis
    using two_field_init[OF ItemId_like_keys[OF assms] id_neq_changekey keys, of R]
    unfolding kw by simp
qed

lemma slot_set_keys: "set (map fst (slot_set k v d)) = insert k (set (map fst d))"
  by (induction d) force+


lemma dict_pop_keys:
  "map fst (snd (dict_pop k kwargs)) = filter (\<lambda>k'. k' \<noteq> k) (map fst kwargs)"
  by (induction kwargs) (auto simp: dict_pop_def)

lemma filter_absent: "k \<notin> set (map fst kwargs) \<Longrightarrow> filter (\<lambda>kv. fst kv \<noteq> k) kwargs = kwargs"
  by (induction kwargs) auto

lemma dict_pop_absent: "k \<notin> set (map fst kwargs) \<Longrightarrow> dict_pop k kwargs = (PNone, kwargs)"
  by (simp add: dict_pop_def filter_absent map_of_eq_None_iff[THEN iffD2])

text \<open>What \<^verbatim>\<open>IdChangeKeyMixIn.__init__\<close> hands to \<^verbatim>\<open>EWSElement.__init__\<close>: the keywords without
  \<^verbatim>\<open>id\<close> and \<^verbatim>\<open>changekey\<close>, with \<^verbatim>\<open>_id\<close> set when one of the two is true.\<close>

lemma IdChangeKeyMixIn_init_unfold:
  assumes "ID_ELEMENT_CLS c = Some idc" "ItemId_like idc"
  shows "\<exists>kw3. IdChangeKeyMixIn_init R c kwargs = EWSElement_init R c kw3
          \<and> (map fst kw3 = filter (\<lambda>k. k \<noteq> ''id'' \<and> k \<noteq> ''changekey'') (map fst kwargs)
              \<or> (\<exists>ident. kw3 = slot_set ''_id'' ident
                    (snd (dict_pop ''changekey'' (snd (dict_pop ''id'' kwargs))))))
          \<and> (''id'' \<notin> set (map fst kwargs) \<and> ''changekey'' \<notin> set (map fst kwargs) \<longrightarrow> kw3 = kwargs)"
proof -
  obtain i kw1 where p1: "dict_pop ''id'' kwargs = (i, kw1)" by (cases "dict_pop ''id'' kwargs")
  obtain ck kw2 where p2: "dict_pop ''changekey'' kw1 = (ck, kw2)" by (cases "dict_pop ''changekey'' kw1")
  obtain ia where id: "ItemId_init R idc [i, ck] [] = Inr (PElem idc ia)"
    and gi: "slot_get ia ''id'' = Inr i" and gc: "slot_get ia ''changekey'' = Inr ck"
    using ItemId_init_positional[OF assms(2), of R i ck] by blast
  have keys2: "map fst kw2 = filter (\<lambda>k. k \<noteq> ''id'' \<and> k \<noteq> ''changekey'') (map fst kwargs)"
  proof -
    have "map fst kw1 = filter (\<lambda>k'. k' \<noteq> ''id'') (map fst kwargs)"
      using dict_pop_keys[of "''id''" kwargs] p1 by simp
    moreover have "map fst kw2 = filter (\<lambda>k'. k' \<noteq> ''changekey'') (map fst kw1)"
      using dict_pop_keys[of "''changekey''" kw1] p2 by simp
    ultimately show ?thesis by (simp add: conj_commute)
  qed
  have kw2: "kw2 = snd (dict_pop ''changekey'' (snd (dict_pop ''id'' kwargs)))"
    using p1 p2 by simp
  have absent: "kw2 = kwargs \<and> i = PNone \<and> ck = PNone"
    if "''id'' \<notin> set (map fst kwargs) \<and> ''changekey'' \<notin> set (map fst kwargs)"
    using that p1 p2 by (auto simp: dict_pop_absent)
  show ?thesis
  proof (cases "truthy i \<or> truthy ck")
    case True
    then have "IdChangeKeyMixIn_init R c kwargs = EWSElement_init R c (slot_set ''_id'' (PElem idc ia) kw2)"
      using assms(1) p1 p2 id gi gc by (auto simp: IdChangeKeyMixIn_init_def)
    moreover have "\<not> (''id'' \<notin> set (map fst kwargs) \<and> ''changekey'' \<notin> set (map fst kwargs))"
    proof
      assume A: "''id'' \<notin> set (map fst kwargs) \<and> ''changekey'' \<notin> set (map fst kwargs)"
      have "i = PNone" "ck = PNone" using absent[OF A] by simp_all
      then show False using True by simp
    qed
    ultimately show ?thesis using kw2 by blast
  next
    case False
    then have "IdChangeKeyMixIn_init R c kwargs = EWSElement_init R c kw2"
      using assms(1) p1 p2 id gi gc by (auto simp: IdChangeKeyMixIn_init_def)
    then show ?thesis using keys2 absent by blast
  qed
qed



lemma class_wf_StandardTime: "class_wf StandardTime_cls"
  by (simp add: class_wf_def StandardTime_cls_def TimeZoneTransition_FIELDS_def plain_field_def)

lemma class_wf_UserConfiguration: "class_wf UserConfiguration_cls"
  by (simp add: class_wf_def UserConfiguration_cls_def UserConfiguration_FIELDS_def plain_field_def)

lemma ItemId_like_ItemId: "ItemId_like ItemId_cls"
  by (simp add: ItemId_like_def ItemId_cls_def ItemId_FIELDS_def plain_field_def)


lemma names_UserConfiguration:
  "fname ` set UserConfiguration_FIELDS
     = {''_id'', ''user_configuration_name'', ''dictionary'', ''xml_data'', ''binary_data''}"
  by (simp add: UserConfiguration_FIELDS_def plain_field_def)

lemma slot_set_twice: "slot_set k v (slot_set k w d) = slot_set k v d"
  by (induction d) auto

lemma IdChangeKeyMixIn_set_fresh:
  assumes "ID_ELEMENT_CLS c = Some idc" "ItemId_like idc" "''_id'' \<in> set (slots_keys c)"
    "slot_get attrs ''_id'' = Inr PNone"
    "(key = ''id'' \<and> other = ''changekey'') \<or> (key = ''changekey'' \<and> other = ''id'')"
  shows "\<exists>ia a2. IdChangeKeyMixIn_set R key (PElem c attrs) v = Inr (PElem c a2)
           \<and> slot_get a2 ''_id'' = Inr (PElem idc ia)
           \<and> slot_get ia key = Inr v \<and> slot_get ia other = Inr PNone"
proof -
  obtain fa where fr: "ItemId_init R idc [] [] = Inr (PElem idc fa)"
    and g1: "slot_get fa ''id'' = Inr PNone" and g2: "slot_get fa ''changekey'' = Inr PNone"
    using ItemId_init_empty[OF assms(2), of R] by blast
  have ks: "key \<in> set (slots_keys idc)"
    using assms(5) by (auto simp: ItemId_like_keys(2)[OF assms(2)])
  have ne: "other \<noteq> key" and go: "slot_get fa other = Inr PNone"
    using assms(5) g1 g2 by auto
  have s1: "EWSElement_setattr R c attrs ''_id'' (PElem idc fa) = Inr (slot_set ''_id'' (PElem idc fa) attrs)"
    using assms(3) by (rule EWSElement_setattr_slot)
  have s2: "EWSElement_setattr R idc fa key v = Inr (slot_set key v fa)"
    using ks by (rule EWSElement_setattr_slot)
  let ?a2 = "slot_set ''_id'' (PElem idc (slot_set key v fa)) (slot_set ''_id'' (PElem idc fa) attrs)"
  have r: "IdChangeKeyMixIn_set R key (PElem c attrs) v = Inr (PElem c ?a2)"
    using assms(1,4) fr s1 s2 by (simp add: IdChangeKeyMixIn_set_def)
  have i: "slot_get ?a2 ''_id'' = Inr (PElem idc (slot_set key v fa))"
    by (simp only: slot_get_slot_set refl if_True)
  have k: "slot_get (slot_set key v fa) key = Inr v"
    by (simp only: slot_get_slot_set refl if_True)
  have o: "slot_get (slot_set key v fa) other = Inr PNone"
    using ne go by (simp only: slot_get_slot_set if_False)
  show ?thesis using r i k o by blast
qed

lemma IdChangeKeyMixIn_set_existing:
  assumes "slot_get attrs ''_id'' = Inr (PElem ic ia)" "key \<in> set (slots_keys ic)"
  shows "IdChangeKeyMixIn_set R key (PElem c attrs) v
           = Inr (PElem c (slot_set ''_id'' (PElem ic (slot_set key v ia)) attrs))"
  using assms by (simp add: IdChangeKeyMixIn_set_def EWSElement_setattr_slot)



text \<open>
  Claim C5. An entity that delegates its identity, built without \<^verbatim>\<open>id\<close>, \<^verbatim>\<open>changekey\<close> and \<^verbatim>\<open>_id\<close>, exists,
  holds no nested identity, and reads \<^verbatim>\<open>None\<close> for both id and changekey. Setting its id to a value
  makes id read that value while changekey still reads \<^verbatim>\<open>None\<close>, until changekey is set, after which
  both read the values set; and setting changekey first leaves id reading \<^verbatim>\<open>None\<close>.
\<close>

theorem IdChangeKeyMixIn_lazy_identity:
  assumes "class_wf c" "ID_ELEMENT_CLS c = Some idc" "ItemId_like idc"
    "''_id'' \<in> fname ` set (FIELDS c)"
    "set (map fst kwargs) \<subseteq> fname ` set (FIELDS c) - {''_id''}"
    "''id'' \<notin> set (map fst kwargs)" "''changekey'' \<notin> set (map fst kwargs)"
  shows "\<exists>e. IdChangeKeyMixIn_init R c kwargs = Inr e
     \<and> IdChangeKeyMixIn_id e = Inr PNone \<and> IdChangeKeyMixIn_changekey e = Inr PNone
     \<and> attr_of e ''_id'' = Inr PNone
     \<and> (\<exists>e'. IdChangeKeyMixIn_set_id R e v = Inr e'
           \<and> IdChangeKeyMixIn_id e' = Inr v \<and> IdChangeKeyMixIn_changekey e' = Inr PNone
           \<and> (\<exists>e''. IdChangeKeyMixIn_set_changekey R e' w = Inr e''
                 \<and> IdChangeKeyMixIn_id e'' = Inr v \<and> IdChangeKeyMixIn_changekey e'' = Inr w))
     \<and> (\<exists>e'. IdChangeKeyMixIn_set_changekey R e w = Inr e'
           \<and> IdChangeKeyMixIn_changekey e' = Inr w \<and> IdChangeKeyMixIn_id e' = Inr PNone)"
proof -
  have sl: "''_id'' \<in> set (slots_keys c)" using assms(1,4) by (auto simp: class_wf_def)
  obtain kw3 where "IdChangeKeyMixIn_init R c kwargs = EWSElement_init R c kw3"
    and "''id'' \<notin> set (map fst kwargs) \<and> ''changekey'' \<notin> set (map fst kwargs) \<longrightarrow> kw3 = kwargs"
    using IdChangeKeyMixIn_init_unfold[OF assms(2,3), of R kwargs] by blast
  then have i0: "IdChangeKeyMixIn_init R c kwargs = EWSElement_init R c kwargs"
    using assms(6,7) by simp
  have keys: "set (map fst kwargs) \<subseteq> fname ` set (FIELDS c)" using assms(5) by blast
  obtain attrs where a: "EWSElement_init R c kwargs = Inr (PElem c attrs)"
    and g: "\<forall>f \<in> set (FIELDS c). slot_get attrs (fname f)
                  = Inr (case map_of kwargs (fname f) of None \<Rightarrow> PNone | Some v \<Rightarrow> v)"
    using EWSElement_init_ok[OF assms(1) keys, of R] by blast
  have "map_of kwargs ''_id'' = None"
    using assms(5) by (intro map_of_eq_None_iff[THEN iffD2]) auto
  then have n: "slot_get attrs ''_id'' = Inr PNone" using g assms(4) by auto
  let ?e = "PElem c attrs"
  have r0: "IdChangeKeyMixIn_id ?e = Inr PNone" "IdChangeKeyMixIn_changekey ?e = Inr PNone"
    "attr_of ?e ''_id'' = Inr PNone"
    using n by (simp_all add: IdChangeKeyMixIn_id_def IdChangeKeyMixIn_changekey_def
        id_property_def changekey_property_def)
  obtain ia a2 where s1: "IdChangeKeyMixIn_set R ''id'' ?e v = Inr (PElem c a2)"
    and s1i: "slot_get a2 ''_id'' = Inr (PElem idc ia)" and s1v: "slot_get ia ''id'' = Inr v"
    and s1c: "slot_get ia ''changekey'' = Inr PNone"
    using IdChangeKeyMixIn_set_fresh[OF assms(2,3) sl n, of "''id''" "''changekey''" R v] by blast
  have r1: "IdChangeKeyMixIn_id (PElem c a2) = Inr v" "IdChangeKeyMixIn_changekey (PElem c a2) = Inr PNone"
    using s1i s1v s1c by (simp_all add: IdChangeKeyMixIn_id_def IdChangeKeyMixIn_changekey_def
        id_property_def changekey_property_def)
  have ck: "''changekey'' \<in> set (slots_keys idc)" using assms(3) by (simp add: ItemId_like_def)
  let ?a3 = "slot_set ''_id'' (PElem idc (slot_set ''changekey'' w ia)) a2"
  have s2: "IdChangeKeyMixIn_set R ''changekey'' (PElem c a2) w = Inr (PElem c ?a3)"
    using IdChangeKeyMixIn_set_existing[OF s1i ck] .
  have r2: "IdChangeKeyMixIn_id (PElem c ?a3) = Inr v" "IdChangeKeyMixIn_changekey (PElem c ?a3) = Inr w"
    using s1v by (simp_all add: IdChangeKeyMixIn_id_def IdChangeKeyMixIn_changekey_def
        id_property_def changekey_property_def slot_get_slot_set)
  obtain ib b2 where t1: "IdChangeKeyMixIn_set R ''changekey'' ?e w = Inr (PElem c b2)"
    and t1i: "slot_get b2 ''_id'' = Inr (PElem idc ib)" and t1v: "slot_get ib ''changekey'' = Inr w"
    and t1c: "slot_get ib ''id'' = Inr PNone"
    using IdChangeKeyMixIn_set_fresh[OF assms(2,3) sl n, of "''changekey''" "''id''" R w] by blast
  have r3: "IdChangeKeyMixIn_changekey (PElem c b2) = Inr w" "IdChangeKeyMixIn_id (PElem c b2) = Inr PNone"
    using t1i t1v t1c by (simp_all add: IdChangeKeyMixIn_id_def IdChangeKeyMixIn_changekey_def
        id_property_def changekey_property_def)
  have i1: "IdChangeKeyMixIn_init R c kwargs = Inr ?e" using i0 a by (rule trans)
  have p3: "\<exists>e''. IdChangeKeyMixIn_set_changekey R (PElem c a2) w = Inr e''
                 \<and> IdChangeKeyMixIn_id e'' = Inr v \<and> IdChangeKeyMixIn_changekey e'' = Inr w"
    unfolding IdChangeKeyMixIn_set_changekey_def
    by (rule exI[of _ "PElem c ?a3"]) (intro conjI s2 r2)
  have p2: "\<exists>e'. IdChangeKeyMixIn_set_id R ?e v = Inr e'
           \<and> IdChangeKeyMixIn_id e' = Inr v \<and> IdChangeKeyMixIn_changekey e' = Inr PNone
           \<and> (\<exists>e''. IdChangeKeyMixIn_set_changekey R e' w = Inr e''
                 \<and> IdChangeKeyMixIn_id e'' = Inr v \<and> IdChangeKeyMixIn_changekey e'' = Inr w)"
    unfolding IdChangeKeyMixIn_set_id_def
    by (rule exI[of _ "PElem c a2"]) (intro conjI s1 r1 p3)
  have p4: "\<exists>e'. IdChangeKeyMixIn_set_changekey R ?e w = Inr e'
           \<and> IdChangeKeyMixIn_changekey e' = Inr w \<and> IdChangeKeyMixIn_id e' = Inr PNone"
    unfolding IdChangeKeyMixIn_set_changekey_def
    by (rule exI[of _ "PElem c b2"]) (intro conjI t1 r3)
  show ?thesis
    by (rule exI[of _ ?e]) (intro conjI i1 r0 p2 p4)
qed

theorem IdChangeKeyMixIn_lazy_identity_witness:
  "class_wf UserConfiguration_cls \<and> ID_ELEMENT_CLS UserConfiguration_cls = Some ItemId_cls
   \<and> ItemId_like ItemId_cls \<and> ''_id'' \<in> fname ` set (FIELDS UserConfiguration_cls)
   \<and> (\<exists>e. IdChangeKeyMixIn_init example_runtime UserConfiguration_cls [(''xml_data'', PStr ''payload'')]
             = Inr e
     \<and> IdChangeKeyMixIn_id e = Inr PNone \<and> IdChangeKeyMixIn_changekey e = Inr PNone
     \<and> attr_of e ''_id'' = Inr PNone
     \<and> (\<exists>e'. IdChangeKeyMixIn_set_id example_runtime e (PStr ''X'') = Inr e'
           \<and> IdChangeKeyMixIn_id e' = Inr (PStr ''X'') \<and> IdChangeKeyMixIn_changekey e' = Inr PNone
           \<and> (\<exists>e''. IdChangeKeyMixIn_set_changekey example_runtime e' (PStr ''K'') = Inr e''
                 \<and> IdChangeKeyMixIn_id e'' = Inr (PStr ''X'')
                 \<and> IdChangeKeyMixIn_changekey e'' = Inr (PStr ''K'')))
     \<and> (\<exists>e'. IdChangeKeyMixIn_set_changekey example_runtime e (PStr ''K'') = Inr e'
           \<and> IdChangeKeyMixIn_changekey e' = Inr (PStr ''K'') \<and> IdChangeKeyMixIn_id e' = Inr PNone))"
proof -
  let ?kw = "[(''xml_data'', PStr ''payload'')]"
  have cls: "ID_ELEMENT_CLS UserConfiguration_cls = Some ItemId_cls" by simp
  have idn: "''_id'' \<in> fname ` set (FIELDS UserConfiguration_cls)"
    by (simp add: names_UserConfiguration)
  have keys: "set (map fst ?kw) \<subseteq> fname ` set (FIELDS UserConfiguration_cls) - {''_id''}"
    by (simp add: names_UserConfiguration)
  have n1: "''id'' \<notin> set (map fst ?kw)" and n2: "''changekey'' \<notin> set (map fst ?kw)"
    by simp_all
  note T = IdChangeKeyMixIn_lazy_identity[OF class_wf_UserConfiguration cls ItemId_like_ItemId idn
      keys n1 n2, where R = example_runtime and v = "PStr ''X''" and w = "PStr ''K''"]
  show ?thesis
    by (intro conjI) (rule class_wf_UserConfiguration cls ItemId_like_ItemId idn T)+
qed

section \<open>Validation and unmarshalling of transition descriptors\<close>

lemma EWSElement_setattr_result:
  "EWSElement_setattr R c a k v = Inr a' \<Longrightarrow> a' = slot_set k v a"
  by (auto simp: EWSElement_setattr_def object_setattr_def split: if_splits)

lemma py_eq_int_minus1: "py_eq_int R (PInt (- 1)) (- 1) = Inr True"
  by simp

lemma settle_occurrence_never_minus1:
  assumes "settle_occurrence R res = Inr res'"
  shows "attr_of res' ''occurrence'' \<noteq> Inr (PInt (- 1))"
proof -
  obtain v where v: "attr_of res ''occurrence'' = Inr v"
    using assms by (auto simp: settle_occurrence_def split: sum.splits)
  then obtain c a where res: "res = PElem c a" by (cases res) auto
  obtain b where b: "py_eq_int R v (- 1) = Inr b"
    using assms v by (auto simp: settle_occurrence_def split: sum.splits)
  show ?thesis
  proof (cases b)
    case True
    then obtain a' where sa: "EWSElement_setattr R c a ''occurrence'' (PInt 5) = Inr a'"
      and r: "res' = PElem c a'"
      using assms v b res by (auto simp: settle_occurrence_def elem_setattr_def split: sum.splits)
    have "a' = slot_set ''occurrence'' (PInt 5) a" using sa by (rule EWSElement_setattr_result)
    then show ?thesis using r by (simp add: slot_get_slot_set)
  next
    case False
    then have "res' = res" using assms v b by (simp add: settle_occurrence_def)
    moreover have "v \<noteq> PInt (- 1)" using b False by auto
    ultimately show ?thesis using v by simp
  qed
qed

lemma settle_occurrence_int:
  assumes "slot_get a k = Inr (PInt n)" "k \<in> set (slots_keys c)" "k = ''occurrence''"
  shows "\<exists>a'. settle_occurrence R (PElem c a) = Inr (PElem c a')
          \<and> slot_get a' k = Inr (PInt (if n = - 1 then 5 else n))
          \<and> (\<forall>k'. k' \<noteq> k \<longrightarrow> slot_get a' k' = slot_get a k')"
proof (cases "n = - 1")
  case True
  have "settle_occurrence R (PElem c a) = Inr (PElem c (slot_set k (PInt 5) a))"
    using assms True
    by (simp add: settle_occurrence_def elem_setattr_def EWSElement_setattr_slot)
  then show ?thesis using True by (auto simp: slot_get_slot_set)
next
  case False
  have "settle_occurrence R (PElem c a) = Inr (PElem c a)"
    using assms False by (simp add: settle_occurrence_def)
  then show ?thesis using False assms(1) by auto
qed

lemma map_of_slot_set: "map_of (slot_set k v d) = (map_of d)(k \<mapsto> v)"
  by (induction d) auto

lemma map_of_dict_of_fold:
  "map_of (foldl (\<lambda>d kv. slot_set (fst kv) (snd kv) d) d0 ps) = map_of d0 ++ map_of (rev ps)"
proof (induction ps arbitrary: d0)
  case Nil
  then show ?case by simp
next
  case (Cons p ps)
  show ?case
    by (simp add: Cons.IH map_of_slot_set map_add_def fun_eq_iff split: option.splits)
qed

lemma dict_of_keys_fold:
  "set (map fst (foldl (\<lambda>d kv. slot_set (fst kv) (snd kv) d) d0 ps))
     = set (map fst d0) \<union> set (map fst ps)"
proof (induction ps arbitrary: d0)
  case Nil
  then show ?case by simp
next
  case (Cons p ps)
  show ?case unfolding foldl_Cons Cons.IH slot_set_keys by auto
qed

lemma dict_of_fields:
  assumes "distinct (map fname fs)"
  shows "set (map fst (dict_of (map (\<lambda>f. (fname f, vals f)) fs))) = fname ` set fs"
    and "f \<in> set fs \<Longrightarrow> map_of (dict_of (map (\<lambda>f. (fname f, vals f)) fs)) (fname f) = Some (vals f)"
proof -
  show "set (map fst (dict_of (map (\<lambda>f. (fname f, vals f)) fs))) = fname ` set fs"
    unfolding dict_of_def dict_of_keys_fold by (auto simp: image_iff)
  assume f: "f \<in> set fs"
  have d: "distinct (map fst (rev (map (\<lambda>f. (fname f, vals f)) fs)))"
    using assms by (simp add: rev_map[symmetric] comp_def distinct_rev)
  have "(fname f, vals f) \<in> set (rev (map (\<lambda>f. (fname f, vals f)) fs))" using f by auto
  then have "map_of (rev (map (\<lambda>f. (fname f, vals f)) fs)) (fname f) = Some (vals f)"
    using d by (rule map_of_is_SomeI[rotated])
  then show "map_of (dict_of (map (\<lambda>f. (fname f, vals f)) fs)) (fname f) = Some (vals f)"
    by (simp add: dict_of_def map_of_dict_of_fold)
qed

lemma rmap_all_ok: "(\<And>x. x \<in> set xs \<Longrightarrow> f x = Inr (g x)) \<Longrightarrow> rmap f xs = Inr (map g xs)"
  by (induction xs) auto

lemma EWSElement_from_xml_ok:
  assumes "class_wf cls" "\<And>f. f \<in> set (FIELDS cls) \<Longrightarrow> fxml f elem = Inr (vals f)"
  shows "\<exists>attrs. EWSElement_from_xml R fxml cls elem = Inr (PElem cls attrs)
          \<and> (\<forall>f \<in> set (FIELDS cls). slot_get attrs (fname f) = Inr (vals f))"
proof -
  let ?kw = "dict_of (map (\<lambda>f. (fname f, vals f)) (FIELDS cls))"
  have d: "distinct (map fname (FIELDS cls))" using assms(1) by (simp add: class_wf_def)
  have r: "rmap (\<lambda>f. case fxml f elem of Inl e \<Rightarrow> Inl e | Inr v \<Rightarrow> Inr (fname f, v)) (FIELDS cls)
      = Inr (map (\<lambda>f. (fname f, vals f)) (FIELDS cls))"
    by (rule rmap_all_ok) (simp add: assms(2))
  have e: "EWSElement_from_xml R fxml cls elem = EWSElement_init R cls ?kw"
    by (simp add: EWSElement_from_xml_def r)
  have keys: "set (map fst ?kw) \<subseteq> fname ` set (FIELDS cls)"
    using dict_of_fields(1)[OF d, of vals] by simp
  obtain attrs where a: "EWSElement_init R cls ?kw = Inr (PElem cls attrs)"
    and g: "\<forall>f \<in> set (FIELDS cls). slot_get attrs (fname f)
                  = Inr (case map_of ?kw (fname f) of None \<Rightarrow> PNone | Some v \<Rightarrow> v)"
    using EWSElement_init_ok[OF assms(1) keys, of R] by blast
  have "\<forall>f \<in> set (FIELDS cls). slot_get attrs (fname f) = Inr (vals f)"
    using g dict_of_fields(2)[OF d, of _ vals] by simp
  then show ?thesis using e a by simp
qed

lemma hasattr_slot: "slot_get attrs k = Inr v \<Longrightarrow> hasattr R c attrs k"
  by (auto simp: hasattr_def slot_get_def split: option.splits)

lemma EWSElement_clean_loop_ok:
  assumes "fname ` set fs \<subseteq> set (slots_keys c)" "distinct (map fname fs)"
    "\<And>f. f \<in> set fs \<Longrightarrow> \<exists>v. slot_get attrs (fname f) = Inr v \<and> fclean f v version = Inr (cl (fname f))"
    "\<And>f v. f \<in> set fs \<Longrightarrow> version = Some v \<Longrightarrow> supports f v"
  shows "\<exists>attrs'. EWSElement_clean_loop R supports fclean c version fs attrs = Inr attrs'
           \<and> (\<forall>n. slot_get attrs' n
                  = (if n \<in> fname ` set fs then Inr (cl n) else slot_get attrs n))"
  using assms
proof (induction fs arbitrary: attrs)
  case Nil
  then show ?case by simp
next
  case (Cons f fs)
  obtain v where v: "slot_get attrs (fname f) = Inr v" and cv: "fclean f v version = Inr (cl (fname f))"
    using Cons.prems(3)[of f] by auto
  have noskip: "\<not> (case version of None \<Rightarrow> False | Some v \<Rightarrow> \<not> supports f v)"
    using Cons.prems(4)[of f] by (cases version) auto
  have sl: "fname f \<in> set (slots_keys c)" using Cons.prems(1) by simp
  let ?a = "slot_set (fname f) (cl (fname f)) attrs"
  have step: "EWSElement_clean_loop R supports fclean c version (f # fs) attrs
      = EWSElement_clean_loop R supports fclean c version fs ?a"
    using noskip v cv hasattr_slot[OF v, of R c]
    by (simp add: EWSElement_setattr_slot[OF sl])
  have nin: "fname f \<notin> fname ` set fs" using Cons.prems(2) by auto
  have p3: "\<exists>v. slot_get ?a (fname g) = Inr v \<and> fclean g v version = Inr (cl (fname g))"
    if "g \<in> set fs" for g
  proof -
    have "fname g \<noteq> fname f" using that nin by (metis imageI)
    then have "slot_get ?a (fname g) = slot_get attrs (fname g)" by (simp add: slot_get_slot_set)
    then show ?thesis using Cons.prems(3)[of g] that by simp
  qed
  have "\<exists>attrs'. EWSElement_clean_loop R supports fclean c version fs ?a = Inr attrs'
           \<and> (\<forall>n. slot_get attrs' n
                  = (if n \<in> fname ` set fs then Inr (cl n) else slot_get ?a n))"
    using Cons.prems(1,2,4) p3 by (intro Cons.IH) auto
  then obtain attrs' where l: "EWSElement_clean_loop R supports fclean c version fs ?a = Inr attrs'"
    and g: "\<And>n. slot_get attrs' n = (if n \<in> fname ` set fs then Inr (cl n) else slot_get ?a n)"
    by blast
  have "slot_get attrs' n = (if n \<in> fname ` set (f # fs) then Inr (cl n) else slot_get attrs n)" for n
    using g[of n] by (simp add: slot_get_slot_set)
  then show ?case unfolding step l by blast
qed

lemma occurrence_field: "''occurrence'' \<in> fname ` set (FIELDS StandardTime_cls)"
  by (simp add: TimeZoneTransition_FIELDS_def plain_field_def)

text \<open>
  Claim C4. Whenever \<^verbatim>\<open>clean\<close> or \<^verbatim>\<open>from_xml\<close> of a transition descriptor returns, the occurrence of the
  result is not -1. With field parsers (field validators) that succeed and give the integer
  \<open>n\<close> for the occurrence, the call returns, the occurrence of the result is 5 when
  \<open>n\<close> is -1 and \<open>n\<close> otherwise, so that 5 stays 5, and every other field holds
  the value given for it.
\<close>

theorem occurrence_normalised:
  "(TimeZoneTransition_clean R supports fclean self version = Inr self' \<longrightarrow>
       attr_of self' ''occurrence'' \<noteq> Inr (PInt (- 1)))
   \<and> (TimeZoneTransition_from_xml R fxml cls elem = Inr res \<longrightarrow>
       attr_of res ''occurrence'' \<noteq> Inr (PInt (- 1)))
   \<and> (class_wf cls \<and> ''occurrence'' \<in> fname ` set (FIELDS cls)
        \<and> (\<forall>f \<in> set (FIELDS cls). fxml f elem = Inr (vals (fname f)))
        \<and> vals ''occurrence'' = PInt n \<longrightarrow>
       (\<exists>attrs. TimeZoneTransition_from_xml R fxml cls elem = Inr (PElem cls attrs)
          \<and> slot_get attrs ''occurrence'' = Inr (PInt (if n = - 1 then 5 else n))
          \<and> (\<forall>f \<in> set (FIELDS cls). fname f \<noteq> ''occurrence'' \<longrightarrow>
                slot_get attrs (fname f) = Inr (vals (fname f)))))
   \<and> (class_wf cls \<and> ''occurrence'' \<in> fname ` set (FIELDS cls)
        \<and> (\<forall>f \<in> set (FIELDS cls).
              \<exists>v. slot_get a (fname f) = Inr v \<and> fclean f v version = Inr (cl (fname f)))
        \<and> (\<forall>f \<in> set (FIELDS cls). \<forall>v. version = Some v \<longrightarrow> supports f v)
        \<and> cl ''occurrence'' = PInt n \<longrightarrow>
       (\<exists>a'. TimeZoneTransition_clean R supports fclean (PElem cls a) version = Inr (PElem cls a')
          \<and> slot_get a' ''occurrence'' = Inr (PInt (if n = - 1 then 5 else n))
          \<and> (\<forall>f \<in> set (FIELDS cls). fname f \<noteq> ''occurrence'' \<longrightarrow>
                slot_get a' (fname f) = Inr (cl (fname f)))))"
proof (intro conjI impI)
  assume "TimeZoneTransition_clean R supports fclean self version = Inr self'"
  then obtain s where "settle_occurrence R s = Inr self'"
    by (auto simp: TimeZoneTransition_clean_def split: sum.splits)
  then show "attr_of self' ''occurrence'' \<noteq> Inr (PInt (- 1))"
    by (rule settle_occurrence_never_minus1)
next
  assume "TimeZoneTransition_from_xml R fxml cls elem = Inr res"
  then obtain s where "settle_occurrence R s = Inr res"
    by (auto simp: TimeZoneTransition_from_xml_def split: sum.splits)
  then show "attr_of res ''occurrence'' \<noteq> Inr (PInt (- 1))"
    by (rule settle_occurrence_never_minus1)
next
  assume A: "class_wf cls \<and> ''occurrence'' \<in> fname ` set (FIELDS cls)
        \<and> (\<forall>f \<in> set (FIELDS cls). fxml f elem = Inr (vals (fname f)))
        \<and> vals ''occurrence'' = PInt n"
  then have wf: "class_wf cls" and occ: "''occurrence'' \<in> fname ` set (FIELDS cls)"
    and fx: "\<And>f. f \<in> set (FIELDS cls) \<Longrightarrow> fxml f elem = Inr (vals (fname f))"
    and vo: "vals ''occurrence'' = PInt n"
    by auto
  obtain attrs where e: "EWSElement_from_xml R fxml cls elem = Inr (PElem cls attrs)"
    and g: "\<forall>f \<in> set (FIELDS cls). slot_get attrs (fname f) = Inr (vals (fname f))"
    using EWSElement_from_xml_ok[OF wf, of fxml elem "\<lambda>f. vals (fname f)" R] fx by blast
  have so: "slot_get attrs ''occurrence'' = Inr (PInt n)" using g occ vo by auto
  have sl: "''occurrence'' \<in> set (slots_keys cls)" using wf occ by (auto simp: class_wf_def)
  obtain a' where s: "settle_occurrence R (PElem cls attrs) = Inr (PElem cls a')"
    and s1: "slot_get a' ''occurrence'' = Inr (PInt (if n = - 1 then 5 else n))"
    and s2: "\<forall>k'. k' \<noteq> ''occurrence'' \<longrightarrow> slot_get a' k' = slot_get attrs k'"
    using settle_occurrence_int[OF so sl refl, of R] by blast
  have "TimeZoneTransition_from_xml R fxml cls elem = Inr (PElem cls a')"
    by (simp add: TimeZoneTransition_from_xml_def e s)
  moreover have "\<forall>f \<in> set (FIELDS cls). fname f \<noteq> ''occurrence'' \<longrightarrow>
                slot_get a' (fname f) = Inr (vals (fname f))"
    using s2 g by simp
  ultimately show "\<exists>attrs. TimeZoneTransition_from_xml R fxml cls elem = Inr (PElem cls attrs)
          \<and> slot_get attrs ''occurrence'' = Inr (PInt (if n = - 1 then 5 else n))
          \<and> (\<forall>f \<in> set (FIELDS cls). fname f \<noteq> ''occurrence'' \<longrightarrow>
                slot_get attrs (fname f) = Inr (vals (fname f)))"
    using s1 by blast
next
  assume A: "class_wf cls \<and> ''occurrence'' \<in> fname ` set (FIELDS cls)
        \<and> (\<forall>f \<in> set (FIELDS cls).
              \<exists>v. slot_get a (fname f) = Inr v \<and> fclean f v version = Inr (cl (fname f)))
        \<and> (\<forall>f \<in> set (FIELDS cls). \<forall>v. version = Some v \<longrightarrow> supports f v)
        \<and> cl ''occurrence'' = PInt n"
  then have wf: "class_wf cls" and occ: "''occurrence'' \<in> fname ` set (FIELDS cls)"
    and co: "cl ''occurrence'' = PInt n"
    by auto
  have d: "distinct (map fname (FIELDS cls))" and ss: "fname ` set (FIELDS cls) \<subseteq> set (slots_keys cls)"
    using wf by (auto simp: class_wf_def)
  obtain a1 where l: "EWSElement_clean_loop R supports fclean cls version (FIELDS cls) a = Inr a1"
    and g: "\<And>k. slot_get a1 k = (if k \<in> fname ` set (FIELDS cls) then Inr (cl k) else slot_get a k)"
    using EWSElement_clean_loop_ok[OF ss d, of a fclean version cl supports R] A by blast
  have so: "slot_get a1 ''occurrence'' = Inr (PInt n)" using g[of "''occurrence''"] occ co by simp
  have sl: "''occurrence'' \<in> set (slots_keys cls)" using ss occ by auto
  obtain a' where s: "settle_occurrence R (PElem cls a1) = Inr (PElem cls a')"
    and s1: "slot_get a' ''occurrence'' = Inr (PInt (if n = - 1 then 5 else n))"
    and s2: "\<forall>k'. k' \<noteq> ''occurrence'' \<longrightarrow> slot_get a' k' = slot_get a1 k'"
    using settle_occurrence_int[OF so sl refl, of R] by blast
  have "TimeZoneTransition_clean R supports fclean (PElem cls a) version = Inr (PElem cls a')"
    by (simp add: TimeZoneTransition_clean_def EWSElement_clean_def l s)
  moreover have "\<forall>f \<in> set (FIELDS cls). fname f \<noteq> ''occurrence'' \<longrightarrow>
                slot_get a' (fname f) = Inr (cl (fname f))"
    using s2 g by simp
  ultimately show "\<exists>a'. TimeZoneTransition_clean R supports fclean (PElem cls a) version = Inr (PElem cls a')
          \<and> slot_get a' ''occurrence'' = Inr (PInt (if n = - 1 then 5 else n))
          \<and> (\<forall>f \<in> set (FIELDS cls). fname f \<noteq> ''occurrence'' \<longrightarrow>
                slot_get a' (fname f) = Inr (cl (fname f)))"
    using s1 by blast
qed

theorem occurrence_normalised_witness:
  "class_wf StandardTime_cls \<and> ''occurrence'' \<in> fname ` set (FIELDS StandardTime_cls)
   \<and> (\<exists>attrs. TimeZoneTransition_from_xml example_runtime
                (\<lambda>f (e :: unit). Inr (if fname f = ''occurrence'' then PInt (- 1) else PInt 1))
                StandardTime_cls ()
              = Inr (PElem StandardTime_cls attrs)
         \<and> slot_get attrs ''occurrence'' = Inr (PInt 5)
         \<and> attr_of (PElem StandardTime_cls attrs) ''occurrence'' \<noteq> Inr (PInt (- 1)))
   \<and> (\<exists>a'. TimeZoneTransition_clean example_runtime (\<lambda>f (v :: unit). True) (\<lambda>f v ver. Inr v)
              (PElem StandardTime_cls (example_last_transition (- 1))) None
            = Inr (PElem StandardTime_cls a')
         \<and> slot_get a' ''occurrence'' = Inr (PInt 5)
         \<and> attr_of (PElem StandardTime_cls a') ''occurrence'' \<noteq> Inr (PInt (- 1)))
   \<and> (\<exists>a'. TimeZoneTransition_clean example_runtime (\<lambda>f (v :: unit). True) (\<lambda>f v ver. Inr v)
              (PElem StandardTime_cls (example_last_transition 5)) None
            = Inr (PElem StandardTime_cls a')
         \<and> slot_get a' ''occurrence'' = Inr (PInt 5))"
proof -
  let ?fx = "\<lambda>f (e :: unit). Inr (if fname f = ''occurrence'' then PInt (- 1) else PInt 1) :: error + pyval"
  let ?vals = "\<lambda>k. if k = ''occurrence'' then PInt (- 1) else PInt 1"
  let ?sup = "\<lambda>(f :: field) (v :: unit). True"
  let ?fc = "\<lambda>(f :: field) (v :: pyval) (ver :: unit option). Inr v :: error + pyval"
  let ?cl = "\<lambda>n k. case map_of (example_last_transition n) k of None \<Rightarrow> PNone | Some v \<Rightarrow> v"
  note wf = class_wf_StandardTime
  note occ = occurrence_field
  have hx: "class_wf StandardTime_cls \<and> ''occurrence'' \<in> fname ` set (FIELDS StandardTime_cls)
        \<and> (\<forall>f \<in> set (FIELDS StandardTime_cls). ?fx f () = Inr (?vals (fname f)))
        \<and> ?vals ''occurrence'' = PInt (- 1)"
    using wf occ by simp
  have hc: "class_wf StandardTime_cls \<and> ''occurrence'' \<in> fname ` set (FIELDS StandardTime_cls)
        \<and> (\<forall>f \<in> set (FIELDS StandardTime_cls).
              \<exists>v. slot_get (example_last_transition n) (fname f) = Inr v
                 \<and> ?fc f v None = Inr (?cl n (fname f)))
        \<and> (\<forall>f \<in> set (FIELDS StandardTime_cls). \<forall>v. (None :: unit option) = Some v \<longrightarrow> ?sup f v)
        \<and> ?cl n ''occurrence'' = PInt n" for n
    using wf occ
    by (simp add: TimeZoneTransition_FIELDS_def plain_field_def example_last_transition_def slot_get_def)
  note T = occurrence_normalised[where R = example_runtime and cls = StandardTime_cls
      and fxml = ?fx and elem = "()" and vals = ?vals and supports = ?sup and fclean = ?fc
      and version = None]
  obtain attrs where x1: "TimeZoneTransition_from_xml example_runtime ?fx StandardTime_cls ()
              = Inr (PElem StandardTime_cls attrs)"
    and x2: "slot_get attrs ''occurrence'' = Inr (PInt (if (- 1 :: int) = - 1 then 5 else - 1))"
    using T[where n = "- 1", THEN conjunct2, THEN conjunct2, THEN conjunct1, rule_format, OF hx]
    by blast
  have x3: "attr_of (PElem StandardTime_cls attrs) ''occurrence'' \<noteq> Inr (PInt (- 1))"
    using T[where res = "PElem StandardTime_cls attrs", THEN conjunct2, THEN conjunct1, rule_format, OF x1] .
  obtain a1 where y1: "TimeZoneTransition_clean example_runtime ?sup ?fc
              (PElem StandardTime_cls (example_last_transition (- 1))) None
            = Inr (PElem StandardTime_cls a1)"
    and y2: "slot_get a1 ''occurrence'' = Inr (PInt (if (- 1 :: int) = - 1 then 5 else - 1))"
    using T[where n = "- 1" and a = "example_last_transition (- 1)" and cl = "?cl (- 1)",
        THEN conjunct2, THEN conjunct2, THEN conjunct2, rule_format, OF hc]
    by blast
  have y3: "attr_of (PElem StandardTime_cls a1) ''occurrence'' \<noteq> Inr (PInt (- 1))"
    using T[where self = "PElem StandardTime_cls (example_last_transition (- 1))"
        and self' = "PElem StandardTime_cls a1", THEN conjunct1, rule_format, OF y1] .
  obtain a5 where z1: "TimeZoneTransition_clean example_runtime ?sup ?fc
              (PElem StandardTime_cls (example_last_transition 5)) None
            = Inr (PElem StandardTime_cls a5)"
    and z2: "slot_get a5 ''occurrence'' = Inr (PInt (if (5 :: int) = - 1 then 5 else 5))"
    using T[where n = 5 and a = "example_last_transition 5" and cl = "?cl 5",
        THEN conjunct2, THEN conjunct2, THEN conjunct2, rule_format, OF hc]
    by blast
  have x2': "slot_get attrs ''occurrence'' = Inr (PInt 5)" using x2 by simp
  have y2': "slot_get a1 ''occurrence'' = Inr (PInt 5)" using y2 by simp
  have z2': "slot_get a5 ''occurrence'' = Inr (PInt 5)" using z2 by simp
  have p1: "\<exists>attrs. TimeZoneTransition_from_xml example_runtime ?fx StandardTime_cls ()
              = Inr (PElem StandardTime_cls attrs)
         \<and> slot_get attrs ''occurrence'' = Inr (PInt 5)
         \<and> attr_of (PElem StandardTime_cls attrs) ''occurrence'' \<noteq> Inr (PInt (- 1))"
    by (rule exI[of _ attrs]) (intro conjI x1 x2' x3)
  have p2: "\<exists>a'. TimeZoneTransition_clean example_runtime ?sup ?fc
              (PElem StandardTime_cls (example_last_transition (- 1))) None
            = Inr (PElem StandardTime_cls a')
         \<and> slot_get a' ''occurrence'' = Inr (PInt 5)
         \<and> attr_of (PElem StandardTime_cls a') ''occurrence'' \<noteq> Inr (PInt (- 1))"
    by (rule exI[of _ a1]) (intro conjI y1 y2' y3)
  have p3: "\<exists>a'. TimeZoneTransition_clean example_runtime ?sup ?fc
              (PElem StandardTime_cls (example_last_transition 5)) None
            = Inr (PElem StandardTime_cls a')
         \<and> slot_get a' ''occurrence'' = Inr (PInt 5)"
    by (rule exI[of _ a5]) (intro conjI z1 z2')
  show ?thesis
    by (intro conjI wf occ p1 p2 p3)
qed

section \<open>The minutes of a timedelta\<close>

lemma bit_length_le: "n < 2 ^ m \<Longrightarrow> bit_length n \<le> m"
proof (induction m arbitrary: n)
  case 0
  then show ?case by (simp add: bit_length.simps)
next
  case (Suc m)
  show ?case
  proof (cases "n = 0")
    case True
    then show ?thesis by (simp add: bit_length.simps)
  next
    case False
    have "n div 2 < 2 ^ m" using Suc.prems by auto
    then have "bit_length (n div 2) \<le> m" by (rule Suc.IH)
    then show ?thesis using False by (subst bit_length.simps) simp
  qed
qed

lemma round_half_even_exact: "0 < q \<Longrightarrow> round_half_even (k * q) q = k"
  by (simp add: round_half_even_def)

lemma seconds_trunc_exact:
  assumes "k < 2 ^ 53"
  shows "seconds_trunc (k * 1000000) = k"
proof -
  have n: "bit_length k \<le> 53" using assms by (rule bit_length_le)
  have "round_half_even (k * 1000000 * 2 ^ (53 - bit_length k)) 1000000 = k * 2 ^ (53 - bit_length k)"
    using round_half_even_exact[of 1000000 "k * 2 ^ (53 - bit_length k)"] by (simp add: mult_ac)
  then show ?thesis using n by (simp add: seconds_trunc_def)
qed

lemma timedelta_minutes_exact:
  assumes "\<bar>m\<bar> < 2 ^ 47"
  shows "timedelta_minutes (m * 60000000) = m"
proof -
  have "nat \<bar>m * 60000000\<bar> = nat (\<bar>m\<bar> * 60) * 1000000"
    by (simp add: abs_mult nat_mult_distrib)
  moreover have "nat (\<bar>m\<bar> * 60) < 2 ^ 53" using assms by simp
  ultimately have "seconds_trunc (nat \<bar>m * 60000000\<bar>) = nat (\<bar>m\<bar> * 60)"
    using seconds_trunc_exact by simp
  then have "sgn (m * 60000000) * int (seconds_trunc (nat \<bar>m * 60000000\<bar>)) = m * 60"
    by (simp add: sgn_mult mult.assoc[symmetric] mult_sgn_abs)
  then show ?thesis by (simp add: timedelta_minutes_def)
qed

lemma timedelta_minutes_examples:
  "timedelta_minutes 3600000000 = 60" "timedelta_minutes 7200000000 = 120"
  "timedelta_minutes (- 120000000) = - 2"
  using timedelta_minutes_exact[of 60] timedelta_minutes_exact[of 120]
    timedelta_minutes_exact[of "- 2"] by simp_all

section \<open>Deriving a timezone from the server tables\<close>

lemma init_transition:
  assumes "FIELDS c = TimeZoneTransition_FIELDS" "slots_keys c = map fname TimeZoneTransition_FIELDS"
  shows "EWSElement_init R c
           [(''bias'', b), (''time'', t), (''occurrence'', oc), (''iso_month'', m), (''weekday'', w)]
         = Inr (PElem c
           [(''bias'', b), (''time'', t), (''occurrence'', oc), (''iso_month'', m), (''weekday'', w)])"
    and "EWSElement_init R c
           [(''time'', t), (''occurrence'', oc), (''iso_month'', m), (''weekday'', w), (''bias'', b)]
         = Inr (PElem c
           [(''bias'', b), (''time'', t), (''occurrence'', oc), (''iso_month'', m), (''weekday'', w)])"
proof -
  have sl: "k \<in> set (slots_keys c) \<longleftrightarrow>
      k = ''bias'' \<or> k = ''time'' \<or> k = ''occurrence'' \<or> k = ''iso_month'' \<or> k = ''weekday''" for k
    by (auto simp: assms(2) TimeZoneTransition_FIELDS_def plain_field_def)
  have sa: "EWSElement_setattr R c a k v = Inr (slot_set k v a)"
    if "k = ''bias'' \<or> k = ''time'' \<or> k = ''occurrence'' \<or> k = ''iso_month'' \<or> k = ''weekday''"
    for a k v
    using that sl[of k] by (simp add: EWSElement_setattr_slot)
  show "EWSElement_init R c
           [(''bias'', b), (''time'', t), (''occurrence'', oc), (''iso_month'', m), (''weekday'', w)]
         = Inr (PElem c
           [(''bias'', b), (''time'', t), (''occurrence'', oc), (''iso_month'', m), (''weekday'', w)])"
    by (simp add: EWSElement_init_def assms(1) TimeZoneTransition_FIELDS_def plain_field_def
        dict_pop_def sa)
  show "EWSElement_init R c
           [(''time'', t), (''occurrence'', oc), (''iso_month'', m), (''weekday'', w), (''bias'', b)]
         = Inr (PElem c
           [(''bias'', b), (''time'', t), (''occurrence'', oc), (''iso_month'', m), (''weekday'', w)])"
    by (simp add: EWSElement_init_def assms(1) TimeZoneTransition_FIELDS_def plain_field_def
        dict_pop_def sa)
qed

lemma init_TimeZone:
  "EWSElement_init R TimeZone_cls [(''bias'', b), (''standard_time'', s), (''daylight_time'', d)]
     = Inr (PElem TimeZone_cls [(''bias'', b), (''standard_time'', s), (''daylight_time'', d)])"
proof -
  have sa: "EWSElement_setattr R TimeZone_cls a k v = Inr (slot_set k v a)"
    if "k = ''bias'' \<or> k = ''standard_time'' \<or> k = ''daylight_time''" for a k v
    using that
    by (intro EWSElement_setattr_slot) (auto simp: TimeZone_cls_def TimeZone_FIELDS_def plain_field_def)
  show ?thesis
    by (simp add: EWSElement_init_def TimeZone_FIELDS_def plain_field_def dict_pop_def sa)
qed

lemma init_dummy_standard:
  "EWSElement_init R StandardTime_cls dummy_standard_kwargs = Inr dummy_standard_time"
  unfolding dummy_standard_kwargs_def dummy_standard_time_def
  by (rule init_transition) (simp_all add: StandardTime_cls_def)

lemma init_dummy_daylight:
  "EWSElement_init R DaylightTime_cls dummy_daylight_kwargs = Inr dummy_daylight_time"
  unfolding dummy_daylight_kwargs_def dummy_daylight_time_def
  by (rule init_transition) (simp_all add: DaylightTime_cls_def)

lemma std_and_dst_loop_simple:
  assumes "\<forall>t \<in> set ts. transition_len t = 1 \<and> map_of periods (t_to t) \<noteq> None"
  shows "std_and_dst_loop R periods bias ts st
           = Inr (if ts = [] then st else (dummy_standard_time, dummy_daylight_time))"
  using assms
proof (induction ts arbitrary: st)
  case Nil
  then show ?case by (cases st) simp
next
  case (Cons t ts)
  obtain p where p: "map_of periods (t_to t) = Some p" using Cons.prems by auto
  have l: "transition_len t = 1" using Cons.prems by simp
  obtain s d where st: "st = (s, d)" by (cases st)
  have "std_and_dst_loop R periods bias (t # ts) st
      = std_and_dst_loop R periods bias ts (dummy_standard_time, dummy_daylight_time)"
    unfolding st by (simp add: p l init_dummy_standard init_dummy_daylight)
  also have "\<dots> = Inr (if ts = [] then (dummy_standard_time, dummy_daylight_time)
                      else (dummy_standard_time, dummy_daylight_time))"
    using Cons.prems by (intro Cons.IH) simp
  finally show ?case by simp
qed

lemma example_bias: "TimeZone_get_bias example_periods 2020 = Inr 120"
  by (simp add: TimeZone_get_bias_def example_periods_def timedelta_minutes_examples)

lemma example_no_transition: "TimeZone_get_valid_transition_id [] 2020 = Inl (NoValidTransition 2020)"
  by (simp add: TimeZone_get_valid_transition_id_def)

lemma example_transition_id: "TimeZone_get_valid_transition_id [(0, None)] 2020 = Inr 0"
  by (simp add: TimeZone_get_valid_transition_id_def)

text \<open>
  Claim C2 (as amended). With a base bias for the year: when the selected transition group holds
  no transition, \<^verbatim>\<open>from_server_timezone\<close> returns the timezone with the base bias and neither a standard nor a
  daylight time; when it holds one or two transitions that each carry nothing but a reference to
  a known period, it returns the timezone with the base bias and the two dummy descriptors; and
  with an empty transitions table it fails with the error of no valid transition.
\<close>

theorem from_server_timezone_simple_group:
  assumes "TimeZone_get_bias periods for_year = Inr bias"
  shows
   "(TimeZone_get_valid_transition_id transitions for_year = Inr g \<and> map_of groups g = Some [] \<longrightarrow>
       TimeZone_from_server_timezone R periods transitions groups for_year
         = Inr (PElem TimeZone_cls
             [(''bias'', PInt bias), (''standard_time'', PNone), (''daylight_time'', PNone)]))
    \<and> (TimeZone_get_valid_transition_id transitions for_year = Inr g \<and> map_of groups g = Some ts
        \<and> ts \<noteq> [] \<and> length ts \<le> 2
        \<and> (\<forall>t \<in> set ts. transition_len t = 1 \<and> map_of periods (t_to t) \<noteq> None) \<longrightarrow>
       TimeZone_from_server_timezone R periods transitions groups for_year
         = Inr (PElem TimeZone_cls
             [(''bias'', PInt bias), (''standard_time'', dummy_standard_time),
              (''daylight_time'', dummy_daylight_time)]))
    \<and> TimeZone_from_server_timezone R periods [] groups for_year = Inl (NoValidTransition for_year)"
proof (intro conjI impI)
  assume A: "TimeZone_get_valid_transition_id transitions for_year = Inr g \<and> map_of groups g = Some []"
  have "TimeZone_get_std_and_dst R [] periods bias = Inr (PNone, PNone)"
    by (simp add: TimeZone_get_std_and_dst_def)
  then show "TimeZone_from_server_timezone R periods transitions groups for_year
         = Inr (PElem TimeZone_cls
             [(''bias'', PInt bias), (''standard_time'', PNone), (''daylight_time'', PNone)])"
    using A assms by (simp add: TimeZone_from_server_timezone_def init_TimeZone)
next
  assume A: "TimeZone_get_valid_transition_id transitions for_year = Inr g \<and> map_of groups g = Some ts
        \<and> ts \<noteq> [] \<and> length ts \<le> 2
        \<and> (\<forall>t \<in> set ts. transition_len t = 1 \<and> map_of periods (t_to t) \<noteq> None)"
  then have "TimeZone_get_std_and_dst R ts periods bias = Inr (dummy_standard_time, dummy_daylight_time)"
    using std_and_dst_loop_simple[of ts periods R bias "(PNone, PNone)"]
    by (simp add: TimeZone_get_std_and_dst_def)
  then show "TimeZone_from_server_timezone R periods transitions groups for_year
         = Inr (PElem TimeZone_cls
             [(''bias'', PInt bias), (''standard_time'', dummy_standard_time),
              (''daylight_time'', dummy_daylight_time)])"
    using A assms by (simp add: TimeZone_from_server_timezone_def init_TimeZone)
next
  show "TimeZone_from_server_timezone R periods [] groups for_year = Inl (NoValidTransition for_year)"
    using assms
    by (simp add: TimeZone_from_server_timezone_def TimeZone_get_valid_transition_id_def)
qed

text \<open>
  Claim C2 as stated does not hold of the periods with a standard bias of 120 minutes in 2020:
  with an empty transitions table the call fails, and with a selected group of no transition it
  returns the timezone of bias 120 without any descriptor.
\<close>

theorem from_server_timezone_counterexample:
  "TimeZone_from_server_timezone example_runtime example_periods [] [] 2020
     = Inl (NoValidTransition 2020)
   \<and> TimeZone_from_server_timezone example_runtime example_periods [(0, None)] [(0, [])] 2020
     = Inr (PElem TimeZone_cls
         [(''bias'', PInt 120), (''standard_time'', PNone), (''daylight_time'', PNone)])"
  by (simp add: TimeZone_from_server_timezone_def example_bias example_no_transition
      example_transition_id TimeZone_get_std_and_dst_def init_TimeZone)

theorem from_server_timezone_simple_group_witness:
  "TimeZone_get_bias example_periods 2020 = Inr 120
   \<and> TimeZone_get_valid_transition_id [(0, None)] 2020 = Inr 0
   \<and> TimeZone_from_server_timezone example_runtime example_periods [(0, None)] [(0, [])] 2020
       = Inr (PElem TimeZone_cls
           [(''bias'', PInt 120), (''standard_time'', PNone), (''daylight_time'', PNone)])
   \<and> TimeZone_from_server_timezone example_runtime example_periods [(0, None)]
         [(0, [simple_transition])] 2020
       = Inr (PElem TimeZone_cls
           [(''bias'', PInt 120), (''standard_time'', dummy_standard_time),
            (''daylight_time'', dummy_daylight_time)])
   \<and> TimeZone_from_server_timezone example_runtime example_periods [] [(0, [simple_transition])] 2020
       = Inl (NoValidTransition 2020)"
proof -
  note T1 = from_server_timezone_simple_group[OF example_bias, where R = example_runtime
      and transitions = "[(0, None)]" and g = 0 and groups = "[(0, [])]"]
  note T2 = from_server_timezone_simple_group[OF example_bias, where R = example_runtime
      and transitions = "[(0, None)]" and g = 0 and groups = "[(0, [simple_transition])]"
      and ts = "[simple_transition]"]
  have h1: "TimeZone_get_valid_transition_id [(0, None)] 2020 = Inr 0
      \<and> map_of [(0 :: int, [] :: transition list)] 0 = Some []"
    by (simp add: example_transition_id)
  have h2: "TimeZone_get_valid_transition_id [(0, None)] 2020 = Inr 0
      \<and> map_of [(0 :: int, [simple_transition])] 0 = Some [simple_transition]
      \<and> [simple_transition] \<noteq> [] \<and> length [simple_transition] \<le> 2
      \<and> (\<forall>t \<in> set [simple_transition].
            transition_len t = 1 \<and> map_of example_periods (t_to t) \<noteq> None)"
    by (simp add: example_transition_id transition_len_def simple_transition_def example_periods_def)
  note c1 = T1[THEN conjunct1, rule_format, OF h1]
  note c2 = T2[THEN conjunct2, THEN conjunct1, rule_format, OF h2]
  note c3 = T2[THEN conjunct2, THEN conjunct2]
  show ?thesis
    by (intro conjI example_bias example_transition_id c1 c2 c3)
qed

section \<open>Matching a timezone against the catalogue\<close>

lemma loop_step_inexact:
  assumes "inexact_entry R self y x"
  shows "to_server_timezone_loop R self y (x # xs) C
          = to_server_timezone_loop R self y xs (if qualifies R self y x then insert (fst x) C else C)"
proof -
  obtain i n p t g where x: "x = (i, n, p, t, g)" by (cases x)
  obtain cand where c: "TimeZone_from_server_timezone R p t g y = Inr cand"
    and e: "elem_eq R cand self = Inr False"
    and b: "\<exists>b. biases_match R cand self = Inr b"
    using assms unfolding x
    by (auto simp: inexact_entry_def tz_candidate_def split: sum.splits)
  obtain b where b': "biases_match R cand self = Inr b" using b by blast
  have q: "qualifies R self y x = b"
    unfolding x by (simp add: qualifies_def tz_candidate_def c b')
  show ?thesis
    unfolding x q[unfolded x] by (cases b) (simp_all add: c e b')
qed

lemma candidates_step:
  "(if Q a then insert (f a) C else C) \<union> f ` {z \<in> set as. Q z}
     = C \<union> f ` {z \<in> set (a # as). Q z}"
  by auto

lemma loop_inexact:
  assumes "\<forall>x \<in> set xs. inexact_entry R self y x"
  shows "to_server_timezone_loop R self y xs C
          = Inr (Candidates (C \<union> fst ` {x \<in> set xs. qualifies R self y x}))"
  using assms
proof (induction xs arbitrary: C)
  case Nil
  then show ?case by simp
next
  case (Cons x xs)
  have "to_server_timezone_loop R self y (x # xs) C
      = to_server_timezone_loop R self y xs (if qualifies R self y x then insert (fst x) C else C)"
    using Cons.prems by (intro loop_step_inexact) simp
  also have "\<dots> = Inr (Candidates ((if qualifies R self y x then insert (fst x) C else C)
                    \<union> fst ` {x \<in> set xs. qualifies R self y x}))"
    using Cons.prems by (intro Cons.IH) simp
  also have "(if qualifies R self y x then insert (fst x) C else C)
                    \<union> fst ` {x \<in> set xs. qualifies R self y x}
      = C \<union> fst ` {z \<in> set (x # xs). qualifies R self y z}"
    by (rule candidates_step)
  finally show ?case .
qed

lemma loop_exact:
  assumes "\<forall>x \<in> set pre. inexact_entry R self y x"
    "tz_candidate R y entry = Inr cand" "elem_eq R cand self = Inr True"
  shows "to_server_timezone_loop R self y (pre @ entry # post) C = Inr (ExactMatch (fst entry))"
  using assms(1)
proof (induction pre arbitrary: C)
  case Nil
  obtain i n p t g where x: "entry = (i, n, p, t, g)" by (cases entry)
  show ?case using assms(2,3) unfolding x by (simp add: tz_candidate_def)
next
  case (Cons x pre)
  have "to_server_timezone_loop R self y ((x # pre) @ entry # post) C
      = to_server_timezone_loop R self y (pre @ entry # post)
          (if qualifies R self y x then insert (fst x) C else C)"
    using Cons.prems loop_step_inexact[of R self y x "pre @ entry # post" C] by simp
  then show ?case using Cons by simp
qed

lemma side_bias_matches:
  assumes "side_bias candidate k = Some x" "side_bias self k = Some z"
  shows "transition_bias_matches R k candidate self = Inr (x = z)"
proof -
  obtain cv where cv: "attr_of candidate k = Inr cv"
    using assms(1) by (auto simp: side_bias_def split: sum.splits)
  obtain sv where sv: "attr_of self k = Inr sv"
    using assms(2) by (auto simp: side_bias_def split: sum.splits)
  show ?thesis
  proof (cases "cv = PNone")
    case True
    then have x: "x = None" using assms(1) cv by (simp add: side_bias_def)
    show ?thesis
    proof (cases "sv = PNone")
      case True
      then have "z = None" using assms(2) sv by (simp add: side_bias_def)
      then show ?thesis using x cv sv \<open>cv = PNone\<close> True by (simp add: transition_bias_matches_def)
    next
      case False
      then obtain m where "z = Some m"
        using assms(2) sv by (cases sv) (auto simp: side_bias_def split: sum.splits)
      then show ?thesis using x cv sv \<open>cv = PNone\<close> False
        by (cases sv) (simp_all add: transition_bias_matches_def)
    qed
  next
    case False
    then obtain n where n: "int_attr cv ''bias'' = Inr n" and x: "x = Some n"
      using assms(1) cv by (cases cv) (auto simp: side_bias_def split: sum.splits)
    show ?thesis
    proof (cases "sv = PNone")
      case True
      then have "z = None" using assms(2) sv by (simp add: side_bias_def)
      then show ?thesis using x cv sv False True
        by (cases cv) (simp_all add: transition_bias_matches_def)
    next
      case svn: False
      then obtain m where m: "int_attr sv ''bias'' = Inr m" and z: "z = Some m"
        using assms(2) sv by (cases sv) (auto simp: side_bias_def split: sum.splits)
      have "attr_of sv ''bias'' = Inr (PInt m)"
        using m by (auto simp: int_attr_def split: sum.splits pyval.splits)
      then have "transition_bias_matches R k candidate self = Inr (m = n)"
        using cv sv False svn n
        by (cases cv; cases sv) (simp_all add: transition_bias_matches_def)
      then show ?thesis using x z by auto
    qed
  qed
qed

lemma tz_biases_match:
  assumes "tz_biases candidate = Some x" "tz_biases self = Some z"
  shows "biases_match R candidate self = Inr (x = z)"
proof -
  obtain cb cs cd where x: "x = (cb, cs, cd)" by (cases x)
  obtain sb ss sd where z: "z = (sb, ss, sd)" by (cases z)
  have c: "int_attr candidate ''bias'' = Inr cb" "side_bias candidate ''standard_time'' = Some cs"
    "side_bias candidate ''daylight_time'' = Some cd"
    using assms(1) unfolding x by (auto simp: tz_biases_def split: sum.splits option.splits)
  have s: "int_attr self ''bias'' = Inr sb" "side_bias self ''standard_time'' = Some ss"
    "side_bias self ''daylight_time'' = Some sd"
    using assms(2) unfolding z by (auto simp: tz_biases_def split: sum.splits option.splits)
  have sa: "attr_of self ''bias'' = Inr (PInt sb)"
    using s(1) by (auto simp: int_attr_def split: sum.splits pyval.splits)
  note m1 = side_bias_matches[OF c(2) s(2), of R]
  note m2 = side_bias_matches[OF c(3) s(3), of R]
  show ?thesis
    unfolding x z using c(1) sa m1 m2
    by (cases "sb = cb"; cases "cs = ss") (auto simp: biases_match_def)
qed

lemma side_ok_transition:
  "side_ok (PElem c [(''bias'', PInt n), (''time'', t), (''occurrence'', oc), (''iso_month'', m),
      (''weekday'', w)])"
  by (simp add: side_ok_def int_attr_def slot_get_def)

lemma side_ok_dummies: "side_ok dummy_standard_time" "side_ok dummy_daylight_time"
  by (simp_all add: dummy_standard_time_def dummy_daylight_time_def dummy_standard_kwargs_def
      dummy_daylight_kwargs_def side_ok_transition)

lemma init_standard_side:
  "EWSElement_init R StandardTime_cls
     [(''time'', t), (''occurrence'', oc), (''iso_month'', m), (''weekday'', w), (''bias'', PInt n)]
    = Inr v \<Longrightarrow> side_ok v"
  using init_transition(2)[of StandardTime_cls R t oc m w "PInt n"]
  by (auto simp: StandardTime_cls_def side_ok_transition)

lemma init_daylight_side:
  "EWSElement_init R DaylightTime_cls
     [(''time'', t), (''occurrence'', oc), (''iso_month'', m), (''weekday'', w), (''bias'', PInt n)]
    = Inr v \<Longrightarrow> side_ok v"
  using init_transition(2)[of DaylightTime_cls R t oc m w "PInt n"]
  by (auto simp: DaylightTime_cls_def side_ok_transition)

lemma std_and_dst_loop_sides:
  "std_and_dst_loop R periods bias ts (s, d) = Inr (s', d') \<Longrightarrow> side_ok s \<Longrightarrow> side_ok d \<Longrightarrow>
   side_ok s' \<and> side_ok d'"
proof (induction ts arbitrary: s d)
  case Nil
  then show ?case by simp
next
  case (Cons t ts)
  obtain p where p: "map_of periods (t_to t) = Some p"
    using Cons.prems(1) by (auto split: option.splits)
  show ?case
  proof (cases "transition_len t = 1")
    case True
    then have "std_and_dst_loop R periods bias ts (dummy_standard_time, dummy_daylight_time)
        = Inr (s', d')"
      using Cons.prems(1) p by (simp add: init_dummy_standard init_dummy_daylight)
    then show ?thesis using Cons.IH side_ok_dummies by blast
  next
    case False
    obtain off oc m w where k: "t_offset t = Some off" "t_occurrence t = Some oc"
      "t_iso_month t = Some m" "t_iso_weekday t = Some w"
      using Cons.prems(1) p False by (auto split: option.splits if_splits)
    let ?kw = "\<lambda>b. [(''time'', PTime (nat off)), (''occurrence'', PInt oc), (''iso_month'', PInt m),
        (''weekday'', PInt w), (''bias'', PInt b)]"
    consider (std) v where "pname p = ''Standard''"
        "EWSElement_init R StandardTime_cls (?kw 0) = Inr v"
        "std_and_dst_loop R periods bias ts (v, d) = Inr (s', d')"
      | (dst) v where "pname p = ''Daylight''"
        "EWSElement_init R DaylightTime_cls (?kw (timedelta_minutes (pbias p) - bias)) = Inr v"
        "std_and_dst_loop R periods bias ts (s, v) = Inr (s', d')"
      using Cons.prems(1) p False k
      by (auto simp: Let_def split: if_splits sum.splits)
    then show ?thesis
    proof cases
      case std
      then show ?thesis using Cons.IH[of v d] Cons.prems(3) init_standard_side by blast
    next
      case dst
      then show ?thesis using Cons.IH[of s v] Cons.prems(2) init_daylight_side by blast
    qed
  qed
qed

lemma tz_biases_candidate:
  assumes "TimeZone_from_server_timezone R periods transitions groups y = Inr cand"
  shows "\<exists>x. tz_biases cand = Some x"
proof -
  obtain b s d where sd: "TimeZone_get_std_and_dst R
        (the (map_of groups (case TimeZone_get_valid_transition_id transitions y of Inr g \<Rightarrow> g)))
        periods b = Inr (s, d)"
    and c: "EWSElement_init R TimeZone_cls
        [(''bias'', PInt b), (''standard_time'', s), (''daylight_time'', d)] = Inr cand"
    using assms
    by (auto simp: TimeZone_from_server_timezone_def split: sum.splits option.splits if_splits)
  have ok: "side_ok s \<and> side_ok d"
    using sd std_and_dst_loop_sides[of R periods b _ PNone PNone s d]
    by (simp add: TimeZone_get_std_and_dst_def side_ok_def)
  have cand: "cand = PElem TimeZone_cls [(''bias'', PInt b), (''standard_time'', s), (''daylight_time'', d)]"
    using c by (simp add: init_TimeZone)
  have "\<exists>x. side_bias cand ''standard_time'' = Some x"
    using ok unfolding cand
    by (cases s) (auto simp: side_bias_def side_ok_def slot_get_def)
  moreover have "\<exists>x. side_bias cand ''daylight_time'' = Some x"
    using ok unfolding cand
    by (cases d) (auto simp: side_bias_def side_ok_def slot_get_def)
  moreover have "int_attr cand ''bias'' = Inr b"
    unfolding cand by (simp add: int_attr_def slot_get_def)
  ultimately show ?thesis by (auto simp: tz_biases_def)
qed

lemma from_server_timezone_simple:
  assumes "TimeZone_get_bias periods y = Inr b" "TimeZone_get_valid_transition_id transitions y = Inr g"
    "map_of groups g = Some ts" "length ts \<le> 2"
    "\<forall>t \<in> set ts. transition_len t = 1 \<and> map_of periods (t_to t) \<noteq> None"
  shows "TimeZone_from_server_timezone R periods transitions groups y
      = Inr (PElem TimeZone_cls
          [(''bias'', PInt b),
           (''standard_time'', if ts = [] then PNone else dummy_standard_time),
           (''daylight_time'', if ts = [] then PNone else dummy_daylight_time)])"
proof -
  have "TimeZone_get_std_and_dst R ts periods b
      = Inr (if ts = [] then (PNone, PNone) else (dummy_standard_time, dummy_daylight_time))"
    using std_and_dst_loop_simple[OF assms(5), of R b "(PNone, PNone)"]
    by (simp add: TimeZone_get_std_and_dst_def)
  then show ?thesis
    using assms(1-4) by (simp add: TimeZone_from_server_timezone_def init_TimeZone)
qed

lemma example_candidate:
  assumes "length grp \<le> 2" "\<forall>t \<in> set grp. t = simple_transition"
  shows "tz_candidate R 2020 (example_entry tz_id us grp)
      = Inr (example_timezone (timedelta_minutes us)
          (if grp = [] then PNone else dummy_standard_time)
          (if grp = [] then PNone else dummy_daylight_time))"
proof -
  let ?ps = "[((2020 :: int, ''Standard''), \<lparr>pname = ''Standard'', pbias = us\<rparr>)]"
  have b: "TimeZone_get_bias ?ps 2020 = Inr (timedelta_minutes us)"
    by (simp add: TimeZone_get_bias_def)
  have s: "\<forall>t \<in> set grp. transition_len t = 1 \<and> map_of ?ps (t_to t) \<noteq> None"
    using assms(2) by (auto simp: transition_len_def simple_transition_def)
  have "map_of [(0 :: int, grp)] 0 = Some grp" by simp
  from from_server_timezone_simple[OF b example_transition_id this assms(1) s, of R]
  show ?thesis
    by (simp add: tz_candidate_def example_entry_def example_timezone_def)
qed

section \<open>Errors, exact matches and the example catalogue\<close>

lemma tz_candidate_elem:
  assumes "tz_candidate R y entry = Inr cand"
  shows "\<exists>a. cand = PElem TimeZone_cls a"
proof -
  obtain i n p t g where x: "entry = (i, n, p, t, g)" by (cases entry)
  obtain b s d where "EWSElement_init R TimeZone_cls
        [(''bias'', PInt b), (''standard_time'', s), (''daylight_time'', d)] = Inr cand"
    using assms unfolding x
    by (auto simp: tz_candidate_def TimeZone_from_server_timezone_def
        split: sum.splits option.splits if_splits)
  then show ?thesis by (auto simp: init_TimeZone)
qed

lemma candidate_eq_hashes:
  assumes "tz_candidate R y entry = Inr cand" "py_hash R cand = Inr h1" "py_hash R self = Inr h2"
  shows "elem_eq R cand self = Inr (h1 = h2)"
proof -
  obtain a where a: "cand = PElem TimeZone_cls a" using tz_candidate_elem[OF assms(1)] by blast
  have "elem_eq R cand self = EWSElement_eq R cand self"
    unfolding a by (rule elem_eq_base) simp
  then show ?thesis using EWSElement_eq_hashes[OF assms(2,3)] by (simp only:)
qed

lemma loop_error:
  assumes "\<forall>x \<in> set pre. inexact_entry R self y x" "tz_candidate R y entry = Inl e"
  shows "to_server_timezone_loop R self y (pre @ entry # post) C = Inl e"
  using assms(1)
proof (induction pre arbitrary: C)
  case Nil
  obtain i n p t g where x: "entry = (i, n, p, t, g)" by (cases entry)
  show ?case using assms(2) unfolding x by (simp add: tz_candidate_def)
next
  case (Cons x pre)
  have "to_server_timezone_loop R self y ((x # pre) @ entry # post) C
      = to_server_timezone_loop R self y (pre @ entry # post)
          (if qualifies R self y x then insert (fst x) C else C)"
    using Cons.prems loop_step_inexact[of R self y x "pre @ entry # post" C] by simp
  then show ?case using Cons by simp
qed

lemma inexact_entry_hashes:
  assumes "tz_candidate R y entry = Inr cand" "py_hash R cand = Inr h1" "py_hash R self = Inr h2"
    "h1 \<noteq> h2" "tz_biases self = Some z"
  shows "inexact_entry R self y entry"
proof -
  obtain i n p t g where x: "entry = (i, n, p, t, g)" by (cases entry)
  have "TimeZone_from_server_timezone R p t g y = Inr cand"
    using assms(1) unfolding x by (simp add: tz_candidate_def)
  then obtain b where b: "tz_biases cand = Some b" using tz_biases_candidate by blast
  have m: "biases_match R cand self = Inr (b = z)" using b assms(5) by (rule tz_biases_match)
  have e: "elem_eq R cand self = Inr False"
    using candidate_eq_hashes[OF assms(1-3)] assms(4) by simp
  show ?thesis by (simp add: inexact_entry_def assms(1) e m)
qed

lemma qualifies_biases:
  assumes "tz_candidate R y entry = Inr cand" "tz_biases self = Some z"
  shows "\<exists>x. tz_biases cand = Some x \<and> qualifies R self y entry = (x = z)"
proof -
  obtain i n p t g where e: "entry = (i, n, p, t, g)" by (cases entry)
  have "TimeZone_from_server_timezone R p t g y = Inr cand"
    using assms(1) unfolding e by (simp add: tz_candidate_def)
  then obtain x where x: "tz_biases cand = Some x" using tz_biases_candidate by blast
  have "biases_match R cand self = Inr (x = z)" using x assms(2) by (rule tz_biases_match)
  then have "qualifies R self y entry = (x = z)" using assms(1) by (simp add: qualifies_def)
  then show ?thesis using x by blast
qed

lemma timedelta_minutes_180: "timedelta_minutes 10800000000 = 180"
  using timedelta_minutes_exact[of 180] by simp

lemma dst_bias: "TimeZone_get_bias dst_periods 2020 = Inr 120"
  by (simp add: TimeZone_get_bias_def dst_periods_def timedelta_minutes_examples)

lemma init_standard_kwargs:
  "EWSElement_init R StandardTime_cls
     [(''time'', t), (''occurrence'', oc), (''iso_month'', m), (''weekday'', w), (''bias'', b)]
   = Inr (PElem StandardTime_cls
     [(''bias'', b), (''time'', t), (''occurrence'', oc), (''iso_month'', m), (''weekday'', w)])"
  by (rule init_transition) (simp_all add: StandardTime_cls_def)

lemma init_daylight_kwargs:
  "EWSElement_init R DaylightTime_cls
     [(''time'', t), (''occurrence'', oc), (''iso_month'', m), (''weekday'', w), (''bias'', b)]
   = Inr (PElem DaylightTime_cls
     [(''bias'', b), (''time'', t), (''occurrence'', oc), (''iso_month'', m), (''weekday'', w)])"
  by (rule init_transition) (simp_all add: DaylightTime_cls_def)

lemma example_dst_candidate:
  assumes "hour < 24"
  shows "tz_candidate R 2020 (example_dst_entry tz_id hour) = Inr (example_dst_timezone hour)"
proof -
  have o: "int hour * 3600000000 < 86400000000" using assms by simp
  have n: "nat (int hour * 3600000000) = hour * 3600000000"
    by (simp add: nat_mult_distrib)
  have "std_and_dst_loop R dst_periods 120
      [dst_transition ''Standard'' hour 10, dst_transition ''Daylight'' hour 3] (PNone, PNone)
    = Inr (PElem StandardTime_cls
          [(''bias'', PInt 0), (''time'', PTime (hour * 3600000000)), (''occurrence'', PInt 5),
           (''iso_month'', PInt 10), (''weekday'', PInt 7)],
         PElem DaylightTime_cls
          [(''bias'', PInt 60), (''time'', PTime (hour * 3600000000)), (''occurrence'', PInt 5),
           (''iso_month'', PInt 3), (''weekday'', PInt 7)])"
    using o
    by (simp add: dst_periods_def dst_transition_def transition_len_def init_standard_kwargs
        init_daylight_kwargs timedelta_minutes_180 n)
  then show ?thesis
    by (simp add: tz_candidate_def example_dst_entry_def TimeZone_from_server_timezone_def dst_bias
        example_transition_id TimeZone_get_std_and_dst_def init_TimeZone example_dst_timezone_def
        example_timezone_def)
qed

lemma example_bad_candidate: "tz_candidate R 2020 (example_bad_entry tz_id) = Inl NoStandardBias"
  by (simp add: tz_candidate_def example_bad_entry_def TimeZone_from_server_timezone_def
      TimeZone_get_bias_def)

lemma result_exact:
  assumes "\<forall>x \<in> set pre. inexact_entry R self y x" "tz_candidate R y entry = Inr cand"
    "py_hash R cand = Inr h" "py_hash R self = Inr h"
  shows "TimeZone_to_server_timezone R self (pre @ entry # post) y = Inr {fst entry}"
proof -
  have "elem_eq R cand self = Inr (h = h)" using assms(2-4) by (rule candidate_eq_hashes)
  then have "elem_eq R cand self = Inr True" by simp
  then have "to_server_timezone_loop R self y (pre @ entry # post) {} = Inr (ExactMatch (fst entry))"
    using assms(1,2) by (intro loop_exact)
  then show ?thesis by (simp add: TimeZone_to_server_timezone_def)
qed

lemma result_error:
  assumes "\<forall>x \<in> set pre. inexact_entry R self y x" "tz_candidate R y entry = Inl e"
  shows "TimeZone_to_server_timezone R self (pre @ entry # post) y = Inl e"
  using loop_error[OF assms, of post "{}"] by (simp add: TimeZone_to_server_timezone_def)

lemma result_inexact:
  assumes "\<forall>x \<in> set timezones. inexact_entry R self y x"
  shows "TimeZone_to_server_timezone R self timezones y
      = (if fst ` {x \<in> set timezones. qualifies R self y x} = {} then Inl NoMatchingTimezone
         else Inr (fst ` {x \<in> set timezones. qualifies R self y x}))"
proof -
  have "to_server_timezone_loop R self y timezones {}
      = Inr (Candidates ({} \<union> fst ` {x \<in> set timezones. qualifies R self y x}))"
    using assms by (rule loop_inexact)
  then show ?thesis by (simp add: TimeZone_to_server_timezone_def)
qed

lemma image_filter_list:
  "f ` {x \<in> set []. Q x} = {}"
  "f ` {x \<in> set (a # as). Q x}
     = (if Q a then insert (f a) (f ` {x \<in> set as. Q x}) else f ` {x \<in> set as. Q x})"
  by auto

lemma fst_example_entry:
  "fst (example_entry i us grp) = i" "fst (example_dst_entry i hour) = i"
  "fst (example_bad_entry i) = i"
  by (simp_all add: example_entry_def example_dst_entry_def example_bad_entry_def)

lemma hash_example_timezone:
  "py_hash example_runtime (example_timezone b PNone PNone) = Inr (b + 208537)"
  by (simp add: example_timezone_def EWSElement_hash_arg_def hash_item_def slot_get_def
      TimeZone_FIELDS_def plain_field_def example_runtime_def)

lemma hash_example_dst_timezone:
  "py_hash example_runtime (example_dst_timezone 2) = Inr 221619713909908"
  "py_hash example_runtime (example_dst_timezone 3) = Inr 332326913909908"
  "py_hash example_runtime (example_dst_timezone 4) = Inr 443034113909908"
  by (simp_all add: example_dst_timezone_def example_timezone_def EWSElement_hash_arg_def
      hash_item_def slot_get_def TimeZone_FIELDS_def TimeZoneTransition_FIELDS_def plain_field_def
      example_runtime_def)

lemma hash_cpython_timezone:
  "py_hash cpython_runtime (example_timezone (- 1) PNone PNone) = Inr 208535"
  "py_hash cpython_runtime (example_timezone (- 2) PNone PNone) = Inr 208535"
  by (simp_all add: example_timezone_def EWSElement_hash_arg_def hash_item_def slot_get_def
      TimeZone_FIELDS_def plain_field_def example_runtime_def cpython_runtime_def
      cpython_int_hash_def)

lemma tz_biases_example:
  "tz_biases (example_timezone b PNone PNone) = Some (b, None, None)"
  "tz_biases (example_dst_timezone hour) = Some (120, Some 0, Some 60)"
  by (simp_all add: tz_biases_def side_bias_def int_attr_def slot_get_def example_timezone_def
      example_dst_timezone_def)

lemma example_plain_candidate:
  "tz_candidate R 2020 (example_entry i 3600000000 []) = Inr (example_timezone 60 PNone PNone)"
  "tz_candidate R 2020 (example_entry i (- 120000000) []) = Inr (example_timezone (- 2) PNone PNone)"
  using example_candidate[of "[]" R i] by (simp_all add: timedelta_minutes_examples)

lemma example_plain_inexact:
  "inexact_entry example_runtime (example_dst_timezone 3) 2020 (example_entry i 3600000000 [])"
  "qualifies example_runtime (example_dst_timezone 3) 2020 (example_entry i 3600000000 []) = False"
proof -
  show "inexact_entry example_runtime (example_dst_timezone 3) 2020 (example_entry i 3600000000 [])"
    by (rule inexact_entry_hashes[OF example_plain_candidate(1) hash_example_timezone
          hash_example_dst_timezone(2) _ tz_biases_example(2)]) simp
  show "qualifies example_runtime (example_dst_timezone 3) 2020 (example_entry i 3600000000 []) = False"
    using qualifies_biases[OF example_plain_candidate(1)[of example_runtime i]
        tz_biases_example(2)[of 3]]
    by (simp add: tz_biases_example)
qed

lemma example_dst_inexact:
  "inexact_entry example_runtime (example_dst_timezone 3) 2020 (example_dst_entry i 4)"
  "inexact_entry example_runtime (example_dst_timezone 3) 2020 (example_dst_entry i 2)"
proof -
  have c4: "tz_candidate example_runtime 2020 (example_dst_entry i 4) = Inr (example_dst_timezone 4)"
    by (rule example_dst_candidate) simp
  have c2: "tz_candidate example_runtime 2020 (example_dst_entry i 2) = Inr (example_dst_timezone 2)"
    by (rule example_dst_candidate) simp
  show "inexact_entry example_runtime (example_dst_timezone 3) 2020 (example_dst_entry i 4)"
    by (rule inexact_entry_hashes[OF c4 hash_example_dst_timezone(3)
          hash_example_dst_timezone(2) _ tz_biases_example(2)]) simp
  show "inexact_entry example_runtime (example_dst_timezone 3) 2020 (example_dst_entry i 2)"
    by (rule inexact_entry_hashes[OF c2 hash_example_dst_timezone(1)
          hash_example_dst_timezone(2) _ tz_biases_example(2)]) simp
qed

lemma example_dst_qualifies:
  assumes "hour < 24"
  shows "qualifies example_runtime (example_dst_timezone 3) 2020 (example_dst_entry i hour) = True"
  using qualifies_biases[OF example_dst_candidate[OF assms, of example_runtime i]
      tz_biases_example(2)[of 3]]
  by (simp add: tz_biases_example)

text \<open>
  Claim C3 (as amended). The entries of the catalogue are visited in order; \<open>pre\<close> are entries
  whose timezone is derived and is neither equal to the local one nor the cause of an error.
  After such entries, an entry whose timezone has the hash of the local one (as a timezone
  that is structurally equal has) ends the call with its id, and an entry whose timezone cannot
  be derived ends it with the error of the derivation. When the whole catalogue is of such
  entries, the ids the call may return are the ids of the entries that qualify: it fails with
  the error of no matching timezone when there is none, and returns the id when there is
  exactly one. An entry qualifies exactly when the base bias of its timezone is that of the
  local one and, for the standard and for the daylight time, both are absent or both are
  present with the same bias. An entry whose timezone is derived and hashes differently from
  a local timezone with its biases is such an entry.
\<close>

theorem to_server_timezone_result:
  "(timezones = pre @ entry # post \<and> (\<forall>x \<in> set pre. inexact_entry R self y x)
      \<and> tz_candidate R y entry = Inr cand \<and> py_hash R cand = Inr h \<and> py_hash R self = Inr h \<longrightarrow>
        TimeZone_to_server_timezone R self timezones y = Inr {fst entry})
   \<and> (timezones = pre @ entry # post \<and> (\<forall>x \<in> set pre. inexact_entry R self y x)
      \<and> tz_candidate R y entry = Inr self \<and> py_hash R self = Inr h \<longrightarrow>
        TimeZone_to_server_timezone R self timezones y = Inr {fst entry})
   \<and> (timezones = pre @ entry # post \<and> (\<forall>x \<in> set pre. inexact_entry R self y x)
      \<and> tz_candidate R y entry = Inl e \<longrightarrow>
        TimeZone_to_server_timezone R self timezones y = Inl e)
   \<and> ((\<forall>x \<in> set timezones. inexact_entry R self y x) \<longrightarrow>
        TimeZone_to_server_timezone R self timezones y
          = (if fst ` {x \<in> set timezones. qualifies R self y x} = {} then Inl NoMatchingTimezone
             else Inr (fst ` {x \<in> set timezones. qualifies R self y x})))
   \<and> ((\<forall>x \<in> set timezones. inexact_entry R self y x)
        \<and> fst ` {x \<in> set timezones. qualifies R self y x} = {i} \<longrightarrow>
        TimeZone_to_server_timezone R self timezones y = Inr {i})
   \<and> (tz_candidate R y entry = Inr cand \<and> tz_biases self = Some z \<longrightarrow>
        (\<exists>x. tz_biases cand = Some x \<and> qualifies R self y entry = (x = z)))
   \<and> (tz_candidate R y entry = Inr cand \<and> py_hash R cand = Inr h1 \<and> py_hash R self = Inr h2
        \<and> h1 \<noteq> h2 \<and> tz_biases self = Some z \<longrightarrow>
        inexact_entry R self y entry)"
proof -
  have 1: "timezones = pre @ entry # post \<and> (\<forall>x \<in> set pre. inexact_entry R self y x)
      \<and> tz_candidate R y entry = Inr cand \<and> py_hash R cand = Inr h \<and> py_hash R self = Inr h \<longrightarrow>
        TimeZone_to_server_timezone R self timezones y = Inr {fst entry}"
    using result_exact[of pre R self y entry cand h post] by blast
  have 2: "timezones = pre @ entry # post \<and> (\<forall>x \<in> set pre. inexact_entry R self y x)
      \<and> tz_candidate R y entry = Inr self \<and> py_hash R self = Inr h \<longrightarrow>
        TimeZone_to_server_timezone R self timezones y = Inr {fst entry}"
    using result_exact[of pre R self y entry self h post] by blast
  have 3: "timezones = pre @ entry # post \<and> (\<forall>x \<in> set pre. inexact_entry R self y x)
      \<and> tz_candidate R y entry = Inl e \<longrightarrow>
        TimeZone_to_server_timezone R self timezones y = Inl e"
    using result_error[of pre R self y entry e post] by blast
  have 4: "(\<forall>x \<in> set timezones. inexact_entry R self y x) \<longrightarrow>
        TimeZone_to_server_timezone R self timezones y
          = (if fst ` {x \<in> set timezones. qualifies R self y x} = {} then Inl NoMatchingTimezone
             else Inr (fst ` {x \<in> set timezones. qualifies R self y x}))"
    by (intro impI) (rule result_inexact)
  have 5: "(\<forall>x \<in> set timezones. inexact_entry R self y x)
        \<and> fst ` {x \<in> set timezones. qualifies R self y x} = {i} \<longrightarrow>
        TimeZone_to_server_timezone R self timezones y = Inr {i}"
  proof (intro impI, elim conjE)
    assume a: "\<forall>x \<in> set timezones. inexact_entry R self y x"
      and s: "fst ` {x \<in> set timezones. qualifies R self y x} = {i}"
    show "TimeZone_to_server_timezone R self timezones y = Inr {i}"
      unfolding result_inexact[OF a] s by simp
  qed
  have 6: "tz_candidate R y entry = Inr cand \<and> tz_biases self = Some z \<longrightarrow>
        (\<exists>x. tz_biases cand = Some x \<and> qualifies R self y entry = (x = z))"
    using qualifies_biases[of R y entry cand self z] by blast
  have 7: "tz_candidate R y entry = Inr cand \<and> py_hash R cand = Inr h1 \<and> py_hash R self = Inr h2
        \<and> h1 \<noteq> h2 \<and> tz_biases self = Some z \<longrightarrow>
        inexact_entry R self y entry"
    using inexact_entry_hashes[of R y entry cand h1 self h2 z] by blast
  show ?thesis by (intro conjI) (rule 1 2 3 4 5 6 7)+
qed

theorem to_server_timezone_result_witness:
  "TimeZone_to_server_timezone example_runtime (example_dst_timezone 3)
      [example_entry ''W. Europe Standard Time'' 3600000000 [],
       example_dst_entry ''GTB Standard Time'' 4,
       example_dst_entry ''FLE Standard Time'' 3,
       example_dst_entry ''E. Europe Standard Time'' 2] 2020
     = Inr {''FLE Standard Time''}
   \<and> TimeZone_to_server_timezone example_runtime (example_dst_timezone 3)
      [example_entry ''W. Europe Standard Time'' 3600000000 [],
       example_dst_entry ''FLE Standard Time'' 3] 2020
     = Inr {''FLE Standard Time''}
   \<and> TimeZone_to_server_timezone example_runtime (example_dst_timezone 3)
      [example_entry ''W. Europe Standard Time'' 3600000000 [],
       example_bad_entry ''Bad'',
       example_dst_entry ''FLE Standard Time'' 3] 2020
     = Inl NoStandardBias
   \<and> TimeZone_to_server_timezone example_runtime (example_dst_timezone 3)
      [example_entry ''W. Europe Standard Time'' 3600000000 []] 2020
     = Inl NoMatchingTimezone
   \<and> TimeZone_to_server_timezone example_runtime (example_dst_timezone 3)
      [example_entry ''W. Europe Standard Time'' 3600000000 [],
       example_dst_entry ''GTB Standard Time'' 4,
       example_dst_entry ''E. Europe Standard Time'' 2] 2020
     = Inr {''GTB Standard Time'', ''E. Europe Standard Time''}
   \<and> TimeZone_to_server_timezone example_runtime (example_dst_timezone 3)
      [example_entry ''W. Europe Standard Time'' 3600000000 [],
       example_dst_entry ''GTB Standard Time'' 4] 2020
     = Inr {''GTB Standard Time''}
   \<and> qualifies example_runtime (example_dst_timezone 3) 2020
        (example_dst_entry ''GTB Standard Time'' 4)
   \<and> inexact_entry example_runtime (example_dst_timezone 3) 2020
        (example_dst_entry ''GTB Standard Time'' 4)"
proof -
  let ?w = "example_entry ''W. Europe Standard Time'' 3600000000 []"
  let ?g = "example_dst_entry ''GTB Standard Time'' 4"
  let ?f = "example_dst_entry ''FLE Standard Time'' 3"
  let ?e = "example_dst_entry ''E. Europe Standard Time'' 2"
  let ?b = "example_bad_entry ''Bad''"
  let ?L = "example_dst_timezone 3"
  let ?I = "inexact_entry example_runtime ?L 2020"
  let ?Q = "qualifies example_runtime ?L 2020"
  have iw: "?I ?w" by (rule example_plain_inexact)
  have ig: "?I ?g" and ie: "?I ?e" by (rule example_dst_inexact)+
  have qw: "?Q ?w = False" by (rule example_plain_inexact)
  have qg: "?Q ?g = True" and qe: "?Q ?e = True" by (rule example_dst_qualifies, simp)+
  have cf: "tz_candidate example_runtime 2020 ?f = Inr ?L"
    by (rule example_dst_candidate) simp
  have cg: "tz_candidate example_runtime 2020 ?g = Inr (example_dst_timezone 4)"
    by (rule example_dst_candidate) simp
  have cb: "tz_candidate example_runtime 2020 ?b = Inl NoStandardBias"
    by (rule example_bad_candidate)
  note hL = hash_example_dst_timezone(2)
  have p1: "\<forall>x \<in> set [?w, ?g]. ?I x" using iw ig by simp
  have p2: "\<forall>x \<in> set [?w]. ?I x" using iw by simp
  have p3: "\<forall>x \<in> set [?w, ?g, ?e]. ?I x" using iw ig ie by simp
  have l1: "[?w, ?g, ?f, ?e] = [?w, ?g] @ ?f # [?e]" by simp
  have l2: "[?w, ?f] = [?w] @ ?f # []" by simp
  have l3: "[?w, ?b, ?f] = [?w] @ ?b # [?f]" by simp
  have s1: "fst ` {x \<in> set [?w]. ?Q x} = {}"
    by (simp only: image_filter_list qw if_False)
  have s2: "fst ` {x \<in> set [?w, ?g]. ?Q x} = {''GTB Standard Time''}"
    by (simp only: image_filter_list qw qg if_False if_True fst_example_entry)
  have s3: "fst ` {x \<in> set [?w, ?g, ?e]. ?Q x} = {''GTB Standard Time'', ''E. Europe Standard Time''}"
    by (simp only: image_filter_list qw qg qe if_False if_True fst_example_entry)
  note A = to_server_timezone_result[where R = example_runtime and self = ?L and y = 2020
      and timezones = "[?w, ?g, ?f, ?e]" and pre = "[?w, ?g]" and entry = ?f and post = "[?e]"
      and cand = ?L and h = 332326913909908]
  note B = to_server_timezone_result[where R = example_runtime and self = ?L and y = 2020
      and timezones = "[?w, ?f]" and pre = "[?w]" and entry = ?f and post = "[]"
      and h = 332326913909908]
  note C = to_server_timezone_result[where R = example_runtime and self = ?L and y = 2020
      and timezones = "[?w, ?b, ?f]" and pre = "[?w]" and entry = ?b and post = "[?f]"
      and e = NoStandardBias]
  note D = to_server_timezone_result[where R = example_runtime and self = ?L and y = 2020
      and timezones = "[?w]"]
  note E = to_server_timezone_result[where R = example_runtime and self = ?L and y = 2020
      and timezones = "[?w, ?g, ?e]"]
  note F = to_server_timezone_result[where R = example_runtime and self = ?L and y = 2020
      and timezones = "[?w, ?g]" and i = "''GTB Standard Time''" and entry = ?g
      and cand = "example_dst_timezone 4" and z = "(120, Some 0, Some 60)"
      and ?h1.0 = 443034113909908 and ?h2.0 = 332326913909908]
  have "TimeZone_to_server_timezone example_runtime ?L [?w, ?g, ?f, ?e] 2020 = Inr {fst ?f}"
    by (rule A[THEN conjunct1, THEN mp]) (intro conjI l1 p1 cf hL)
  then have a: "TimeZone_to_server_timezone example_runtime ?L [?w, ?g, ?f, ?e] 2020
      = Inr {''FLE Standard Time''}"
    by (simp only: fst_example_entry)
  have "TimeZone_to_server_timezone example_runtime ?L [?w, ?f] 2020 = Inr {fst ?f}"
    by (rule B[THEN conjunct2, THEN conjunct1, THEN mp]) (intro conjI l2 p2 cf hL)
  then have b: "TimeZone_to_server_timezone example_runtime ?L [?w, ?f] 2020
      = Inr {''FLE Standard Time''}"
    by (simp only: fst_example_entry)
  have c: "TimeZone_to_server_timezone example_runtime ?L [?w, ?b, ?f] 2020 = Inl NoStandardBias"
    by (rule C[THEN conjunct2, THEN conjunct2, THEN conjunct1, THEN mp]) (intro conjI l3 p2 cb)
  have "TimeZone_to_server_timezone example_runtime ?L [?w] 2020
      = (if fst ` {x \<in> set [?w]. ?Q x} = {} then Inl NoMatchingTimezone
         else Inr (fst ` {x \<in> set [?w]. ?Q x}))"
    by (rule D[THEN conjunct2, THEN conjunct2, THEN conjunct2, THEN conjunct1, THEN mp]) (rule p2)
  then have d: "TimeZone_to_server_timezone example_runtime ?L [?w] 2020 = Inl NoMatchingTimezone"
    unfolding s1 by simp
  have "TimeZone_to_server_timezone example_runtime ?L [?w, ?g, ?e] 2020
      = (if fst ` {x \<in> set [?w, ?g, ?e]. ?Q x} = {} then Inl NoMatchingTimezone
         else Inr (fst ` {x \<in> set [?w, ?g, ?e]. ?Q x}))"
    by (rule E[THEN conjunct2, THEN conjunct2, THEN conjunct2, THEN conjunct1, THEN mp]) (rule p3)
  then have e: "TimeZone_to_server_timezone example_runtime ?L [?w, ?g, ?e] 2020
      = Inr {''GTB Standard Time'', ''E. Europe Standard Time''}"
    unfolding s3 by simp
  have f: "TimeZone_to_server_timezone example_runtime ?L [?w, ?g] 2020 = Inr {''GTB Standard Time''}"
    by (rule F[THEN conjunct2, THEN conjunct2, THEN conjunct2, THEN conjunct2, THEN conjunct1, THEN mp]) (intro conjI p1 s2)
  have "\<exists>x. tz_biases (example_dst_timezone 4) = Some x \<and> ?Q ?g = (x = (120, Some 0, Some 60))"
    by (rule F[THEN conjunct2, THEN conjunct2, THEN conjunct2, THEN conjunct2, THEN conjunct2, THEN conjunct1, THEN mp]) (intro conjI cg tz_biases_example(2))
  then obtain x where x: "tz_biases (example_dst_timezone 4) = Some x"
    and q: "?Q ?g = (x = (120, Some 0, Some 60))"
    by (elim exE conjE)
  have "x = (120, Some 0, Some 60)"
    using x unfolding tz_biases_example(2) by simp
  then have g: "?Q ?g"
    using q by simp
  have h: "?I ?g"
    by (rule F[THEN conjunct2, THEN conjunct2, THEN conjunct2, THEN conjunct2, THEN conjunct2, THEN conjunct2, THEN mp]) (intro conjI cg hash_example_dst_timezone(3) hL tz_biases_example(2), simp)
  show ?thesis by (intro conjI) (rule a b c d e f g h)+
qed

text \<open>
  Claim C3 as stated does not hold. With CPython's hash of the integers, where
  \<^verbatim>\<open>hash(-1) == hash(-2)\<close>, the entry whose timezone has the bias -2 is taken for an exact match
  of the local timezone of bias -1, although the biases differ and the entry does not qualify.
  And an entry without a standard period ends the call with the error of the derivation,
  although the next entry derives the local timezone.
\<close>

theorem to_server_timezone_counterexample:
  "TimeZone_to_server_timezone cpython_runtime (example_timezone (- 1) PNone PNone)
      [example_entry ''UTC-02'' (- 120000000) []] 2020
     = Inr {''UTC-02''}
   \<and> tz_candidate cpython_runtime 2020 (example_entry ''UTC-02'' (- 120000000) [])
     = Inr (example_timezone (- 2) PNone PNone)
   \<and> \<not> qualifies cpython_runtime (example_timezone (- 1) PNone PNone) 2020
        (example_entry ''UTC-02'' (- 120000000) [])
   \<and> TimeZone_to_server_timezone example_runtime (example_dst_timezone 3)
      [example_bad_entry ''Bad'', example_dst_entry ''FLE Standard Time'' 3] 2020
     = Inl NoStandardBias
   \<and> tz_candidate example_runtime 2020 (example_dst_entry ''FLE Standard Time'' 3)
     = Inr (example_dst_timezone 3)"
proof -
  let ?u = "example_entry ''UTC-02'' (- 120000000) []"
  let ?b = "example_bad_entry ''Bad''"
  let ?f = "example_dst_entry ''FLE Standard Time'' 3"
  have cu: "tz_candidate cpython_runtime 2020 ?u = Inr (example_timezone (- 2) PNone PNone)"
    by (rule example_plain_candidate)
  have "TimeZone_to_server_timezone cpython_runtime (example_timezone (- 1) PNone PNone)
      ([] @ ?u # []) 2020 = Inr {fst ?u}"
    by (rule result_exact[OF _ cu hash_cpython_timezone(2) hash_cpython_timezone(1)]) simp
  then have a: "TimeZone_to_server_timezone cpython_runtime (example_timezone (- 1) PNone PNone)
      [?u] 2020 = Inr {''UTC-02''}"
    by (simp add: fst_example_entry)
  have c: "\<not> qualifies cpython_runtime (example_timezone (- 1) PNone PNone) 2020 ?u"
    using qualifies_biases[OF cu tz_biases_example(1)[of "- 1"]] by (simp add: tz_biases_example)
  have "TimeZone_to_server_timezone example_runtime (example_dst_timezone 3) ([] @ ?b # [?f]) 2020
      = Inl NoStandardBias"
    by (rule result_error[OF _ example_bad_candidate]) simp
  then have d: "TimeZone_to_server_timezone example_runtime (example_dst_timezone 3) [?b, ?f] 2020
      = Inl NoStandardBias"
    by simp
  have e: "tz_candidate example_runtime 2020 ?f = Inr (example_dst_timezone 3)"
    by (rule example_dst_candidate) simp
  show ?thesis by (intro conjI) (rule a cu c d e)+
qed

end
